theory Spec2Isabelle
  imports Complex_Main "HOL-Library.AList" "HOL-Library.Multiset"
begin

section \<open>Model Gateway: bounded conversation history (llmService.ts)\<close>

text \<open>
  \<^verbatim>\<open>ConversationMessage\<close> has a role, a content string and a timestamp
  (\<^verbatim>\<open>Date.now()\<close>, milliseconds since the epoch).
\<close>

datatype role = System | User | Assistant

record ConversationMessage =
  msg_role :: role
  msg_content :: string
  msg_timestamp :: nat

text \<open>
  \<^verbatim>\<open>private conversations: Map<string, ConversationMessage[]> = new Map()\<close>
  is a map from session ids to message arrays; the class field starts empty.
\<close>

type_synonym conversations = "string \<rightharpoonup> ConversationMessage list"

definition MAX_CONTEXT_MESSAGES :: nat where
  "MAX_CONTEXT_MESSAGES = 20"

text \<open>
  \<^verbatim>\<open>getConversationContext\<close>: \<^verbatim>\<open>this.conversations.get(sessionId) || []\<close>.
  An array is always truthy, so only a missing key gives the empty array.
\<close>

definition getConversationContext :: "conversations \<Rightarrow> string \<Rightarrow> ConversationMessage list" where
  "getConversationContext convs sessionId =
     (case convs sessionId of None \<Rightarrow> [] | Some c \<Rightarrow> c)"

text \<open>
  \<^verbatim>\<open>addToConversationContext\<close>: push the message, then
  \<^verbatim>\<open>if (context.length > MAX) context.splice(0, context.length - MAX)\<close>
  (remove that many elements from index 0), then store the array under the session id.
\<close>

definition addToConversationContext ::
  "conversations \<Rightarrow> string \<Rightarrow> ConversationMessage \<Rightarrow> conversations" where
  "addToConversationContext convs sessionId message =
     (let context = getConversationContext convs sessionId @ [message];
          context' = (if length context > MAX_CONTEXT_MESSAGES
                      then drop (length context - MAX_CONTEXT_MESSAGES) context
                      else context)
      in convs(sessionId \<mapsto> context'))"

definition clearConversationContext :: "conversations \<Rightarrow> string \<Rightarrow> conversations" where
  "clearConversationContext convs sessionId = convs(sessionId := None)"

text \<open>A sequence of appends, each to some session, applied in order.\<close>

fun appendAll :: "conversations \<Rightarrow> (string \<times> ConversationMessage) list \<Rightarrow> conversations" where
  "appendAll convs [] = convs"
| "appendAll convs ((sid, m) # rest) = appendAll (addToConversationContext convs sid m) rest"

text \<open>The messages of a sequence of appends that went to one session, in append order.\<close>

definition appendedTo :: "string \<Rightarrow> (string \<times> ConversationMessage) list \<Rightarrow> ConversationMessage list" where
  "appendedTo sid ops = map snd (filter (\<lambda>p. fst p = sid) ops)"

text \<open>The last \<open>n\<close> elements of a list, in their order.\<close>

definition lastN :: "nat \<Rightarrow> 'a list \<Rightarrow> 'a list" where
  "lastN n xs = drop (length xs - n) xs"

section \<open>JavaScript values\<close>

text \<open>
  The protocol client handles values produced by \<^verbatim>\<open>JSON.parse\<close> with no schema
  check, so the model keeps them dynamically typed. Strings are byte strings holding
  UTF-8 text. A number carries its exact rational value: the modelled code only compares
  numbers and tests them for truthiness, it never computes with them (the two zeros are
  identified, both are falsy and equal as map keys). An object is its list of
  properties, looked up by name.
\<close>

datatype jsval =
    JUndefined
  | JNull
  | JBool bool
  | JNum rat
  | JStr string
  | JArr "jsval list"
  | JObj "(string \<times> jsval) list"

text \<open>A thrown value: an \<^verbatim>\<open>Error\<close> object with its message, or anything else.\<close>

datatype exn = Error string | NonError jsval

text \<open>\<^verbatim>\<open>error instanceof Error ? error.message : 'Unknown error'\<close>\<close>

fun errorMessage :: "exn \<Rightarrow> string" where
  "errorMessage (Error m) = m"
| "errorMessage (NonError v) = ''Unknown error''"

text \<open>Truthiness, as \<^verbatim>\<open>if (v)\<close>, \<^verbatim>\<open>v && w\<close> and \<^verbatim>\<open>v || w\<close> test it.\<close>

fun truthy :: "jsval \<Rightarrow> bool" where
  "truthy JUndefined = False"
| "truthy JNull = False"
| "truthy (JBool b) = b"
| "truthy (JNum n) = (n \<noteq> 0)"
| "truthy (JStr s) = (s \<noteq> [])"
| "truthy (JArr xs) = True"
| "truthy (JObj kvs) = True"

definition jsOr :: "jsval \<Rightarrow> jsval \<Rightarrow> jsval" where
  "jsOr a b = (if truthy a then a else b)"

text \<open>
  Reading a named property \<^verbatim>\<open>v.k\<close>. On \<^verbatim>\<open>undefined\<close> and \<^verbatim>\<open>null\<close> the read
  throws a TypeError (the message is V8's). The names the code reads (\<^verbatim>\<open>id\<close>,
  \<^verbatim>\<open>error\<close>, \<^verbatim>\<open>message\<close>, \<^verbatim>\<open>result\<close>, \<^verbatim>\<open>content\<close>, \<^verbatim>\<open>type\<close>,
  \<^verbatim>\<open>data\<close>, \<^verbatim>\<open>text\<close>, and the argument names \<^verbatim>\<open>x\<close>, \<^verbatim>\<open>y\<close>,
  \<^verbatim>\<open>source_width\<close>, \<^verbatim>\<open>source_height\<close>, \<^verbatim>\<open>special_key\<close>, \<^verbatim>\<open>key_combo\<close>,
  \<^verbatim>\<open>identifier\<close>) are not properties of any prototype, so on a primitive or an
  array the read gives \<^verbatim>\<open>undefined\<close>.
\<close>

fun getProp :: "jsval \<Rightarrow> string \<Rightarrow> exn + jsval" where
  "getProp JUndefined k =
     Inl (Error (''Cannot read properties of undefined (reading '' @ [CHR 0x27] @ k @ [CHR 0x27] @ '')''))"
| "getProp JNull k =
     Inl (Error (''Cannot read properties of null (reading '' @ [CHR 0x27] @ k @ [CHR 0x27] @ '')''))"
| "getProp (JObj kvs) k = Inr (case map_of kvs k of None \<Rightarrow> JUndefined | Some v \<Rightarrow> v)"
| "getProp v k = Inr JUndefined"

text \<open>
  Reading element \<^verbatim>\<open>v[0]\<close>: the first element of an array, the first character of a
  string, the property named \<^verbatim>\<open>0\<close> of an object.
\<close>

fun getIndex0 :: "jsval \<Rightarrow> exn + jsval" where
  "getIndex0 JUndefined = getProp JUndefined ''0''"
| "getIndex0 JNull = getProp JNull ''0''"
| "getIndex0 (JArr xs) = Inr (case xs of [] \<Rightarrow> JUndefined | x # _ \<Rightarrow> x)"
| "getIndex0 (JStr s) = Inr (case s of [] \<Rightarrow> JUndefined | c # _ \<Rightarrow> JStr [c])"
| "getIndex0 (JObj kvs) = getProp (JObj kvs) ''0''"
| "getIndex0 v = Inr JUndefined"

text \<open>Sequencing of steps that may throw: the first throw ends the sequence.\<close>

definition andThen :: "exn + 'a \<Rightarrow> ('a \<Rightarrow> exn + 'b) \<Rightarrow> exn + 'b" where
  "andThen r f = (case r of Inl e \<Rightarrow> Inl e | Inr v \<Rightarrow> f v)"

section \<open>Protocol types (types/mcp.ts)\<close>

record MCPTool =
  name :: string
  description :: string
  inputSchema :: jsval

record MCPToolCall =
  call_name :: string
  arguments :: jsval

text \<open>
  \<^verbatim>\<open>MCPToolResult\<close>: every field but \<^verbatim>\<open>success\<close> is optional; an absent field
  reads as \<^verbatim>\<open>undefined\<close>. At run time the payload fields hold whatever the server
  sent, so they are \<open>jsval\<close>.
\<close>

record MCPToolResult =
  success :: bool
  data :: jsval
  error :: jsval
  imageData :: jsval
  toolName :: jsval
  content :: jsval

definition toolResult :: "bool \<Rightarrow> MCPToolResult" where
  "toolResult ok = \<lparr> success = ok, data = JUndefined, error = JUndefined,
                      imageData = JUndefined, toolName = JUndefined, content = JUndefined \<rparr>"

text \<open>
  A payload field is populated when it holds a truthy value, the test the orchestrator
  applies to it (\<^verbatim>\<open>result.imageData\<close>, \<^verbatim>\<open>r.content || 'application'\<close>): an absent
  field, \<^verbatim>\<open>null\<close>, the empty string, \<^verbatim>\<open>0\<close> and \<^verbatim>\<open>false\<close> are no payload.
\<close>

definition populated :: "jsval \<Rightarrow> bool" where
  "populated v = truthy v"

section \<open>Text received from the subprocess\<close>

text \<open>
  \<^verbatim>\<open>data.toString()\<close> on a \<^verbatim>\<open>Buffer\<close> decodes the bytes of that one chunk as
  UTF-8. Every maximal ill-formed part, and a sequence cut off by the end of the chunk,
  becomes U+FFFD (the decoder of the WHATWG Encoding standard, which V8 follows). The
  model keeps text as UTF-8 bytes, so decoding copies the well-formed sequences and
  writes \<open>EF BF BD\<close> in place of the ill-formed parts.
\<close>

datatype leadClass = Ascii | Lead nat nat nat | Invalid

text \<open>
  The class of a byte that starts a character: \<open>Lead n lo hi\<close> needs \<open>n\<close> more
  bytes, the first of them in the range \<open>lo..hi\<close>.
\<close>

definition classify :: "char \<Rightarrow> leadClass" where
  "classify c =
     (let b = (of_char c :: nat) in
      if b < 0x80 then Ascii
      else if 0xC2 \<le> b \<and> b \<le> 0xDF then Lead 1 0x80 0xBF
      else if b = 0xE0 then Lead 2 0xA0 0xBF
      else if b = 0xED then Lead 2 0x80 0x9F
      else if 0xE1 \<le> b \<and> b \<le> 0xEF then Lead 2 0x80 0xBF
      else if b = 0xF0 then Lead 3 0x90 0xBF
      else if b = 0xF4 then Lead 3 0x80 0x8F
      else if 0xF1 \<le> b \<and> b \<le> 0xF3 then Lead 3 0x80 0xBF
      else Invalid)"

definition replacementChar :: string where
  "replacementChar = [CHR 0xEF, CHR 0xBF, CHR 0xBD]"

text \<open>
  The decoder state is \<open>None\<close> between characters and \<open>Some (n, lo, hi, seen)\<close>
  inside one: \<open>n\<close> bytes still needed, the next in \<open>lo..hi\<close>, \<open>seen\<close> the bytes
  read so far. A byte out of range ends the character with U+FFFD and is read again as
  the start of the next one.
\<close>

fun utf8Decode :: "(nat \<times> nat \<times> nat \<times> string) option \<Rightarrow> string \<Rightarrow> string" where
  "utf8Decode None [] = []"
| "utf8Decode (Some st) [] = replacementChar"
| "utf8Decode None (c # cs) =
     (case classify c of
        Ascii \<Rightarrow> c # utf8Decode None cs
      | Lead n lo hi \<Rightarrow> utf8Decode (Some (n, lo, hi, [c])) cs
      | Invalid \<Rightarrow> replacementChar @ utf8Decode None cs)"
| "utf8Decode (Some (n, lo, hi, seen)) (c # cs) =
     (if lo \<le> (of_char c :: nat) \<and> (of_char c :: nat) \<le> hi
      then (if n \<le> 1 then seen @ [c] @ utf8Decode None cs
            else utf8Decode (Some (n - 1, 0x80, 0xBF, seen @ [c])) cs)
      else replacementChar @
           (case classify c of
              Ascii \<Rightarrow> c # utf8Decode None cs
            | Lead n' lo' hi' \<Rightarrow> utf8Decode (Some (n', lo', hi', [c])) cs
            | Invalid \<Rightarrow> replacementChar @ utf8Decode None cs))"

definition toString :: "string \<Rightarrow> string" where
  "toString bytes = utf8Decode None bytes"

text \<open>
  \<^verbatim>\<open>buffer.split('\n')\<close>: the pieces between the newlines; a string with \<open>k\<close>
  newlines has \<open>k + 1\<close> pieces, the last one being what follows the last newline.
\<close>

fun splitLines :: "string \<Rightarrow> string list" where
  "splitLines [] = [[]]"
| "splitLines (c # cs) =
     (if c = CHR 0x0A then [] # splitLines cs
      else (case splitLines cs of [] \<Rightarrow> [[c]] | l # ls \<Rightarrow> (c # l) # ls))"

text \<open>
  \<^verbatim>\<open>String.prototype.trim\<close> removes white space and line terminators from both
  ends: U+0009..U+000D, U+0020, U+00A0, U+1680, U+2000..U+200A, U+2028, U+2029, U+202F,
  U+205F, U+3000 and U+FEFF, here in UTF-8.
\<close>

definition jsWhitespace :: "string list" where
  "jsWhitespace =
     [[CHR 0x09], [CHR 0x0A], [CHR 0x0B], [CHR 0x0C], [CHR 0x0D], [CHR 0x20],
      [CHR 0xC2, CHR 0xA0],
      [CHR 0xE1, CHR 0x9A, CHR 0x80],
      [CHR 0xE2, CHR 0x80, CHR 0x80], [CHR 0xE2, CHR 0x80, CHR 0x81],
      [CHR 0xE2, CHR 0x80, CHR 0x82], [CHR 0xE2, CHR 0x80, CHR 0x83],
      [CHR 0xE2, CHR 0x80, CHR 0x84], [CHR 0xE2, CHR 0x80, CHR 0x85],
      [CHR 0xE2, CHR 0x80, CHR 0x86], [CHR 0xE2, CHR 0x80, CHR 0x87],
      [CHR 0xE2, CHR 0x80, CHR 0x88], [CHR 0xE2, CHR 0x80, CHR 0x89],
      [CHR 0xE2, CHR 0x80, CHR 0x8A],
      [CHR 0xE2, CHR 0x80, CHR 0xA8], [CHR 0xE2, CHR 0x80, CHR 0xA9],
      [CHR 0xE2, CHR 0x80, CHR 0xAF],
      [CHR 0xE2, CHR 0x81, CHR 0x9F],
      [CHR 0xE3, CHR 0x80, CHR 0x80],
      [CHR 0xEF, CHR 0xBB, CHR 0xBF]]"

definition leadingWhitespace :: "string \<Rightarrow> nat" where
  "leadingWhitespace s =
     (case find (\<lambda>w. take (length w) s = w) jsWhitespace of
        None \<Rightarrow> 0 | Some w \<Rightarrow> length w)"

definition trailingWhitespace :: "string \<Rightarrow> nat" where
  "trailingWhitespace s =
     (case find (\<lambda>w. length w \<le> length s \<and> drop (length s - length w) s = w) jsWhitespace of
        None \<Rightarrow> 0 | Some w \<Rightarrow> length w)"

function trimStart :: "string \<Rightarrow> string" where
  "trimStart s = (if leadingWhitespace s = 0 then s else trimStart (drop (leadingWhitespace s) s))"
  by pat_completeness auto
termination
proof (relation "measure length")
  show "wf (measure length)" by simp
next
  fix s :: string
  assume n: "leadingWhitespace s \<noteq> 0"
  then obtain w where w: "find (\<lambda>w. take (length w) s = w) jsWhitespace = Some w"
    and lw: "leadingWhitespace s = length w"
    by (auto simp: leadingWhitespace_def split: option.splits)
  from w have "take (length w) s = w"
    by (auto simp: find_Some_iff)
  then have "length (take (length w) s) = length w"
    by simp
  then have "length w \<le> length s"
    by simp
  with n lw show "(drop (leadingWhitespace s) s, s) \<in> measure length"
    by (cases w) auto
qed

function trimEnd :: "string \<Rightarrow> string" where
  "trimEnd s = (if trailingWhitespace s = 0 then s
                else trimEnd (take (length s - trailingWhitespace s) s))"
  by pat_completeness auto
termination
proof (relation "measure length")
  show "wf (measure length)" by simp
next
  fix s :: string
  assume n: "trailingWhitespace s \<noteq> 0"
  then obtain w where
    w: "find (\<lambda>w. length w \<le> length s \<and> drop (length s - length w) s = w) jsWhitespace = Some w"
    and lw: "trailingWhitespace s = length w"
    by (auto simp: trailingWhitespace_def split: option.splits)
  from w have "length w \<le> length s"
    by (auto simp: find_Some_iff)
  with n lw show "(take (length s - trailingWhitespace s) s, s) \<in> measure length"
    by (cases w) auto
qed

definition trim :: "string \<Rightarrow> string" where
  "trim s = trimEnd (trimStart s)"

section \<open>Protocol Client (mcpClient.ts)\<close>

text \<open>
  A promise created by \<^verbatim>\<open>waitForResponse\<close> and the timer armed with it are named
  by one handle. A promise settles once: \<open>promises\<close> keeps the first outcome of each
  handle. \<open>timers\<close> are the armed timers \<open>(handle, deadline, requestId)\<close> in the
  order they were armed; the callback of a timer closes over its request id.
  \<open>clock\<close> is the time in milliseconds. \<open>stdinWritten\<close> lists the request
  objects written to the subprocess, each as one \<^verbatim>\<open>JSON.stringify(request) + '\n'\<close>.
  \<open>pendingRequests\<close> is the \<^verbatim>\<open>Map\<close> from request id to its entry, in insertion
  order.
\<close>

datatype outcome = Resolved jsval | Rejected exn

record MCPClient =
  mcpProcess :: "nat option"
  connected :: bool
  tools :: "MCPTool list"
  responseBuffer :: string
  pendingRequests :: "(rat \<times> nat) list"
  timers :: "(nat \<times> nat \<times> rat) list"
  promises :: "nat \<rightharpoonup> outcome"
  nextHandle :: nat
  clock :: nat
  stdinWritten :: "jsval list"

definition newClient :: "nat \<Rightarrow> MCPClient" where
  "newClient now =
     \<lparr> mcpProcess = None, connected = False, tools = [], responseBuffer = [],
       pendingRequests = [], timers = [], promises = Map.empty, nextHandle = 0,
       clock = now, stdinWritten = [] \<rparr>"

definition settle :: "nat \<Rightarrow> outcome \<Rightarrow> MCPClient \<Rightarrow> MCPClient" where
  "settle h out s =
     (case promises s h of
        None \<Rightarrow> s\<lparr> promises := (promises s)(h \<mapsto> out) \<rparr>
      | Some _ \<Rightarrow> s)"

definition clearTimeout :: "nat \<Rightarrow> MCPClient \<Rightarrow> MCPClient" where
  "clearTimeout h s = s\<lparr> timers := filter (\<lambda>t. fst t \<noteq> h) (timers s) \<rparr>"

text \<open>
  \<^verbatim>\<open>Map.get\<close> and \<^verbatim>\<open>Map.delete\<close> with a key of any type: the keys stored are
  numbers, and only a number equals a number.
\<close>

fun pendingGet :: "(rat \<times> nat) list \<Rightarrow> jsval \<Rightarrow> nat option" where
  "pendingGet pend (JNum n) = map_of pend n"
| "pendingGet pend v = None"

fun pendingDelete :: "jsval \<Rightarrow> (rat \<times> nat) list \<Rightarrow> (rat \<times> nat) list" where
  "pendingDelete (JNum n) pend = AList.delete n pend"
| "pendingDelete v pend = pend"

text \<open>
  \<^verbatim>\<open>handleResponse\<close>: if \<^verbatim>\<open>response.id\<close> is truthy and a pending request has
  that id, delete the entry, clear its timer and resolve its promise with the response.
  Reading \<^verbatim>\<open>id\<close> of \<^verbatim>\<open>null\<close> throws.
\<close>

definition handleResponse :: "jsval \<Rightarrow> MCPClient \<Rightarrow> exn + MCPClient" where
  "handleResponse response s =
     andThen (getProp response ''id'') (\<lambda>rid.
       case (if truthy rid then pendingGet (pendingRequests s) rid else None) of
         None \<Rightarrow> Inr s
       | Some h \<Rightarrow>
           Inr (settle h (Resolved response)
                 (clearTimeout h
                   (s\<lparr> pendingRequests := pendingDelete rid (pendingRequests s) \<rparr>))))"

text \<open>
  The \<^verbatim>\<open>try { ... this.handleResponse(response) } catch\<close> of the output handler, for
  one parsed response: a throw is logged and the state stays as it was.
\<close>

definition dispatch :: "jsval \<Rightarrow> MCPClient \<Rightarrow> MCPClient" where
  "dispatch response s = (case handleResponse response s of Inl e \<Rightarrow> s | Inr s' \<Rightarrow> s')"

text \<open>
  \<^verbatim>\<open>handleProcessOutput\<close>. \<open>parse\<close> stands for \<^verbatim>\<open>JSON.parse\<close>: \<open>None\<close> is
  a SyntaxError, which the handler logs and drops.
\<close>

definition processLine :: "(string \<Rightarrow> jsval option) \<Rightarrow> string \<Rightarrow> MCPClient \<Rightarrow> MCPClient" where
  "processLine parse line s =
     (if trim line \<noteq> []
      then (case parse (trim line) of None \<Rightarrow> s | Some response \<Rightarrow> dispatch response s)
      else s)"

definition handleProcessOutput ::
  "(string \<Rightarrow> jsval option) \<Rightarrow> string \<Rightarrow> MCPClient \<Rightarrow> MCPClient" where
  "handleProcessOutput parse bytes s =
     (let pieces = splitLines (responseBuffer s @ toString bytes)
      in foldl (\<lambda>s' line. processLine parse line s')
               (s\<lparr> responseBuffer := last pieces \<rparr>)
               (butlast pieces))"

text \<open>
  The handler on a chunk that is already decoded, and the handler fed a list of chunks
  one \<^verbatim>\<open>data\<close> event after the other.
\<close>

definition receiveText :: "(string \<Rightarrow> jsval option) \<Rightarrow> string \<Rightarrow> MCPClient \<Rightarrow> MCPClient" where
  "receiveText parse txt s =
     (let pieces = splitLines (responseBuffer s @ txt)
      in foldl (\<lambda>s' line. processLine parse line s')
               (s\<lparr> responseBuffer := last pieces \<rparr>)
               (butlast pieces))"

definition feedChunks :: "(string \<Rightarrow> jsval option) \<Rightarrow> string list \<Rightarrow> MCPClient \<Rightarrow> MCPClient" where
  "feedChunks parse chunks s = foldl (\<lambda>s' bytes. handleProcessOutput parse bytes s') s chunks"

text \<open>\<^verbatim>\<open>rejectPendingRequests\<close>: every entry in map order, then \<^verbatim>\<open>clear()\<close>.\<close>

definition rejectPendingRequests :: "exn \<Rightarrow> MCPClient \<Rightarrow> MCPClient" where
  "rejectPendingRequests err s =
     (foldl (\<lambda>s' entry. settle (snd entry) (Rejected err) (clearTimeout (snd entry) s'))
            s (pendingRequests s))
       \<lparr> pendingRequests := [] \<rparr>"

text \<open>
  \<^verbatim>\<open>waitForResponse\<close>: a new promise, a timer of 45000 ms, and
  \<^verbatim>\<open>pendingRequests.set(requestId, ...)\<close>, which replaces the entry of an id that is
  already pending.
\<close>

definition waitForResponse :: "rat \<Rightarrow> MCPClient \<Rightarrow> nat \<times> MCPClient" where
  "waitForResponse requestId s =
     (let h = nextHandle s
      in (h, s\<lparr> timers := timers s @ [(h, clock s + 45000, requestId)],
                pendingRequests := AList.update requestId h (pendingRequests s),
                nextHandle := Suc h \<rparr>))"

text \<open>The timer's callback: delete the entry of the request id, reject with a timeout.\<close>

definition timeoutCallback :: "nat \<Rightarrow> rat \<Rightarrow> MCPClient \<Rightarrow> MCPClient" where
  "timeoutCallback h requestId s =
     settle h (Rejected (Error ''MCP request timeout''))
       (s\<lparr> pendingRequests := AList.delete requestId (pendingRequests s) \<rparr>)"

text \<open>
  \<open>d\<close> milliseconds pass with no other event: the timers whose deadline is reached
  fire, in the order they were armed (all have the same delay).
\<close>

definition elapse :: "nat \<Rightarrow> MCPClient \<Rightarrow> MCPClient" where
  "elapse d s =
     (let now = clock s + d;
          due = filter (\<lambda>t. fst (snd t) \<le> now) (timers s)
      in foldl (\<lambda>s' t. timeoutCallback (fst t) (snd (snd t)) s')
               (s\<lparr> clock := now, timers := filter (\<lambda>t. \<not> fst (snd t) \<le> now) (timers s) \<rparr>)
               due)"

text \<open>Decimal text of a number, for \<^verbatim>\<open>${code}\<close> in a template string.\<close>

function showNat :: "nat \<Rightarrow> string" where
  "showNat n = (if n < 10 then [''0123456789'' ! n]
                else showNat (n div 10) @ [''0123456789'' ! (n mod 10)])"
  by pat_completeness auto
termination
  by (relation "measure id") auto

definition showInt :: "int \<Rightarrow> string" where
  "showInt i = (if i < 0 then ''-'' @ showNat (nat (- i)) else showNat (nat i))"

text \<open>The exit code is \<^verbatim>\<open>null\<close> when a signal ended the process.\<close>

definition showCode :: "int option \<Rightarrow> string" where
  "showCode code = (case code of None \<Rightarrow> ''null'' | Some i \<Rightarrow> showInt i)"

text \<open>The handlers \<^verbatim>\<open>connect\<close> registers for the process events.\<close>

definition onError :: "exn \<Rightarrow> MCPClient \<Rightarrow> MCPClient" where
  "onError err s = rejectPendingRequests err (s\<lparr> connected := False \<rparr>)"

definition onExit :: "int option \<Rightarrow> MCPClient \<Rightarrow> MCPClient" where
  "onExit code s =
     rejectPendingRequests (Error (''MCP process exited with code '' @ showCode code))
       (s\<lparr> connected := False \<rparr>)"

definition disconnect :: "MCPClient \<Rightarrow> MCPClient" where
  "disconnect s =
     rejectPendingRequests (Error ''MCP client disconnected'')
       (s\<lparr> mcpProcess := None, connected := False \<rparr>)"

subsection \<open>The tool catalogue set by loadTools\<close>

definition schemaProp :: "string \<Rightarrow> string \<Rightarrow> (string \<times> jsval) list \<Rightarrow> jsval" where
  "schemaProp ty desc extra = JObj ([(''type'', JStr ty), (''description'', JStr desc)] @ extra)"

definition objectSchema :: "(string \<times> jsval) list \<Rightarrow> string list \<Rightarrow> jsval" where
  "objectSchema props required =
     JObj [(''type'', JStr ''object''), (''properties'', JObj props),
           (''required'', JArr (map JStr required))]"

definition sourceWidth :: "string \<times> jsval" where
  "sourceWidth = (''source_width'',
     schemaProp ''integer'' ''Source screen width for coordinate scaling'' [(''default'', JNum 1366)])"

definition sourceHeight :: "string \<times> jsval" where
  "sourceHeight = (''source_height'',
     schemaProp ''integer'' ''Source screen height for coordinate scaling'' [(''default'', JNum 768)])"

definition builtinTools :: "MCPTool list" where
  "builtinTools =
   [\<lparr> name = ''remote_macos_get_screen'',
      description = ''Take a screenshot of the remote macOS desktop to see what'' @ [CHR 0x27] @ ''s currently displayed'',
      inputSchema = objectSchema [] [] \<rparr>,
    \<lparr> name = ''remote_macos_mouse_click'',
      description = ''Click at specified coordinates on the remote macOS screen'',
      inputSchema = objectSchema
        [(''x'', schemaProp ''integer'' ''X coordinate to click'' []),
         (''y'', schemaProp ''integer'' ''Y coordinate to click'' []),
         sourceWidth, sourceHeight,
         (''button'', schemaProp ''integer'' ''Mouse button: 1=left, 2=middle, 3=right'' [(''default'', JNum 1)])]
        [''x'', ''y''] \<rparr>,
    \<lparr> name = ''remote_macos_mouse_double_click'',
      description = ''Double-click at specified coordinates on the remote macOS screen'',
      inputSchema = objectSchema
        [(''x'', schemaProp ''integer'' ''X coordinate to double-click'' []),
         (''y'', schemaProp ''integer'' ''Y coordinate to double-click'' []),
         sourceWidth, sourceHeight]
        [''x'', ''y''] \<rparr>,
    \<lparr> name = ''remote_macos_mouse_move'',
      description = ''Move the mouse cursor to specified coordinates'',
      inputSchema = objectSchema
        [(''x'', schemaProp ''integer'' ''X coordinate to move to'' []),
         (''y'', schemaProp ''integer'' ''Y coordinate to move to'' []),
         sourceWidth, sourceHeight]
        [''x'', ''y''] \<rparr>,
    \<lparr> name = ''remote_macos_mouse_scroll'',
      description = ''Scroll at specified coordinates in a given direction'',
      inputSchema = objectSchema
        [(''x'', schemaProp ''integer'' ''X coordinate to scroll at'' []),
         (''y'', schemaProp ''integer'' ''Y coordinate to scroll at'' []),
         (''direction'', schemaProp ''string'' ''Scroll direction: up, down, left, right''
            [(''enum'', JArr (map JStr [''up'', ''down'', ''left'', ''right'']))]),
         (''clicks'', schemaProp ''integer'' ''Number of scroll clicks'' [(''default'', JNum 3)])]
        [''x'', ''y'', ''direction''] \<rparr>,
    \<lparr> name = ''remote_macos_mouse_drag_n_drop'',
      description = ''Drag from one location to another (drag and drop operation)'',
      inputSchema = objectSchema
        [(''start_x'', schemaProp ''integer'' ''Starting X coordinate'' []),
         (''start_y'', schemaProp ''integer'' ''Starting Y coordinate'' []),
         (''end_x'', schemaProp ''integer'' ''Ending X coordinate'' []),
         (''end_y'', schemaProp ''integer'' ''Ending Y coordinate'' []),
         sourceWidth, sourceHeight]
        [''start_x'', ''start_y'', ''end_x'', ''end_y''] \<rparr>,
    \<lparr> name = ''remote_macos_send_keys'',
      description = ''Send keyboard input to the remote macOS system - can type text, special keys, or key combinations'',
      inputSchema = objectSchema
        [(''text'', schemaProp ''string'' ''Text to type (use this for regular text input)'' []),
         (''special_key'', schemaProp ''string'' ''Special key to press''
            [(''enum'', JArr (map JStr
               [''enter'', ''return'', ''backspace'', ''delete'', ''tab'', ''space'', ''escape'',
                ''esc'', ''up'', ''down'', ''left'', ''right'', ''home'', ''end'', ''page_up'',
                ''page_down'', ''f1'', ''f2'', ''f3'', ''f4'', ''f5'', ''f6'', ''f7'', ''f8'',
                ''f9'', ''f10'', ''f11'', ''f12'']))]),
         (''key_combination'', schemaProp ''string''
            ''Key combination like cmd+c, cmd+v, cmd+shift+4, ctrl+alt+delete, etc.''
            [(''examples'', JArr (map JStr
               [''cmd+c'', ''cmd+v'', ''cmd+a'', ''cmd+z'', ''cmd+shift+4'', ''cmd+space'',
                ''cmd+tab'', ''ctrl+alt+delete'']))])]
        [] \<rparr>,
    \<lparr> name = ''remote_macos_open_application'',
      description = ''Open or activate an application on the remote macOS system'',
      inputSchema = objectSchema
        [(''application_name'', schemaProp ''string''
            ''Name of the application to open (e.g., Safari, Chrome, Terminal, Finder, etc.)''
            [(''examples'', JArr (map JStr
               [''Safari'', ''Google Chrome'', ''Terminal'', ''Finder'', ''System Preferences'',
                ''TextEdit'', ''Calculator'']))])]
        [''application_name''] \<rparr>]"

text \<open>
  \<^verbatim>\<open>loadTools\<close> assigns the literal above to \<^verbatim>\<open>this.tools\<close>; it writes nothing
  to the subprocess and waits for nothing.
\<close>

definition loadTools :: "MCPClient \<Rightarrow> MCPClient" where
  "loadTools s = s\<lparr> tools := builtinTools \<rparr>"

definition listTools :: "MCPClient \<Rightarrow> MCPTool list" where
  "listTools s = tools s"

definition isConnected :: "MCPClient \<Rightarrow> bool" where
  "isConnected s = connected s"

text \<open>
  \<^verbatim>\<open>connect\<close> in three steps: \<open>spawnProcess\<close> starts the subprocess (named
  \<open>pid\<close>) and registers the handlers; 3000 ms pass; \<open>connectReady\<close> runs
  \<^verbatim>\<open>loadTools\<close> and sets \<^verbatim>\<open>connected\<close>. \<open>connect\<close> is the call with no other
  event during the delay.
\<close>

definition spawnProcess :: "nat \<Rightarrow> MCPClient \<Rightarrow> MCPClient" where
  "spawnProcess pid s = s\<lparr> mcpProcess := Some pid \<rparr>"

definition connectReady :: "MCPClient \<Rightarrow> MCPClient" where
  "connectReady s = (loadTools s)\<lparr> connected := True \<rparr>"

definition connect :: "nat \<Rightarrow> MCPClient \<Rightarrow> MCPClient" where
  "connect pid s = connectReady (elapse 3000 (spawnProcess pid s))"

subsection \<open>callTool\<close>

text \<open>
  \<^verbatim>\<open>callTool\<close> runs up to its \<^verbatim>\<open>await\<close> (\<open>callToolSend\<close>) and, once the awaited
  promise has settled, from there to its \<^verbatim>\<open>return\<close> (\<open>callToolResult\<close>). The request
  id \<^verbatim>\<open>Date.now() + Math.random()\<close> and whether \<^verbatim>\<open>stdin\<close> is writable come from
  outside. The connection check stands before the \<^verbatim>\<open>try\<close>, so its error leaves
  \<^verbatim>\<open>callTool\<close> as a rejection.
\<close>

datatype callStatus = Throws exn | Returns MCPToolResult | Awaits nat

definition toolsCallRequest :: "string \<Rightarrow> jsval \<Rightarrow> rat \<Rightarrow> jsval" where
  "toolsCallRequest toolname args requestId =
     JObj [(''jsonrpc'', JStr ''2.0''), (''id'', JNum requestId), (''method'', JStr ''tools/call''),
           (''params'', JObj [(''name'', JStr toolname), (''arguments'', args)])]"

text \<open>The result built by the \<^verbatim>\<open>catch\<close> of \<^verbatim>\<open>callTool\<close>.\<close>

definition caughtResult :: "string \<Rightarrow> exn \<Rightarrow> MCPToolResult" where
  "caughtResult toolname e =
     (toolResult False)\<lparr> error := JStr (errorMessage e), toolName := JStr toolname \<rparr>"

definition callToolSend ::
  "bool \<Rightarrow> string \<Rightarrow> jsval \<Rightarrow> rat \<Rightarrow> MCPClient \<Rightarrow> callStatus \<times> MCPClient" where
  "callToolSend stdinWritable toolname args requestId s =
     (if \<not> connected s \<or> mcpProcess s = None
      then (Throws (Error ''MCP client not connected''), s)
      else if \<not> stdinWritable
      then (Returns (caughtResult toolname (Error ''MCP process stdin not writable'')), s)
      else (let s1 = s\<lparr> stdinWritten := stdinWritten s @ [toolsCallRequest toolname args requestId] \<rparr>;
                (h, s2) = waitForResponse requestId s1
            in (Awaits h, s2)))"

text \<open>The statements of the \<^verbatim>\<open>try\<close> block after the \<^verbatim>\<open>await\<close>.\<close>

definition translateResponse :: "string \<Rightarrow> jsval \<Rightarrow> exn + MCPToolResult" where
  "translateResponse toolname response =
     andThen (getProp response ''error'') (\<lambda>err.
       if truthy err
       then andThen (getProp err ''message'') (\<lambda>m.
              Inr ((toolResult False)\<lparr> error := jsOr m (JStr ''Unknown MCP error''),
                                        toolName := JStr toolname \<rparr>))
       else andThen (getProp response ''result'') (\<lambda>result.
         andThen (if truthy result then getProp result ''content'' else Inr result) (\<lambda>guard.
           if truthy guard
           then andThen (getProp result ''content'') (\<lambda>contents.
                andThen (getIndex0 contents) (\<lambda>first.
                andThen (getProp first ''type'') (\<lambda>ty.
                  if ty = JStr ''image''
                  then andThen (getProp first ''data'') (\<lambda>d.
                         Inr ((toolResult True)\<lparr> data := result, imageData := d,
                                                  toolName := JStr toolname \<rparr>))
                  else andThen (getProp first ''text'') (\<lambda>t.
                       andThen (if truthy t then Inr t else getProp first ''data'') (\<lambda>td.
                         Inr ((toolResult True)\<lparr> data := result,
                                content := jsOr td (JStr ''Tool executed successfully''),
                                toolName := JStr toolname \<rparr>))))))
           else Inr ((toolResult True)\<lparr> data := result,
                       content := JStr ''Tool executed successfully'',
                       toolName := JStr toolname \<rparr>))))"

definition callToolResult :: "string \<Rightarrow> outcome \<Rightarrow> MCPToolResult" where
  "callToolResult toolname out =
     (case out of
        Rejected e \<Rightarrow> caughtResult toolname e
      | Resolved response \<Rightarrow>
          (case translateResponse toolname response of
             Inl e \<Rightarrow> caughtResult toolname e
           | Inr r \<Rightarrow> r))"

subsection \<open>Events of a client's life\<close>

text \<open>
  What can happen to a client, one event at a time: \<^verbatim>\<open>connect\<close> starts the
  subprocess, \<^verbatim>\<open>connect\<close> completes, a parsed line reaches the response handler, the
  process emits \<^verbatim>\<open>error\<close> or \<^verbatim>\<open>exit\<close>, time passes, a caller invokes
  \<^verbatim>\<open>callTool\<close>, \<^verbatim>\<open>disconnect\<close> is called.
\<close>

datatype event =
    Spawn nat
  | Ready
  | Response jsval
  | ProcessError exn
  | ProcessExit "int option"
  | Elapse nat
  | CallTool bool string jsval rat
  | Disconnect

fun step :: "MCPClient \<Rightarrow> event \<Rightarrow> MCPClient" where
  "step s (Spawn pid) = spawnProcess pid s"
| "step s Ready = connectReady s"
| "step s (Response r) = dispatch r s"
| "step s (ProcessError e) = onError e s"
| "step s (ProcessExit code) = onExit code s"
| "step s (Elapse d) = elapse d s"
| "step s (CallTool w toolname args rid) = snd (callToolSend w toolname args rid s)"
| "step s Disconnect = disconnect s"

definition run :: "event list \<Rightarrow> MCPClient \<Rightarrow> MCPClient" where
  "run evs s = foldl step s evs"

text \<open>The time that passes during a list of events.\<close>

fun elapsed :: "event list \<Rightarrow> nat" where
  "elapsed [] = 0"
| "elapsed (Elapse d # es) = d + elapsed es"
| "elapsed (e # es) = elapsed es"

text \<open>
  An event that leaves the request with id \<open>rid\<close> waiting: it is not a response
  with that id, not the end of the process or of the connection, and not another call
  that takes the same id.
\<close>

fun quietFor :: "rat \<Rightarrow> event \<Rightarrow> bool" where
  "quietFor rid (Response r) = (getProp r ''id'' \<noteq> Inr (JNum rid))"
| "quietFor rid (ProcessError e) = False"
| "quietFor rid (ProcessExit code) = False"
| "quietFor rid Disconnect = False"
| "quietFor rid (CallTool w toolname args rid') = (rid' \<noteq> rid)"
| "quietFor rid e = True"


text \<open>
  The bookkeeping the client keeps consistent: every pending entry has its armed timer
  with the same request id; an armed timer belongs to an unsettled promise, was handed
  out already and is not yet due; handles and map keys are not repeated; a handle not
  yet handed out has no outcome.
\<close>

definition consistent :: "MCPClient \<Rightarrow> bool" where
  "consistent s \<longleftrightarrow>
     (\<forall>r h. (r, h) \<in> set (pendingRequests s) \<longrightarrow> (\<exists>d. (h, d, r) \<in> set (timers s))) \<and>
     (\<forall>h d r. (h, d, r) \<in> set (timers s) \<longrightarrow>
        promises s h = None \<and> h < nextHandle s \<and> clock s < d) \<and>
     distinct (map fst (timers s)) \<and>
     distinct (map fst (pendingRequests s)) \<and>
     (\<forall>h. nextHandle s \<le> h \<longrightarrow> promises s h = None)"

text \<open>
  Two states of one call: \<open>waiting\<close>, with its timer armed for the deadline \<open>dl\<close>,
  its entry in the map and no other armed timer for its id; and \<open>timedOut\<close>, rejected
  by its timer and gone from the map.
\<close>

definition waiting :: "nat \<Rightarrow> nat \<Rightarrow> rat \<Rightarrow> MCPClient \<Rightarrow> bool" where
  "waiting h dl rid s \<longleftrightarrow>
     consistent s \<and> (h, dl, rid) \<in> set (timers s) \<and>
     map_of (pendingRequests s) rid = Some h \<and>
     (\<forall>t \<in> set (timers s). snd (snd t) = rid \<longrightarrow> fst t = h)"

definition timedOut :: "nat \<Rightarrow> rat \<Rightarrow> MCPClient \<Rightarrow> bool" where
  "timedOut h rid s \<longleftrightarrow>
     consistent s \<and> promises s h = Some (Rejected (Error ''MCP request timeout'')) \<and>
     map_of (pendingRequests s) rid = None"


section \<open>In-process local client (localMacOSClient.ts)\<close>

text \<open>
  What the operating system answers to the steps of \<^verbatim>\<open>takeScreenshot\<close>: the
  \<^verbatim>\<open>screencapture\<close> command (a rejection, or none), reading the file (a throw, or
  its bytes), deleting it, and the \<^verbatim>\<open>system_profiler ... | grep Resolution\<close> command
  (a rejection, or its standard output).
\<close>

record screenshotEnv =
  screencapture :: "exn option"
  readFile :: "exn + string"
  unlink :: "exn option"
  profiler :: "exn + string"

text \<open>\<^verbatim>\<open>imageData.toString('base64')\<close>\<close>

definition base64Digit :: "nat \<Rightarrow> char" where
  "base64Digit n = ''ABCDEFGHIJKLMNOPQRSTUVWXYZabcdefghijklmnopqrstuvwxyz0123456789+/'' ! n"

fun base64 :: "string \<Rightarrow> string" where
  "base64 [] = []"
| "base64 [a] =
     (let x = (of_char a :: nat)
      in [base64Digit (x div 4), base64Digit ((x mod 4) * 16), CHR ''='', CHR ''=''])"
| "base64 [a, b] =
     (let x = (of_char a :: nat); y = (of_char b :: nat)
      in [base64Digit (x div 4), base64Digit ((x mod 4) * 16 + y div 16),
          base64Digit ((y mod 16) * 4), CHR ''=''])"
| "base64 (a # b # c # rest) =
     (let x = (of_char a :: nat); y = (of_char b :: nat); z = (of_char c :: nat)
      in [base64Digit (x div 4), base64Digit ((x mod 4) * 16 + y div 16),
          base64Digit ((y mod 16) * 4 + z div 64), base64Digit (z mod 64)] @ base64 rest)"

text \<open>
  \<^verbatim>\<open>stdout.match(/(\d+) x (\d+)/)\<close>: the leftmost place where a run of decimal
  digits is followed by \<open>" x "\<close> and another digit. Both groups are greedy, so the
  first is the whole run from that place and the second the whole run after \<open>" x "\<close>.
\<close>

definition isDigit :: "char \<Rightarrow> bool" where
  "isDigit c = (48 \<le> (of_char c :: nat) \<and> (of_char c :: nat) \<le> 57)"

definition matchHere :: "string \<Rightarrow> (string \<times> string) option" where
  "matchHere s =
     (let d1 = takeWhile isDigit s; rest = dropWhile isDigit s
      in if d1 = [] then None
         else if take 3 rest = '' x ''
         then (let d2 = takeWhile isDigit (drop 3 rest)
               in if d2 = [] then None else Some (d1, d2))
         else None)"

fun resolutionMatch :: "string \<Rightarrow> (string \<times> string) option" where
  "resolutionMatch [] = None"
| "resolutionMatch (c # cs) =
     (case matchHere (c # cs) of Some m \<Rightarrow> Some m | None \<Rightarrow> resolutionMatch cs)"

text \<open>
  \<^verbatim>\<open>takeScreenshot\<close>. \<open>numberText d\<close> stands for the text that
  \<^verbatim>\<open>${parseInt(d)}\<close> gives for a string \<open>d\<close> of decimal digits. Any throw inside
  is rethrown as \<^verbatim>\<open>Error('Failed to take screenshot: ...')\<close>.
\<close>

definition takeScreenshot :: "(string \<Rightarrow> string) \<Rightarrow> screenshotEnv \<Rightarrow> exn + MCPToolResult" where
  "takeScreenshot numberText env =
     (case
        andThen (case screencapture env of Some e \<Rightarrow> Inl e | None \<Rightarrow> Inr ()) (\<lambda>u.
        andThen (readFile env) (\<lambda>image.
        andThen (case unlink env of Some e \<Rightarrow> Inl e | None \<Rightarrow> Inr ()) (\<lambda>u.
        andThen (profiler env) (\<lambda>stdout.
          let base64Data = base64 image;
              resolution = resolutionMatch stdout;
              width = (case resolution of Some m \<Rightarrow> numberText (fst m) | None \<Rightarrow> ''1920'');
              height = (case resolution of Some m \<Rightarrow> numberText (snd m) | None \<Rightarrow> ''1080'')
          in Inr ((toolResult True)
                    \<lparr> imageData := JStr base64Data,
                      content := JStr (''Screenshot taken successfully. Screen resolution: ''
                                        @ width @ ''x'' @ height) \<rparr>)))))
      of Inl e \<Rightarrow> Inl (Error (''Failed to take screenshot: '' @ errorMessage e))
       | Inr r \<Rightarrow> Inr r)"

text \<open>
  The other tools. What the operating system answers to their commands: the resolution
  query of the click (a rejection, or its standard output), and for \<^verbatim>\<open>cliclick\<close>, the
  AppleScript click, the AppleScript keystroke and \<^verbatim>\<open>open -a\<close> a rejection, or none.
\<close>

record actionEnv =
  clickProfiler :: "exn + string"
  cliclick :: "exn option"
  clickScript :: "exn option"
  keystroke :: "exn option"
  openCommand :: "exn option"

text \<open>
  \<^verbatim>\<open>const { k, ... } = args\<close> throws a TypeError on \<^verbatim>\<open>undefined\<close> and \<^verbatim>\<open>null\<close>
  (the message is V8's, naming the first property \<open>k\<close>); on anything else each name
  reads as a property. A default applies to a property that is \<^verbatim>\<open>undefined\<close>.
\<close>

fun destructure :: "string \<Rightarrow> jsval \<Rightarrow> exn + unit" where
  "destructure k JUndefined =
     Inl (Error (''Cannot destructure property '' @ [CHR 0x27] @ k @ [CHR 0x27] @ '' of ''
                 @ [CHR 0x27] @ ''args'' @ [CHR 0x27] @ '' as it is undefined.''))"
| "destructure k JNull =
     Inl (Error (''Cannot destructure property '' @ [CHR 0x27] @ k @ [CHR 0x27] @ '' of ''
                 @ [CHR 0x27] @ ''args'' @ [CHR 0x27] @ '' as it is null.''))"
| "destructure k v = Inr ()"

definition field :: "jsval \<Rightarrow> string \<Rightarrow> jsval" where
  "field v k = (case getProp v k of Inl e \<Rightarrow> JUndefined | Inr w \<Rightarrow> w)"

definition withDefault :: "jsval \<Rightarrow> jsval \<Rightarrow> jsval" where
  "withDefault v d = (if v = JUndefined then d else v)"

text \<open>
  \<^verbatim>\<open>mouseClick\<close>. \<open>render v\<close> stands for the text of \<^verbatim>\<open>${v}\<close> in a template
  string, and \<open>scaled v src dim\<close> for the text of
  \<^verbatim>\<open>${Math.round((v / src) * dim)}\<close>, \<open>dim\<close> given by its decimal digits. A throw
  of the first attempt, the resolution query included, leads to the AppleScript fallback
  with the dimensions 1920 and 1080.
\<close>

definition mouseClick ::
  "(jsval \<Rightarrow> string) \<Rightarrow> (jsval \<Rightarrow> jsval \<Rightarrow> string \<Rightarrow> string) \<Rightarrow> actionEnv \<Rightarrow> jsval
     \<Rightarrow> exn + MCPToolResult" where
  "mouseClick render scaled env args =
     andThen (destructure ''x'' args) (\<lambda>u.
       let x = field args ''x'';
           y = field args ''y'';
           source_width = withDefault (field args ''source_width'') (JNum 1366);
           source_height = withDefault (field args ''source_height'') (JNum 768)
       in if x = JUndefined \<or> y = JUndefined
          then Inl (Error ''x and y coordinates are required'')
          else (case
                  andThen (clickProfiler env) (\<lambda>stdout.
                    let resolution = resolutionMatch stdout;
                        scaledX = scaled x source_width
                                    (case resolution of Some m \<Rightarrow> fst m | None \<Rightarrow> ''1920'');
                        scaledY = scaled y source_height
                                    (case resolution of Some m \<Rightarrow> snd m | None \<Rightarrow> ''1080'')
                    in andThen (case cliclick env of Some e \<Rightarrow> Inl e | None \<Rightarrow> Inr ()) (\<lambda>u.
                         Inr ((toolResult True)
                                \<lparr> content := JStr (''Mouse clicked at ('' @ scaledX @ '', '' @ scaledY
                                     @ '') - scaled from source ('' @ render x @ '', '' @ render y
                                     @ '')'') \<rparr>)))
                of Inr r \<Rightarrow> Inr r
                 | Inl err \<Rightarrow>
                     (case clickScript env of
                        None \<Rightarrow>
                          Inr ((toolResult True)
                                 \<lparr> content := JStr (''Mouse clicked at (''
                                      @ scaled x source_width ''1920'' @ '', ''
                                      @ scaled y source_height ''1080''
                                      @ '') using AppleScript fallback'') \<rparr>)
                      | Some fallbackError \<Rightarrow>
                          Inl (Error (''Failed to click mouse: '' @ errorMessage err
                                 @ ''. Try installing cliclick with: brew install cliclick'')))))"

text \<open>
  \<^verbatim>\<open>sendKeys\<close>. \<^verbatim>\<open>text.replace\<close> and \<^verbatim>\<open>key_combo.toLowerCase\<close> exist on strings
  only: on any other truthy value the call throws a TypeError. Any throw inside the
  \<^verbatim>\<open>try\<close> is rethrown as \<^verbatim>\<open>Error('Failed to send keys: ...')\<close>.
\<close>

definition sendKeys :: "(jsval \<Rightarrow> string) \<Rightarrow> actionEnv \<Rightarrow> jsval \<Rightarrow> exn + MCPToolResult" where
  \<open>sendKeys render env args =
     andThen (destructure ''text'' args) (\<lambda>u.
       let txt = field args ''text'';
           special_key = field args ''special_key'';
           key_combo = field args ''key_combo''
       in (case
             (if truthy txt
              then (case txt of
                      JStr t \<Rightarrow>
                        andThen (case keystroke env of Some e \<Rightarrow> Inl e | None \<Rightarrow> Inr ()) (\<lambda>u.
                          Inr ((toolResult True)\<lparr> content := JStr (''Typed text: "'' @ t @ ''"'') \<rparr>))
                    | _ \<Rightarrow> Inl (Error ''text.replace is not a function''))
              else if truthy special_key
              then andThen (case keystroke env of Some e \<Rightarrow> Inl e | None \<Rightarrow> Inr ()) (\<lambda>u.
                     Inr ((toolResult True)
                            \<lparr> content := JStr (''Pressed special key: '' @ render special_key) \<rparr>))
              else if truthy key_combo
              then (case key_combo of
                      JStr k \<Rightarrow>
                        andThen (case keystroke env of Some e \<Rightarrow> Inl e | None \<Rightarrow> Inr ()) (\<lambda>u.
                          Inr ((toolResult True)
                                 \<lparr> content := JStr (''Pressed key combination: '' @ k) \<rparr>))
                    | _ \<Rightarrow> Inl (Error ''key_combo.toLowerCase is not a function''))
              else Inl (Error ''Either text, special_key, or key_combo must be provided''))
           of Inr r \<Rightarrow> Inr r
            | Inl e \<Rightarrow> Inl (Error (''Failed to send keys: '' @ errorMessage e))))\<close>

text \<open>\<^verbatim>\<open>openApplication\<close>\<close>

definition openApplication :: "(jsval \<Rightarrow> string) \<Rightarrow> actionEnv \<Rightarrow> jsval \<Rightarrow> exn + MCPToolResult" where
  \<open>openApplication render env args =
     andThen (destructure ''identifier'' args) (\<lambda>u.
       let identifier = field args ''identifier''
       in if \<not> truthy identifier
          then Inl (Error ''Application identifier is required'')
          else (case openCommand env of
                  None \<Rightarrow>
                    Inr ((toolResult True)
                           \<lparr> content := JStr (''Successfully opened application: ''
                                @ render identifier) \<rparr>)
                | Some e \<Rightarrow>
                    Inl (Error (''Failed to open application "'' @ render identifier @ ''": ''
                           @ errorMessage e))))\<close>

text \<open>
  \<^verbatim>\<open>callTool\<close> of the local client: it throws when the client is not connected;
  otherwise it dispatches on the tool name and turns any throw, that of an unknown name
  included, into a failed result.
\<close>

definition localCallTool ::
  "(jsval \<Rightarrow> string) \<Rightarrow> (jsval \<Rightarrow> jsval \<Rightarrow> string \<Rightarrow> string) \<Rightarrow> (string \<Rightarrow> string)
     \<Rightarrow> screenshotEnv \<Rightarrow> actionEnv \<Rightarrow> bool \<Rightarrow> string \<Rightarrow> jsval \<Rightarrow> exn + MCPToolResult" where
  "localCallTool render scaled numberText shotEnv env clientConnected toolname args =
     (if \<not> clientConnected then Inl (Error ''Local macOS client not connected'')
      else (case
              (if toolname = ''remote_macos_get_screen'' then takeScreenshot numberText shotEnv
               else if toolname = ''remote_macos_mouse_click'' then mouseClick render scaled env args
               else if toolname = ''remote_macos_send_keys'' then sendKeys render env args
               else if toolname = ''remote_macos_open_application''
               then openApplication render env args
               else Inl (Error (''Unknown tool: '' @ toolname)))
            of Inr r \<Rightarrow> Inr r
             | Inl e \<Rightarrow>
                 Inr ((toolResult False)
                   \<lparr> error := JStr (''Error executing '' @ toolname @ '': '' @ errorMessage e) \<rparr>)))"

section \<open>The payload of a Tool Result\<close>

text \<open>
  The rule of the data model: a successful result carries exactly one of
  \<^verbatim>\<open>content\<close> and \<^verbatim>\<open>imageData\<close> and no \<^verbatim>\<open>error\<close>; a failed one carries
  \<^verbatim>\<open>error\<close> only.
\<close>

definition exactlyOnePayload :: "MCPToolResult \<Rightarrow> bool" where
  "exactlyOnePayload r =
     (if success r
      then (populated (content r) \<noteq> populated (imageData r)) \<and> \<not> populated (error r)
      else populated (error r) \<and> \<not> populated (content r) \<and> \<not> populated (imageData r))"

text \<open>
  A response that \<^verbatim>\<open>callTool\<close> takes for an image and that brings none: it has no
  truthy \<^verbatim>\<open>error\<close>, its \<^verbatim>\<open>result.content\<close> is truthy, the first content element
  is image-typed, and the \<^verbatim>\<open>data\<close> of that element is absent or otherwise falsy.
\<close>

definition imageWithoutData :: "jsval \<Rightarrow> bool" where
  "imageWithoutData response =
     (case getProp response ''error'' of
        Inl e \<Rightarrow> False
      | Inr err \<Rightarrow> \<not> truthy err \<and>
     (case getProp response ''result'' of
        Inl e \<Rightarrow> False
      | Inr result \<Rightarrow> truthy result \<and>
          (case getProp result ''content'' of
             Inl e \<Rightarrow> False
           | Inr contents \<Rightarrow> truthy contents \<and>
               (case getIndex0 contents of
                  Inl e \<Rightarrow> False
                | Inr first \<Rightarrow>
                    getProp first ''type'' = Inr (JStr ''image'') \<and>
                    (case getProp first ''data'' of
                       Inl e \<Rightarrow> False
                     | Inr d \<Rightarrow> \<not> truthy d)))))"

text \<open>A run of \<^verbatim>\<open>takeScreenshot\<close> in which every step succeeds.\<close>

definition sampleScreenshotEnv :: screenshotEnv where
  "sampleScreenshotEnv =
     \<lparr> screencapture = None, readFile = Inr ''PNG'', unlink = None,
       profiler = Inr ''          Resolution: 2560 x 1600 Retina'' \<rparr>"

text \<open>The commands of the other tools all succeed.\<close>

definition sampleActionEnv :: actionEnv where
  "sampleActionEnv =
     \<lparr> clickProfiler = Inr ''          Resolution: 2560 x 1600 Retina'', cliclick = None,
       clickScript = None, keystroke = None, openCommand = None \<rparr>"

text \<open>A response of the subprocess whose image element carries no \<^verbatim>\<open>data\<close>.\<close>

definition emptyImageResponse :: jsval where
  "emptyImageResponse =
     JObj [(''jsonrpc'', JStr ''2.0''), (''id'', JNum 5),
           (''result'', JObj [(''content'', JArr [JObj [(''type'', JStr ''image'')]])])]"

section \<open>A response line split inside a character\<close>

text \<open>
  One response line, \<^verbatim>\<open>{"id":5,"result":"\<close> followed by the two bytes \<open>C3 A9\<close> of
  U+00E9, then \<^verbatim>\<open>"}\<close> and a newline, cut into two chunks between those two bytes.
\<close>

definition splitChunk1 :: string where
  \<open>splitChunk1 = ''{"id":5,"result":"'' @ [CHR 0xC3]\<close>

definition splitChunk2 :: string where
  \<open>splitChunk2 = [CHR 0xA9] @ ''"}'' @ [CHR 0x0A]\<close>

definition sentLine :: string where
  \<open>sentLine = ''{"id":5,"result":"'' @ [CHR 0xC3, CHR 0xA9] @ ''"}''\<close>

definition garbledLine :: string where
  \<open>garbledLine = ''{"id":5,"result":"'' @ replacementChar @ replacementChar @ ''"}''\<close>

text \<open>
  \<^verbatim>\<open>JSON.parse\<close> on the two texts above: the objects they denote. (On any other
  text this sample gives \<open>None\<close>; no other text is parsed below.)
\<close>

definition sampleParse :: "string \<Rightarrow> jsval option" where
  "sampleParse txt =
     (if txt = sentLine then Some (JObj [(''id'', JNum 5), (''result'', JStr [CHR 0xC3, CHR 0xA9])])
      else if txt = garbledLine
      then Some (JObj [(''id'', JNum 5), (''result'', JStr (replacementChar @ replacementChar))])
      else None)"

text \<open>A connected client with one request, id 5, waiting on promise 0.\<close>

definition oneWaiting :: MCPClient where
  "oneWaiting = snd (callToolSend True ''remote_macos_get_screen'' (JObj []) 5 (connect 1 (newClient 0)))"

section \<open>Orchestrator (chatService.ts)\<close>

datatype responseType =
  TextResponse | ImageResponse | ErrorResponse | ToolExecutionResponse | TypingResponse

record ChatResponse =
  resp_content :: string
  resp_type :: responseType
  resp_imageData :: jsval
  resp_toolName :: "string option"
  resp_sessionId :: "string option"
  resp_timestamp :: "nat option"

record ChatSession =
  session_id :: string
  createdAt :: nat
  lastActivity :: nat
  messageCount :: nat

text \<open>\<^verbatim>\<open>LLMResponse\<close> of llmService.ts, as the orchestrator reads it.\<close>

record LLMResponse =
  llm_content :: string
  toolCalls :: "MCPToolCall list option"
  requiresTools :: bool

text \<open>
  The orchestrator works through two collaborators, the tool client
  (\<^verbatim>\<open>MCPClientInterface\<close>) and the model gateway (\<^verbatim>\<open>LLMService\<close>). Every call it
  makes to them is recorded, in order, in a log; what a call answers (a value, or a
  throw) may depend on everything called so far, the call itself being the last entry.
  \<open>dateNow\<close> is \<^verbatim>\<open>Date.now()\<close>, \<open>numberToText\<close> the text of a number in a template
  string.
\<close>

datatype call =
    AskListTools
  | AskProcessMessage string "MCPTool list" string
  | AskFollowUp string "MCPToolResult list" "MCPTool list" string
  | AskCallTool string jsval

record surroundings =
  listToolsAnswer :: "call list \<Rightarrow> exn + MCPTool list"
  processMessageAnswer :: "call list \<Rightarrow> exn + LLMResponse"
  followUpAnswer :: "call list \<Rightarrow> exn + LLMResponse"
  callToolAnswer :: "call list \<Rightarrow> exn + MCPToolResult"
  dateNow :: "call list \<Rightarrow> nat"
  numberToText :: "rat \<Rightarrow> string"

definition askListTools :: "surroundings \<Rightarrow> call list \<Rightarrow> (exn + MCPTool list) \<times> call list" where
  "askListTools env asked = (listToolsAnswer env (asked @ [AskListTools]), asked @ [AskListTools])"

definition askProcessMessage ::
  "surroundings \<Rightarrow> string \<Rightarrow> MCPTool list \<Rightarrow> string \<Rightarrow> call list \<Rightarrow> (exn + LLMResponse) \<times> call list" where
  "askProcessMessage env message availableTools sessionId asked =
     (processMessageAnswer env (asked @ [AskProcessMessage message availableTools sessionId]),
      asked @ [AskProcessMessage message availableTools sessionId])"

definition askFollowUp ::
  "surroundings \<Rightarrow> string \<Rightarrow> MCPToolResult list \<Rightarrow> MCPTool list \<Rightarrow> string \<Rightarrow> call list
     \<Rightarrow> (exn + LLMResponse) \<times> call list" where
  "askFollowUp env originalMessage results availableTools sessionId asked =
     (followUpAnswer env (asked @ [AskFollowUp originalMessage results availableTools sessionId]),
      asked @ [AskFollowUp originalMessage results availableTools sessionId])"

definition askCallTool ::
  "surroundings \<Rightarrow> string \<Rightarrow> jsval \<Rightarrow> call list \<Rightarrow> (exn + MCPToolResult) \<times> call list" where
  "askCallTool env toolname args asked =
     (callToolAnswer env (asked @ [AskCallTool toolname args]), asked @ [AskCallTool toolname args])"

subsection \<open>Text helpers\<close>

text \<open>\<^verbatim>\<open>haystack.includes(needle)\<close>\<close>

fun stringIncludes :: "string \<Rightarrow> string \<Rightarrow> bool" where
  "stringIncludes [] needle = (needle = [])"
| "stringIncludes (c # cs) needle = (take (length needle) (c # cs) = needle \<or> stringIncludes cs needle)"

text \<open>
  \<^verbatim>\<open>toLowerCase\<close> on the ASCII letters. The indicators searched for are ASCII, and no
  other character's lower case ends in text that completes one of them.
\<close>

definition lowerChar :: "char \<Rightarrow> char" where
  "lowerChar c =
     (case map_of (zip ''ABCDEFGHIJKLMNOPQRSTUVWXYZ'' ''abcdefghijklmnopqrstuvwxyz'') c of
        Some l \<Rightarrow> l | None \<Rightarrow> c)"

definition toLowerCase :: "string \<Rightarrow> string" where
  "toLowerCase s = map lowerChar s"

fun joinWith :: "string \<Rightarrow> string list \<Rightarrow> string" where
  "joinWith sep [] = []"
| "joinWith sep [x] = x"
| "joinWith sep (x # y # rest) = x @ sep @ joinWith sep (y # rest)"

text \<open>The text of a value inside a template string, \<^verbatim>\<open>`${v}`\<close>.\<close>

fun templateText :: "(rat \<Rightarrow> string) \<Rightarrow> jsval \<Rightarrow> string" where
  "templateText nt JUndefined = ''undefined''"
| "templateText nt JNull = ''null''"
| "templateText nt (JBool b) = (if b then ''true'' else ''false'')"
| "templateText nt (JNum n) = nt n"
| "templateText nt (JStr s) = s"
| "templateText nt (JArr xs) =
     joinWith '','' (map (\<lambda>x. case x of JUndefined \<Rightarrow> [] | JNull \<Rightarrow> [] | _ \<Rightarrow> templateText nt x) xs)"
| "templateText nt (JObj kvs) = ''[object Object]''"

definition cameraEmoji :: string where
  "cameraEmoji = [CHR 0xF0, CHR 0x9F, CHR 0x93, CHR 0xB8]"

definition checkEmoji :: string where
  "checkEmoji = [CHR 0xE2, CHR 0x9C, CHR 0x85]"

definition rocketEmoji :: string where
  "rocketEmoji = [CHR 0xF0, CHR 0x9F, CHR 0x9A, CHR 0x80]"

definition mouseEmoji :: string where
  "mouseEmoji = [CHR 0xF0, CHR 0x9F, CHR 0x96, CHR 0xB1, CHR 0xEF, CHR 0xB8, CHR 0x8F]"

definition keyboardEmoji :: string where
  "keyboardEmoji = [CHR 0xE2, CHR 0x8C, CHR 0xA8, CHR 0xEF, CHR 0xB8, CHR 0x8F]"

subsection \<open>isMultiStepRequest, generateScreenshotMessage, updateSessionActivity\<close>

definition multiStepIndicators :: "string list" where
  "multiStepIndicators =
     [''then'', ''after'', ''next'', ''and then'', ''followed by'', ''subsequently'',
      ''navigate to'', ''open'', ''find'', ''explore'', ''multiple'', ''steps'',
      ''first'', ''second'', ''finally'', '','', ''and also'']"

definition isMultiStepRequest :: "string \<Rightarrow> bool" where
  "isMultiStepRequest message =
     list_ex (\<lambda>indicator. stringIncludes (toLowerCase message) indicator) multiStepIndicators"

definition generateScreenshotMessage :: "MCPToolResult list \<Rightarrow> string" where
  "generateScreenshotMessage results =
     (let failed = length (filter (\<lambda>r. \<not> success r) results)
      in if failed = 0
         then cameraEmoji @ '' Here's a screenshot of your Mac desktop:''
         else cameraEmoji @ '' Screenshot captured, but '' @ showNat failed
              @ '' operation(s) had issues. Here's what I can see:'')"

definition updateSessionActivity ::
  "(string \<rightharpoonup> ChatSession) \<Rightarrow> string \<Rightarrow> nat \<Rightarrow> (string \<rightharpoonup> ChatSession)" where
  "updateSessionActivity sessions sessionId now =
     (case sessions sessionId of
        Some session \<Rightarrow>
          sessions(sessionId \<mapsto> session\<lparr> lastActivity := now, messageCount := messageCount session + 1 \<rparr>)
      | None \<Rightarrow>
          sessions(sessionId \<mapsto>
            \<lparr> session_id = sessionId, createdAt = now, lastActivity = now, messageCount = 1 \<rparr>))"

subsection \<open>Running a batch of tool calls\<close>

definition screenshotTool :: string where
  "screenshotTool = ''remote_macos_get_screen''"

text \<open>The result pushed by the \<^verbatim>\<open>catch\<close> around one tool call.\<close>

definition failedCall :: "string \<Rightarrow> exn \<Rightarrow> MCPToolResult" where
  "failedCall toolname e =
     (toolResult False)\<lparr> error := JStr (errorMessage e), toolName := JStr toolname \<rparr>"

text \<open>
  The test of the loop for a screenshot:
  \<^verbatim>\<open>toolCall.name === 'remote_macos_get_screen' && result.success && result.imageData\<close>.
\<close>

definition capturesScreenshot :: "MCPToolCall \<Rightarrow> MCPToolResult \<Rightarrow> bool" where
  "capturesScreenshot toolCall result =
     (call_name toolCall = screenshotTool \<and> success result \<and> truthy (imageData result))"

text \<open>
  The loop of \<^verbatim>\<open>executeTools\<close>, over \<open>(toolResults, hasScreenshot, screenshotData)\<close>:
  each call in order, its result pushed, a throw pushed as a failed result.
\<close>

fun executeBatch ::
  "surroundings \<Rightarrow> MCPToolCall list \<Rightarrow> MCPToolResult list \<times> bool \<times> jsval \<Rightarrow> call list
     \<Rightarrow> (MCPToolResult list \<times> bool \<times> jsval) \<times> call list" where
  "executeBatch env [] st asked = (st, asked)"
| "executeBatch env (toolCall # rest) (toolResults, hasScreenshot, screenshotData) asked =
     (case askCallTool env (call_name toolCall) (arguments toolCall) asked of
        (Inr result, asked') \<Rightarrow>
          executeBatch env rest
            (toolResults @ [result],
             (if capturesScreenshot toolCall result
              then (True, imageData result) else (hasScreenshot, screenshotData)))
            asked'
      | (Inl e, asked') \<Rightarrow>
          executeBatch env rest
            (toolResults @ [failedCall (call_name toolCall) e], hasScreenshot, screenshotData)
            asked')"

text \<open>
  The loop of \<^verbatim>\<open>continueMultiStepWorkflow\<close>: each result is pushed with its
  \<^verbatim>\<open>toolName\<close> set to the name called.
\<close>

fun executeContinuationBatch ::
  "surroundings \<Rightarrow> MCPToolCall list \<Rightarrow> MCPToolResult list \<Rightarrow> call list
     \<Rightarrow> MCPToolResult list \<times> call list" where
  "executeContinuationBatch env [] nextToolResults asked = (nextToolResults, asked)"
| "executeContinuationBatch env (toolCall # rest) nextToolResults asked =
     (case askCallTool env (call_name toolCall) (arguments toolCall) asked of
        (Inr result, asked') \<Rightarrow>
          executeContinuationBatch env rest
            (nextToolResults @ [result\<lparr> toolName := JStr (call_name toolCall) \<rparr>]) asked'
      | (Inl e, asked') \<Rightarrow>
          executeContinuationBatch env rest
            (nextToolResults @ [failedCall (call_name toolCall) e]) asked')"

subsection \<open>continueMultiStepWorkflow\<close>

definition continuationPrompt :: "string \<Rightarrow> string" where
  \<open>continuationPrompt originalMessage =
     ''I have successfully taken a screenshot and now need to continue with this multi-step request: "''
     @ originalMessage @ ''"'' @ [CHR 0x0A, CHR 0x0A]
     @ ''COMPLETED STEPS:'' @ [CHR 0x0A]
     @ ''- '' @ checkEmoji @ '' Screenshot captured'' @ [CHR 0x0A, CHR 0x0A]
     @ ''REMAINING STEPS TO EXECUTE:'' @ [CHR 0x0A]
     @ ''From the original request, I still need to: open Finder, navigate to Applications, find an unused app, open it, and explore its menus.''
     @ [CHR 0x0A, CHR 0x0A]
     @ ''Based on the screenshot, execute the NEXT ACTION to continue this workflow. Use the available tools to perform the next step.''\<close>

text \<open>One line of \<^verbatim>\<open>actionsSummary\<close>, for a successful result.\<close>

definition actionText :: "(rat \<Rightarrow> string) \<Rightarrow> MCPToolResult \<Rightarrow> string" where
  "actionText nt r =
     (if toolName r = JStr ''remote_macos_get_screen'' then cameraEmoji @ '' Screenshot captured''
      else if toolName r = JStr ''remote_macos_open_application''
      then rocketEmoji @ '' Opened '' @ templateText nt (jsOr (content r) (JStr ''application''))
      else if toolName r = JStr ''remote_macos_mouse_click'' then mouseEmoji @ '' Clicked on interface''
      else if toolName r = JStr ''remote_macos_send_keys'' then keyboardEmoji @ '' Typed text''
      else checkEmoji @ '' '' @ templateText nt (toolName r) @ '' executed'')"

definition workflowProgressText :: "(rat \<Rightarrow> string) \<Rightarrow> MCPToolResult list \<Rightarrow> string" where
  "workflowProgressText nt allResults =
     checkEmoji @ '' **Multi-step workflow in progress!**'' @ [CHR 0x0A, CHR 0x0A]
     @ ''I've successfully executed these actions:'' @ [CHR 0x0A]
     @ joinWith [CHR 0x0A] (map (actionText nt) (filter success allResults))
     @ [CHR 0x0A, CHR 0x0A]
     @ (if length allResults > 1 then ''Let me continue with the next steps...''
        else ''Ready for the next step in your workflow!'')"

text \<open>The response built by the \<^verbatim>\<open>catch\<close> of \<^verbatim>\<open>continueMultiStepWorkflow\<close>.\<close>

definition continuationFallback :: "surroundings \<Rightarrow> jsval \<Rightarrow> string \<Rightarrow> call list \<Rightarrow> ChatResponse" where
  "continuationFallback env screenshotData sessionId asked =
     \<lparr> resp_content = cameraEmoji @
         '' I took a screenshot as requested, but encountered an issue continuing with the remaining steps. Please let me know what you'd like me to do next!'',
       resp_type = ImageResponse,
       resp_imageData = jsOr screenshotData JUndefined,
       resp_toolName = Some ''remote_macos_get_screen'',
       resp_sessionId = Some sessionId,
       resp_timestamp = Some (dateNow env asked) \<rparr>"

definition textResponse :: "surroundings \<Rightarrow> string \<Rightarrow> string \<Rightarrow> call list \<Rightarrow> ChatResponse" where
  "textResponse env txt sessionId asked =
     \<lparr> resp_content = txt, resp_type = TextResponse, resp_imageData = JUndefined,
       resp_toolName = None, resp_sessionId = Some sessionId,
       resp_timestamp = Some (dateNow env asked) \<rparr>"

definition continueMultiStepWorkflow ::
  "surroundings \<Rightarrow> string \<Rightarrow> MCPToolResult list \<Rightarrow> jsval \<Rightarrow> string \<Rightarrow> call list
     \<Rightarrow> ChatResponse \<times> call list" where
  "continueMultiStepWorkflow env originalMessage previousResults screenshotData sessionId asked =
     (case askListTools env asked of
        (Inl e, a1) \<Rightarrow> (continuationFallback env screenshotData sessionId a1, a1)
      | (Inr availableTools, a1) \<Rightarrow>
          (case askProcessMessage env (continuationPrompt originalMessage) availableTools sessionId a1 of
             (Inl e, a2) \<Rightarrow> (continuationFallback env screenshotData sessionId a2, a2)
           | (Inr continuationResponse, a2) \<Rightarrow>
               (case (if requiresTools continuationResponse then toolCalls continuationResponse else None) of
                  Some calls \<Rightarrow>
                    (case executeContinuationBatch env calls [] a2 of
                       (nextToolResults, a3) \<Rightarrow>
                         (textResponse env
                            (workflowProgressText (numberToText env) (previousResults @ nextToolResults))
                            sessionId a3, a3))
                | None \<Rightarrow>
                    (textResponse env
                       (checkEmoji @ '' **Screenshot captured!** '' @ llm_content continuationResponse)
                       sessionId a2, a2))))"

subsection \<open>executeTools and processMessage\<close>

text \<open>
  The test after the loop of \<^verbatim>\<open>executeTools\<close>:
  \<^verbatim>\<open>wasMultiStepRequest && onlyScreenshotExecuted\<close>, where
  \<^verbatim>\<open>onlyScreenshotExecuted = toolResults.length === 1 && hasScreenshot\<close>.
\<close>

definition needsContinuation :: "string \<Rightarrow> MCPToolResult list \<Rightarrow> bool \<Rightarrow> bool" where
  "needsContinuation originalMessage toolResults hasScreenshot =
     (isMultiStepRequest originalMessage \<and> (length toolResults = 1 \<and> hasScreenshot))"

definition screenshotResponse ::
  "surroundings \<Rightarrow> MCPToolResult list \<Rightarrow> jsval \<Rightarrow> string \<Rightarrow> call list \<Rightarrow> ChatResponse" where
  "screenshotResponse env toolResults screenshotData sessionId asked =
     \<lparr> resp_content = generateScreenshotMessage toolResults,
       resp_type = ImageResponse,
       resp_imageData = screenshotData,
       resp_toolName = Some ''remote_macos_get_screen'',
       resp_sessionId = Some sessionId,
       resp_timestamp = Some (dateNow env asked) \<rparr>"

text \<open>
  \<^verbatim>\<open>executeTools\<close>. It is called with \<^verbatim>\<open>llmResponse.toolCalls\<close> present; iterating
  an absent list throws a TypeError.
\<close>

definition executeTools ::
  "surroundings \<Rightarrow> LLMResponse \<Rightarrow> string \<Rightarrow> string \<Rightarrow> call list
     \<Rightarrow> (exn + ChatResponse) \<times> call list" where
  "executeTools env llmResponse originalMessage sessionId asked =
     (case toolCalls llmResponse of
        None \<Rightarrow> (Inl (Error ''llmResponse.toolCalls is not iterable''), asked)
      | Some calls \<Rightarrow>
          (case executeBatch env calls ([], False, JNull) asked of
             ((toolResults, hasScreenshot, screenshotData), a1) \<Rightarrow>
               if needsContinuation originalMessage toolResults hasScreenshot
               then (case continueMultiStepWorkflow env originalMessage toolResults screenshotData
                            sessionId a1 of
                       (response, a2) \<Rightarrow> (Inr response, a2))
               else if hasScreenshot \<and> truthy screenshotData \<and> \<not> isMultiStepRequest originalMessage
               then (Inr (screenshotResponse env toolResults screenshotData sessionId a1), a1)
               else (case askListTools env a1 of
                       (Inl e, a2) \<Rightarrow> (Inl e, a2)
                     | (Inr availableTools, a2) \<Rightarrow>
                         (case askFollowUp env originalMessage toolResults availableTools sessionId a2 of
                            (Inl e, a3) \<Rightarrow> (Inl e, a3)
                          | (Inr followUpResponse, a3) \<Rightarrow>
                              (Inr (textResponse env (llm_content followUpResponse) sessionId a3), a3)))))"

text \<open>The \<^verbatim>\<open>try\<close> block of \<^verbatim>\<open>processMessage\<close>, after the session update.\<close>

definition processMessageBody ::
  "surroundings \<Rightarrow> string \<Rightarrow> string \<Rightarrow> call list \<Rightarrow> (exn + ChatResponse) \<times> call list" where
  "processMessageBody env message sessionId asked =
     (case askListTools env asked of
        (Inl e, a1) \<Rightarrow> (Inl e, a1)
      | (Inr availableTools, a1) \<Rightarrow>
          (case askProcessMessage env message availableTools sessionId a1 of
             (Inl e, a2) \<Rightarrow> (Inl e, a2)
           | (Inr llmResponse, a2) \<Rightarrow>
               if requiresTools llmResponse \<and> toolCalls llmResponse \<noteq> None
               then executeTools env llmResponse message sessionId a2
               else (Inr (textResponse env (llm_content llmResponse) sessionId a2), a2)))"

definition apologyResponse :: "surroundings \<Rightarrow> string \<Rightarrow> call list \<Rightarrow> ChatResponse" where
  "apologyResponse env sessionId asked =
     \<lparr> resp_content = ''Sorry, I encountered an error processing your request. Please try again.'',
       resp_type = ErrorResponse, resp_imageData = JUndefined, resp_toolName = None,
       resp_sessionId = Some sessionId, resp_timestamp = Some (dateNow env asked) \<rparr>"

text \<open>
  \<^verbatim>\<open>processMessage\<close>: the session update, the \<^verbatim>\<open>try\<close> block, and the \<^verbatim>\<open>catch\<close>
  that answers any throw with the apology. It returns the response, the calls made and
  the session registry.
\<close>

definition processMessage ::
  "surroundings \<Rightarrow> (string \<rightharpoonup> ChatSession) \<Rightarrow> string \<Rightarrow> string \<Rightarrow> call list
     \<Rightarrow> ChatResponse \<times> call list \<times> (string \<rightharpoonup> ChatSession)" where
  "processMessage env sessions message sessionId asked =
     (let sessions' = updateSessionActivity sessions sessionId (dateNow env asked)
      in case processMessageBody env message sessionId asked of
           (Inr response, a) \<Rightarrow> (response, a, sessions')
         | (Inl e, a) \<Rightarrow> (apologyResponse env sessionId a, a, sessions'))"

text \<open>The calls of a log that ask the model gateway for a decision, and for a follow-up.\<close>

fun isDecisionCall :: "call \<Rightarrow> bool" where
  "isDecisionCall (AskProcessMessage message availableTools sessionId) = True"
| "isDecisionCall c = False"


fun isToolCall :: "call \<Rightarrow> bool" where
  "isToolCall (AskCallTool toolname args) = True"
| "isToolCall c = False"

subsection \<open>What a batch leaves behind\<close>

text \<open>
  The results a batch pushes, one per call in order: what \<^verbatim>\<open>callTool\<close> returned, or
  the failed result made from its throw. And the log entries of a batch.
\<close>

fun batchResults :: "surroundings \<Rightarrow> MCPToolCall list \<Rightarrow> call list \<Rightarrow> MCPToolResult list" where
  "batchResults env [] asked = []"
| "batchResults env (toolCall # rest) asked =
     (case askCallTool env (call_name toolCall) (arguments toolCall) asked of
        (Inr result, asked') \<Rightarrow> result # batchResults env rest asked'
      | (Inl e, asked') \<Rightarrow> failedCall (call_name toolCall) e # batchResults env rest asked')"

definition batchCalls :: "MCPToolCall list \<Rightarrow> call list" where
  "batchCalls calls = map (\<lambda>c. AskCallTool (call_name c) (arguments c)) calls"

definition captured :: "MCPToolCall \<times> MCPToolResult \<Rightarrow> bool" where
  "captured p = capturesScreenshot (fst p) (snd p)"

subsection \<open>Sample surroundings\<close>

definition screenshotCall :: MCPToolCall where
  "screenshotCall = \<lparr> call_name = ''remote_macos_get_screen'', arguments = JObj [] \<rparr>"

definition clickCall :: MCPToolCall where
  "clickCall = \<lparr> call_name = ''remote_macos_mouse_click'',
                 arguments = JObj [(''x'', JNum 100), (''y'', JNum 200)] \<rparr>"

definition imageResult :: MCPToolResult where
  "imageResult = (toolResult True)\<lparr> imageData := JStr ''UE5H'', toolName := JStr ''remote_macos_get_screen'' \<rparr>"

definition textResult :: "string \<Rightarrow> MCPToolResult" where
  "textResult toolname =
     (toolResult True)\<lparr> content := JStr ''Tool executed successfully'', toolName := JStr toolname \<rparr>"

text \<open>
  The model asks for a screenshot and a click; the screenshot returns image data, the
  click returns text; the follow-up answers "Done".
\<close>

definition twoToolSurroundings :: surroundings where
  "twoToolSurroundings =
     \<lparr> listToolsAnswer = (\<lambda>asked. Inr []),
       processMessageAnswer = (\<lambda>asked.
         Inr \<lparr> llm_content = ''Executing tools...'', toolCalls = Some [screenshotCall, clickCall],
               requiresTools = True \<rparr>),
       followUpAnswer = (\<lambda>asked. Inr \<lparr> llm_content = ''Done'', toolCalls = None, requiresTools = False \<rparr>),
       callToolAnswer = (\<lambda>asked.
         if last asked = AskCallTool ''remote_macos_get_screen'' (JObj [])
         then Inr imageResult else Inr (textResult ''remote_macos_mouse_click'')),
       dateNow = (\<lambda>asked. 0),
       numberToText = (\<lambda>n. []) \<rparr>"

text \<open>
  The model asks for one screenshot; the tool succeeds and returns text, no image data.
\<close>

definition textShotSurroundings :: surroundings where
  "textShotSurroundings =
     \<lparr> listToolsAnswer = (\<lambda>asked. Inr []),
       processMessageAnswer = (\<lambda>asked.
         Inr \<lparr> llm_content = ''Executing tools...'', toolCalls = Some [screenshotCall],
               requiresTools = True \<rparr>),
       followUpAnswer = (\<lambda>asked. Inr \<lparr> llm_content = ''Done'', toolCalls = None, requiresTools = False \<rparr>),
       callToolAnswer = (\<lambda>asked. Inr (textResult ''remote_macos_get_screen'')),
       dateNow = (\<lambda>asked. 0),
       numberToText = (\<lambda>n. []) \<rparr>"


text \<open>
  The model asks for one screenshot, which returns image data, and the message has no
  multi-step indicator.
\<close>

definition plainShotSurroundings :: surroundings where
  "plainShotSurroundings =
     \<lparr> listToolsAnswer = (\<lambda>asked. Inr []),
       processMessageAnswer = (\<lambda>asked.
         Inr \<lparr> llm_content = ''Executing tools...'', toolCalls = Some [screenshotCall],
               requiresTools = True \<rparr>),
       followUpAnswer = (\<lambda>asked. Inr \<lparr> llm_content = ''Done'', toolCalls = None, requiresTools = False \<rparr>),
       callToolAnswer = (\<lambda>asked. Inr imageResult),
       dateNow = (\<lambda>asked. 0),
       numberToText = (\<lambda>n. []) \<rparr>"

text \<open>
  The model asks for one screenshot, which returns image data; asked again (the
  continuation) it asks to open Safari, and that tool returns text.
\<close>

definition openCall :: MCPToolCall where
  "openCall = \<lparr> call_name = ''remote_macos_open_application'',
                arguments = JObj [(''application_name'', JStr ''Safari'')] \<rparr>"

definition twoStepSurroundings :: surroundings where
  "twoStepSurroundings =
     \<lparr> listToolsAnswer = (\<lambda>asked. Inr []),
       processMessageAnswer = (\<lambda>asked.
         if length (filter isDecisionCall asked) = 1
         then Inr \<lparr> llm_content = ''Executing tools...'', toolCalls = Some [screenshotCall],
                    requiresTools = True \<rparr>
         else Inr \<lparr> llm_content = ''Executing tools...'', toolCalls = Some [openCall],
                    requiresTools = True \<rparr>),
       followUpAnswer = (\<lambda>asked. Inr \<lparr> llm_content = ''Done'', toolCalls = None, requiresTools = False \<rparr>),
       callToolAnswer = (\<lambda>asked.
         if last asked = AskCallTool ''remote_macos_get_screen'' (JObj [])
         then Inr imageResult else Inr (textResult ''remote_macos_open_application'')),
       dateNow = (\<lambda>asked. 0),
       numberToText = (\<lambda>n. []) \<rparr>"





subsection \<open>History truncation\<close>

lemma lastN_length: "length (lastN n xs) \<le> n"
  by (simp add: lastN_def)

lemma lastN_snoc: "lastN n (lastN n xs @ [x]) = lastN n (xs @ [x])"
  by (cases "length xs \<le> n") (auto simp: lastN_def Suc_diff_le)

lemma add_context_other:
  "sid' \<noteq> sid \<Longrightarrow>
   getConversationContext (addToConversationContext convs sid m) sid' = getConversationContext convs sid'"
  by (simp add: addToConversationContext_def getConversationContext_def Let_def)

lemma add_context_same:
  "getConversationContext (addToConversationContext convs sid m) sid =
     lastN MAX_CONTEXT_MESSAGES (getConversationContext convs sid @ [m])"
  by (auto simp: addToConversationContext_def getConversationContext_def Let_def lastN_def)

lemma appendAll_context:
  "getConversationContext convs sid = lastN MAX_CONTEXT_MESSAGES old \<Longrightarrow>
   getConversationContext (appendAll convs ops) sid =
     lastN MAX_CONTEXT_MESSAGES (old @ appendedTo sid ops)"
proof (induction ops arbitrary: convs old)
  case Nil
  then show ?case by (simp add: appendedTo_def)
next
  case (Cons p ops)
  obtain s m where p: "p = (s, m)" by (cases p)
  show ?case
  proof (cases "s = sid")
    case True
    have "getConversationContext (addToConversationContext convs sid m) sid =
            lastN MAX_CONTEXT_MESSAGES (old @ [m])"
      using Cons.prems by (simp add: add_context_same lastN_snoc)
    from Cons.IH [OF this] show ?thesis
      using p True by (simp add: appendedTo_def)
  next
    case False
    have "getConversationContext (addToConversationContext convs s m) sid =
            lastN MAX_CONTEXT_MESSAGES old"
      using Cons.prems False by (simp add: add_context_other)
    from Cons.IH [OF this] show ?thesis
      using p False by (simp add: appendedTo_def)
  qed
qed

text \<open>
  Claim C9. Starting from the empty history map of a new \<^verbatim>\<open>LLMService\<close>, after any
  sequence of appends (to any sessions, interleaved in any way) the history stored for
  every session has at most \<open>MAX_CONTEXT_MESSAGES = 20\<close> messages, and it is exactly
  the last 20 messages appended to that session, in the order they were appended: the
  truncation only ever removes from the oldest end.
\<close>

theorem history_bounded_most_recent:
  "length (getConversationContext (appendAll Map.empty ops) sid) \<le> 20 \<and>
   getConversationContext (appendAll Map.empty ops) sid =
     drop (length (appendedTo sid ops) - 20) (appendedTo sid ops)"
proof -
  have "getConversationContext Map.empty sid = lastN MAX_CONTEXT_MESSAGES []"
    by (simp add: getConversationContext_def lastN_def)
  from appendAll_context [OF this, of ops]
  have eq: "getConversationContext (appendAll Map.empty ops) sid =
              lastN MAX_CONTEXT_MESSAGES (appendedTo sid ops)"
    by simp
  show ?thesis
    using lastN_length [of MAX_CONTEXT_MESSAGES "appendedTo sid ops"]
    by (simp add: eq lastN_def MAX_CONTEXT_MESSAGES_def)
qed

section \<open>Protocol Client: bookkeeping lemmas\<close>

lemma settle_fields [simp]:
  "mcpProcess (settle h out s) = mcpProcess s"
  "connected (settle h out s) = connected s"
  "tools (settle h out s) = tools s"
  "responseBuffer (settle h out s) = responseBuffer s"
  "pendingRequests (settle h out s) = pendingRequests s"
  "timers (settle h out s) = timers s"
  "nextHandle (settle h out s) = nextHandle s"
  "clock (settle h out s) = clock s"
  "stdinWritten (settle h out s) = stdinWritten s"
  by (simp_all add: settle_def split: option.splits)

lemma settle_promises:
  "promises (settle h out s) h' =
     (if h' = h \<and> promises s h = None then Some out else promises s h')"
  by (simp add: settle_def split: option.splits)

lemma clearTimeout_fields [simp]:
  "mcpProcess (clearTimeout h s) = mcpProcess s"
  "connected (clearTimeout h s) = connected s"
  "tools (clearTimeout h s) = tools s"
  "responseBuffer (clearTimeout h s) = responseBuffer s"
  "pendingRequests (clearTimeout h s) = pendingRequests s"
  "timers (clearTimeout h s) = filter (\<lambda>t. fst t \<noteq> h) (timers s)"
  "promises (clearTimeout h s) = promises s"
  "nextHandle (clearTimeout h s) = nextHandle s"
  "clock (clearTimeout h s) = clock s"
  "stdinWritten (clearTimeout h s) = stdinWritten s"
  by (simp_all add: clearTimeout_def)

lemma rejectLoop_fields:
  fixes err es
  defines "loop \<equiv> \<lambda>s. foldl (\<lambda>s' entry. settle (snd entry) (Rejected err) (clearTimeout (snd entry) s')) s es"
  shows
  "mcpProcess (loop s) = mcpProcess s"
  "connected (loop s) = connected s"
  "tools (loop s) = tools s"
  "responseBuffer (loop s) = responseBuffer s"
  "pendingRequests (loop s) = pendingRequests s"
  "nextHandle (loop s) = nextHandle s"
  "clock (loop s) = clock s"
  "stdinWritten (loop s) = stdinWritten s"
  "timers (loop s) = filter (\<lambda>t. fst t \<notin> snd ` set es) (timers s)"
  "promises (loop s) h =
     (if h \<in> snd ` set es \<and> promises s h = None then Some (Rejected err) else promises s h)"
  unfolding loop_def
  by (induction es arbitrary: s; auto simp: settle_promises intro: filter_cong)+

lemma rejectPending_fields:
  "mcpProcess (rejectPendingRequests err s) = mcpProcess s"
  "connected (rejectPendingRequests err s) = connected s"
  "tools (rejectPendingRequests err s) = tools s"
  "responseBuffer (rejectPendingRequests err s) = responseBuffer s"
  "pendingRequests (rejectPendingRequests err s) = []"
  "nextHandle (rejectPendingRequests err s) = nextHandle s"
  "clock (rejectPendingRequests err s) = clock s"
  "stdinWritten (rejectPendingRequests err s) = stdinWritten s"
  "timers (rejectPendingRequests err s) = filter (\<lambda>t. fst t \<notin> snd ` set (pendingRequests s)) (timers s)"
  "promises (rejectPendingRequests err s) h =
     (if h \<in> snd ` set (pendingRequests s) \<and> promises s h = None then Some (Rejected err) else promises s h)"
  by (simp_all add: rejectPendingRequests_def rejectLoop_fields)

lemma timeoutCallback_fields [simp]:
  "mcpProcess (timeoutCallback h r s) = mcpProcess s"
  "connected (timeoutCallback h r s) = connected s"
  "tools (timeoutCallback h r s) = tools s"
  "responseBuffer (timeoutCallback h r s) = responseBuffer s"
  "pendingRequests (timeoutCallback h r s) = filter (\<lambda>p. fst p \<noteq> r) (pendingRequests s)"
  "timers (timeoutCallback h r s) = timers s"
  "nextHandle (timeoutCallback h r s) = nextHandle s"
  "clock (timeoutCallback h r s) = clock s"
  "stdinWritten (timeoutCallback h r s) = stdinWritten s"
  by (auto simp add: timeoutCallback_def AList.delete_eq intro: filter_cong)

lemma timeoutCallback_promises:
  "promises (timeoutCallback h r s) h' =
     (if h' = h \<and> promises s h = None then Some (Rejected (Error ''MCP request timeout''))
      else promises s h')"
  by (simp add: timeoutCallback_def settle_promises)

lemma fireLoop_fields:
  fixes due
  defines "loop \<equiv> \<lambda>s. foldl (\<lambda>s' t. timeoutCallback (fst t) (snd (snd t)) s') s due"
  shows
  "mcpProcess (loop s) = mcpProcess s"
  "connected (loop s) = connected s"
  "tools (loop s) = tools s"
  "responseBuffer (loop s) = responseBuffer s"
  "timers (loop s) = timers s"
  "nextHandle (loop s) = nextHandle s"
  "clock (loop s) = clock s"
  "stdinWritten (loop s) = stdinWritten s"
  "pendingRequests (loop s) = filter (\<lambda>p. fst p \<notin> (snd \<circ> snd) ` set due) (pendingRequests s)"
  "promises (loop s) h =
     (if h \<in> fst ` set due \<and> promises s h = None
      then Some (Rejected (Error ''MCP request timeout'')) else promises s h)"
  unfolding loop_def
  by (induction due arbitrary: s; auto simp: timeoutCallback_promises intro: filter_cong)+

lemma elapse_fields:
  "mcpProcess (elapse d s) = mcpProcess s"
  "connected (elapse d s) = connected s"
  "tools (elapse d s) = tools s"
  "responseBuffer (elapse d s) = responseBuffer s"
  "timers (elapse d s) = filter (\<lambda>t. \<not> fst (snd t) \<le> clock s + d) (timers s)"
  "nextHandle (elapse d s) = nextHandle s"
  "clock (elapse d s) = clock s + d"
  "stdinWritten (elapse d s) = stdinWritten s"
  "pendingRequests (elapse d s) =
     filter (\<lambda>p. fst p \<notin> (snd \<circ> snd) ` {t \<in> set (timers s). fst (snd t) \<le> clock s + d}) (pendingRequests s)"
  "promises (elapse d s) h =
     (if h \<in> fst ` {t \<in> set (timers s). fst (snd t) \<le> clock s + d} \<and> promises s h = None
      then Some (Rejected (Error ''MCP request timeout'')) else promises s h)"
  by (simp_all add: elapse_def Let_def fireLoop_fields)

lemma consistent_new: "consistent (newClient t)"
  by (simp add: consistent_def newClient_def)

lemma consistent_timerD:
  "consistent s \<Longrightarrow> (h, d, r) \<in> set (timers s) \<Longrightarrow>
     promises s h = None \<and> h < nextHandle s \<and> clock s < d"
  unfolding consistent_def by blast

lemma consistent_pendingD:
  "consistent s \<Longrightarrow> (r, h) \<in> set (pendingRequests s) \<Longrightarrow> \<exists>d. (h, d, r) \<in> set (timers s)"
  unfolding consistent_def by blast

lemma consistent_freshD:
  "consistent s \<Longrightarrow> nextHandle s \<le> h \<Longrightarrow> promises s h = None"
  unfolding consistent_def by blast

lemma consistent_handle_unique:
  assumes "consistent s" "(r, h) \<in> set (pendingRequests s)" "(r', h) \<in> set (pendingRequests s)"
  shows "r' = r"
proof -
  from assms obtain d d' where "(h, d, r) \<in> set (timers s)" "(h, d', r') \<in> set (timers s)"
    unfolding consistent_def by blast
  moreover from assms have "distinct (map fst (timers s))"
    by (simp add: consistent_def)
  ultimately show ?thesis
    by (metis eq_key_imp_eq_value prod.inject)
qed


lemma consistent_elapse:
  assumes c: "consistent s"
  shows "consistent (elapse d s)"
proof -
  have dt: "distinct (map fst (timers s))" using c by (simp add: consistent_def)
  show ?thesis
    unfolding consistent_def
  proof (intro conjI allI impI)
    fix r h assume "(r, h) \<in> set (pendingRequests (elapse d s))"
    then have in_p: "(r, h) \<in> set (pendingRequests s)"
      and nd: "r \<notin> (snd \<circ> snd) ` {t \<in> set (timers s). fst (snd t) \<le> clock s + d}"
      by (auto simp: elapse_fields)
    from c in_p obtain dl where t: "(h, dl, r) \<in> set (timers s)"
      unfolding consistent_def by blast
    with nd have "\<not> dl \<le> clock s + d" by force
    with t show "\<exists>dl. (h, dl, r) \<in> set (timers (elapse d s))"
      by (auto simp: elapse_fields)
  next
    fix h dl r assume "(h, dl, r) \<in> set (timers (elapse d s))"
    then have t: "(h, dl, r) \<in> set (timers s)" and nd: "\<not> dl \<le> clock s + d"
      by (auto simp: elapse_fields)
    have "h \<notin> fst ` {t \<in> set (timers s). fst (snd t) \<le> clock s + d}"
    proof
      assume "h \<in> fst ` {t \<in> set (timers s). fst (snd t) \<le> clock s + d}"
      then obtain dl' r' where "(h, dl', r') \<in> set (timers s)" "dl' \<le> clock s + d"
        by auto
      with t dt have "dl' = dl" by (metis eq_key_imp_eq_value prod.inject)
      with \<open>dl' \<le> clock s + d\<close> nd show False by simp
    qed
    moreover from c t have "promises s h = None" "h < nextHandle s"
      unfolding consistent_def by blast+
    ultimately have "promises (elapse d s) h = None \<and> h < nextHandle (elapse d s) \<and> clock (elapse d s) < dl"
      using nd by (simp add: elapse_fields)
    then show "promises (elapse d s) h = None" "h < nextHandle (elapse d s)" "clock (elapse d s) < dl"
      by simp_all
  next
    show "distinct (map fst (timers (elapse d s)))"
      using dt by (simp add: elapse_fields distinct_map_filter)
  next
    show "distinct (map fst (pendingRequests (elapse d s)))"
      using c by (simp add: elapse_fields consistent_def distinct_map_filter)
  next
    fix h assume "nextHandle (elapse d s) \<le> h"
    then have "nextHandle s \<le> h" by (simp add: elapse_fields)
    with c have "promises s h = None" unfolding consistent_def by blast
    moreover have "h \<notin> fst ` {t \<in> set (timers s). fst (snd t) \<le> clock s + d}"
    proof
      assume "h \<in> fst ` {t \<in> set (timers s). fst (snd t) \<le> clock s + d}"
      then obtain dl r where "(h, dl, r) \<in> set (timers s)" by auto
      with c have "h < nextHandle s" unfolding consistent_def by blast
      with \<open>nextHandle s \<le> h\<close> show False by simp
    qed
    ultimately show "promises (elapse d s) h = None" by (simp add: elapse_fields)
  qed
qed

lemma consistent_reject:
  assumes c: "consistent s"
  shows "consistent (rejectPendingRequests err s)"
  unfolding consistent_def
proof (intro conjI allI impI)
  fix r h assume "(r, h) \<in> set (pendingRequests (rejectPendingRequests err s))"
  then show "\<exists>d. (h, d, r) \<in> set (timers (rejectPendingRequests err s))"
    by (simp add: rejectPending_fields)
next
  fix h d r assume "(h, d, r) \<in> set (timers (rejectPendingRequests err s))"
  then have t: "(h, d, r) \<in> set (timers s)" and nh: "h \<notin> snd ` set (pendingRequests s)"
    by (auto simp: rejectPending_fields)
  from c t have "promises s h = None" "h < nextHandle s" "clock s < d"
    unfolding consistent_def by blast+
  then have "promises (rejectPendingRequests err s) h = None \<and>
        h < nextHandle (rejectPendingRequests err s) \<and> clock (rejectPendingRequests err s) < d"
    using nh by (simp add: rejectPending_fields)
  then show "promises (rejectPendingRequests err s) h = None"
    "h < nextHandle (rejectPendingRequests err s)" "clock (rejectPendingRequests err s) < d"
    by simp_all
next
  show "distinct (map fst (timers (rejectPendingRequests err s)))"
    using c by (simp add: rejectPending_fields consistent_def distinct_map_filter)
next
  show "distinct (map fst (pendingRequests (rejectPendingRequests err s)))"
    by (simp add: rejectPending_fields)
next
  fix h assume "nextHandle (rejectPendingRequests err s) \<le> h"
  then have n: "nextHandle s \<le> h" by (simp add: rejectPending_fields)
  with c have "promises s h = None" unfolding consistent_def by blast
  moreover have "h \<notin> snd ` set (pendingRequests s)"
  proof
    assume "h \<in> snd ` set (pendingRequests s)"
    then obtain r where "(r, h) \<in> set (pendingRequests s)" by auto
    with c obtain d where "(h, d, r) \<in> set (timers s)" unfolding consistent_def by blast
    with c have "h < nextHandle s" unfolding consistent_def by blast
    with n show False by simp
  qed
  ultimately show "promises (rejectPendingRequests err s) h = None"
    by (simp add: rejectPending_fields)
qed

lemma consistent_flags:
  "consistent (s\<lparr> connected := b \<rparr>) = consistent s"
  "consistent (s\<lparr> mcpProcess := p \<rparr>) = consistent s"
  "consistent (s\<lparr> tools := ts \<rparr>) = consistent s"
  "consistent (s\<lparr> responseBuffer := buf \<rparr>) = consistent s"
  "consistent (s\<lparr> stdinWritten := w \<rparr>) = consistent s"
  by (simp_all add: consistent_def)


lemma set_update_subset: "set (AList.update k v al) \<subseteq> insert (k, v) (set al)"
  by (induction al) auto

lemma consistent_wait:
  assumes c: "consistent s"
  shows "consistent (snd (waitForResponse rid s))"
proof -
  let ?h = "nextHandle s"
  have fresh: "\<And>d r. (?h, d, r) \<notin> set (timers s)"
    using c unfolding consistent_def by (metis less_irrefl)
  have p_in: "\<And>r h. (r, h) \<in> set (AList.update rid ?h (pendingRequests s)) \<Longrightarrow>
                 (r, h) = (rid, ?h) \<or> (r, h) \<in> set (pendingRequests s)"
    using set_update_subset by fastforce
  show ?thesis
    unfolding consistent_def
  proof (intro conjI allI impI)
    fix r h assume "(r, h) \<in> set (pendingRequests (snd (waitForResponse rid s)))"
    then have "(r, h) = (rid, ?h) \<or> (r, h) \<in> set (pendingRequests s)"
      using p_in by (simp add: waitForResponse_def Let_def)
    then show "\<exists>d. (h, d, r) \<in> set (timers (snd (waitForResponse rid s)))"
    proof
      assume "(r, h) = (rid, ?h)"
      then show ?thesis by (auto simp: waitForResponse_def Let_def)
    next
      assume "(r, h) \<in> set (pendingRequests s)"
      with c obtain d where "(h, d, r) \<in> set (timers s)" unfolding consistent_def by blast
      then show ?thesis by (auto simp: waitForResponse_def Let_def)
    qed
  next
    fix h d r assume t: "(h, d, r) \<in> set (timers (snd (waitForResponse rid s)))"
    then have "(h, d, r) = (?h, clock s + 45000, rid) \<or> (h, d, r) \<in> set (timers s)"
      by (auto simp: waitForResponse_def Let_def)
    then have "promises s h = None \<and> h < Suc (nextHandle s) \<and> clock s < d"
    proof
      assume "(h, d, r) = (?h, clock s + 45000, rid)"
      then show ?thesis using consistent_freshD [OF c, of ?h] by simp
    next
      assume "(h, d, r) \<in> set (timers s)"
      from consistent_timerD [OF c this] show ?thesis by simp
    qed
    then show "promises (snd (waitForResponse rid s)) h = None"
      "h < nextHandle (snd (waitForResponse rid s))" "clock (snd (waitForResponse rid s)) < d"
      by (simp_all add: waitForResponse_def Let_def)
  next
    have "?h \<notin> fst ` set (timers s)" using fresh by force
    then show "distinct (map fst (timers (snd (waitForResponse rid s))))"
      using c by (simp add: waitForResponse_def Let_def consistent_def)
  next
    show "distinct (map fst (pendingRequests (snd (waitForResponse rid s))))"
      using c by (simp add: waitForResponse_def Let_def consistent_def AList.distinct_update)
  next
    fix h assume "nextHandle (snd (waitForResponse rid s)) \<le> h"
    then have "nextHandle s \<le> h" by (simp add: waitForResponse_def Let_def)
    with c show "promises (snd (waitForResponse rid s)) h = None"
      unfolding consistent_def by (simp add: waitForResponse_def Let_def)
  qed
qed

lemma consistent_dispatch:
  assumes c: "consistent s"
  shows "consistent (dispatch resp s)"
proof (cases "handleResponse resp s")
  case (Inl e)
  then show ?thesis using c by (simp add: dispatch_def)
next
  case (Inr s')
  then have d: "dispatch resp s = s'" by (simp add: dispatch_def)
  from Inr obtain rid where rid: "getProp resp ''id'' = Inr rid"
    by (auto simp: handleResponse_def andThen_def split: sum.splits)
  show ?thesis
  proof (cases "if truthy rid then pendingGet (pendingRequests s) rid else None")
    case None
    with Inr rid have "s' = s" by (simp add: handleResponse_def andThen_def)
    with c d show ?thesis by simp
  next
    case (Some h)
    then obtain n where n: "rid = JNum n" and m: "map_of (pendingRequests s) n = Some h"
      by (cases rid) (auto split: if_splits)
    have s': "s' = settle h (Resolved resp) (clearTimeout h (s\<lparr> pendingRequests := AList.delete n (pendingRequests s) \<rparr>))"
      using Inr rid Some n m by (auto simp: handleResponse_def andThen_def split: if_splits)
    have dt: "distinct (map fst (timers s))" and dp: "distinct (map fst (pendingRequests s))"
      using c by (simp_all add: consistent_def)
    from m have inp: "(n, h) \<in> set (pendingRequests s)" by (rule map_of_SomeD)
    have "consistent s'"
      unfolding consistent_def
    proof (intro conjI allI impI)
      fix r h' assume "(r, h') \<in> set (pendingRequests s')"
      then have rp: "(r, h') \<in> set (pendingRequests s)" and rn: "r \<noteq> n"
        by (auto simp: s' AList.delete_eq)
      from c rp obtain dl where t: "(h', dl, r) \<in> set (timers s)"
        unfolding consistent_def by blast
      have "h' \<noteq> h" using consistent_handle_unique [OF c inp] rp rn by blast
      with t show "\<exists>dl. (h', dl, r) \<in> set (timers s')" by (auto simp: s')
    next
      fix h' dl r assume "(h', dl, r) \<in> set (timers s')"
      then have t: "(h', dl, r) \<in> set (timers s)" and ne: "h' \<noteq> h" by (auto simp: s')
      from c t have "promises s h' = None \<and> h' < nextHandle s \<and> clock s < dl"
        unfolding consistent_def by blast
      then show "promises s' h' = None" "h' < nextHandle s'" "clock s' < dl"
        using ne by (simp_all add: s' settle_promises)
    next
      show "distinct (map fst (timers s'))" using dt by (simp add: s' distinct_map_filter)
    next
      show "distinct (map fst (pendingRequests s'))" using dp by (simp add: s' AList.distinct_delete)
    next
      fix h' assume "nextHandle s' \<le> h'"
      then have ge: "nextHandle s \<le> h'" by (simp add: s')
      from c inp obtain dl where "(h, dl, n) \<in> set (timers s)" unfolding consistent_def by blast
      with c have "h < nextHandle s" unfolding consistent_def by blast
      with ge have "h' \<noteq> h" by simp
      moreover from c ge have "promises s h' = None" unfolding consistent_def by blast
      ultimately show "promises s' h' = None" by (simp add: s' settle_promises)
    qed
    with d show ?thesis by simp
  qed
qed

lemma consistent_callToolSend:
  "consistent s \<Longrightarrow> consistent (snd (callToolSend w toolname args rid s))"
proof -
  assume c: "consistent s"
  have "consistent (s\<lparr> stdinWritten := stdinWritten s @ [toolsCallRequest toolname args rid] \<rparr>)"
    using c by (simp add: consistent_flags)
  from consistent_wait [OF this, of rid] show ?thesis
    using c by (auto simp: callToolSend_def Let_def split: prod.splits)
qed

lemma consistent_step: "consistent s \<Longrightarrow> consistent (step s ev)"
proof (cases ev)
  case (Elapse d)
  assume "consistent s"
  then show ?thesis using Elapse by (simp add: consistent_elapse)
next
  case (Response r)
  assume "consistent s"
  then show ?thesis using Response by (simp add: consistent_dispatch)
qed (simp_all add: spawnProcess_def connectReady_def loadTools_def onError_def onExit_def
       disconnect_def consistent_flags consistent_reject consistent_callToolSend)

lemma consistent_run: "consistent s \<Longrightarrow> consistent (run evs s)"
  unfolding run_def by (induction evs arbitrary: s) (simp_all add: consistent_step)

lemma run_append: "run (xs @ ys) s = run ys (run xs s)"
  by (simp add: run_def)

lemma run_Cons: "run (e # es) s = run es (step s e)"
  by (simp add: run_def)

lemma run_Nil: "run [] s = s"
  by (simp add: run_def)

section \<open>Protocol Client: process failure\<close>

lemma dispatch_connected [simp]: "connected (dispatch r s) = connected s"
  by (auto simp: dispatch_def handleResponse_def andThen_def split: sum.splits option.splits)





lemmas client_defs = run_def newClient_def spawnProcess_def connectReady_def loadTools_def
  callToolSend_def waitForResponse_def Let_def onExit_def onError_def

lemma two_calls_pending: "pendingRequests (run [Spawn 7, Ready, CallTool True ''a'' JNull 5, CallTool True ''b'' JNull 6] (newClient 0)) = [(5, 0), (6, 1)]"
  by (simp add: client_defs)


lemma connectReady_fields [simp]:
  "connected (connectReady s)" "mcpProcess (connectReady s) = mcpProcess s"
  "nextHandle (connectReady s) = nextHandle s" "stdinWritten (connectReady s) = stdinWritten s"
  by (simp_all add: connectReady_def loadTools_def)






section \<open>Protocol Client: request timeout\<close>

lemma map_of_filter_keys:
  "map_of (filter (\<lambda>p. fst p \<notin> S) xs) k = (if k \<in> S then None else map_of xs k)"
  by (induction xs) auto

lemma step_keeps_outcome:
  "promises s h = Some out \<Longrightarrow> promises (step s ev) h = Some out"
proof (cases ev)
  case (Response r)
  assume "promises s h = Some out"
  then show ?thesis using Response
    by (auto simp: dispatch_def handleResponse_def andThen_def settle_promises
             split: sum.splits option.splits)
next
  case (CallTool w toolname args rid)
  assume "promises s h = Some out"
  then show ?thesis using CallTool
    by (auto simp: callToolSend_def waitForResponse_def Let_def)
qed (simp_all add: spawnProcess_def connectReady_def loadTools_def onError_def onExit_def
       disconnect_def elapse_fields rejectPending_fields)

lemma waiting_unsettled: "waiting h dl rid s \<Longrightarrow> promises s h = None"
  unfolding waiting_def using consistent_timerD by blast

lemma waiting_clock: "waiting h dl rid s \<Longrightarrow> clock s < dl"
  unfolding waiting_def using consistent_timerD by blast

lemma waiting_elapse_before:
  assumes w: "waiting h dl rid s" and b: "clock s + d < dl"
  shows "waiting h dl rid (elapse d s)"
proof -
  from w have c: "consistent s" and t: "(h, dl, rid) \<in> set (timers s)"
    and p: "map_of (pendingRequests s) rid = Some h"
    and u: "\<forall>t \<in> set (timers s). snd (snd t) = rid \<longrightarrow> fst t = h"
    by (simp_all add: waiting_def)
  have dt: "distinct (map fst (timers s))" using c by (simp add: consistent_def)
  have nd: "rid \<notin> (snd \<circ> snd) ` {t \<in> set (timers s). fst (snd t) \<le> clock s + d}"
  proof
    assume "rid \<in> (snd \<circ> snd) ` {t \<in> set (timers s). fst (snd t) \<le> clock s + d}"
    then obtain h' dl' where t': "(h', dl', rid) \<in> set (timers s)" and due: "dl' \<le> clock s + d"
      by auto
    from u t' have "h' = h" by auto
    with t t' dt have "dl' = dl" by (metis eq_key_imp_eq_value prod.inject)
    with due b show False by simp
  qed
  show ?thesis
    unfolding waiting_def
    using consistent_elapse [OF c] t b p u nd
    by (auto simp: elapse_fields map_of_filter_keys)
qed

lemma waiting_elapse_after:
  assumes w: "waiting h dl rid s" and b: "dl \<le> clock s + d"
  shows "timedOut h rid (elapse d s)"
proof -
  from w have c: "consistent s" and t: "(h, dl, rid) \<in> set (timers s)"
    by (simp_all add: waiting_def)
  have un: "promises s h = None" using waiting_unsettled [OF w] .
  have due: "(h, dl, rid) \<in> {t \<in> set (timers s). fst (snd t) \<le> clock s + d}"
    using t b by simp
  then have "h \<in> fst ` {t \<in> set (timers s). fst (snd t) \<le> clock s + d}"
    and "rid \<in> (snd \<circ> snd) ` {t \<in> set (timers s). fst (snd t) \<le> clock s + d}"
    by force+
  then show ?thesis
    unfolding timedOut_def
    using consistent_elapse [OF c] un
    by (simp add: elapse_fields map_of_filter_keys)
qed


lemma waiting_dispatch:
  assumes w: "waiting h dl rid s" and q: "getProp r ''id'' \<noteq> Inr (JNum rid)"
  shows "waiting h dl rid (dispatch r s)"
proof (cases "handleResponse r s")
  case (Inl e)
  then show ?thesis using w by (simp add: dispatch_def)
next
  case (Inr s')
  then have d: "dispatch r s = s'" by (simp add: dispatch_def)
  from w have c: "consistent s" and t: "(h, dl, rid) \<in> set (timers s)"
    and p: "map_of (pendingRequests s) rid = Some h"
    and u: "\<forall>t \<in> set (timers s). snd (snd t) = rid \<longrightarrow> fst t = h"
    by (simp_all add: waiting_def)
  have cs': "consistent s'" using consistent_dispatch [OF c, of r] d by simp
  from Inr obtain v where v: "getProp r ''id'' = Inr v"
    by (auto simp: handleResponse_def andThen_def split: sum.splits)
  show ?thesis
  proof (cases "if truthy v then pendingGet (pendingRequests s) v else None")
    case None
    with Inr v have "s' = s" by (simp add: handleResponse_def andThen_def)
    with w d show ?thesis by simp
  next
    case (Some h')
    then obtain n where n: "v = JNum n" and m: "map_of (pendingRequests s) n = Some h'"
      by (cases v) (auto split: if_splits)
    from q v n have ne: "n \<noteq> rid" by simp
    have s': "s' = settle h' (Resolved r) (clearTimeout h' (s\<lparr> pendingRequests := AList.delete n (pendingRequests s) \<rparr>))"
      using Inr v Some n m by (auto simp: handleResponse_def andThen_def split: if_splits)
    from m have "(n, h') \<in> set (pendingRequests s)" by (rule map_of_SomeD)
    moreover from p have "(rid, h) \<in> set (pendingRequests s)" by (rule map_of_SomeD)
    ultimately have hh: "h' \<noteq> h" using consistent_handle_unique [OF c] ne by blast
    have "(h, dl, rid) \<in> set (timers s')" using t hh by (simp add: s')
    moreover have "map_of (pendingRequests s') rid = Some h"
      using p ne by (simp add: s' AList.delete_conv')
    moreover have "\<forall>t \<in> set (timers s'). snd (snd t) = rid \<longrightarrow> fst t = h"
      using u by (simp add: s')
    ultimately show ?thesis using cs' d by (simp add: waiting_def)
  qed
qed

lemma waiting_call:
  assumes w: "waiting h dl rid s" and q: "rid' \<noteq> rid"
  shows "waiting h dl rid (snd (callToolSend wr toolname args rid' s))"
proof -
  from w have c: "consistent s" by (simp add: waiting_def)
  have "consistent (snd (callToolSend wr toolname args rid' s))"
    using c by (rule consistent_callToolSend)
  then show ?thesis
    using w q unfolding waiting_def
    by (auto simp: callToolSend_def waitForResponse_def Let_def AList.update_conv')
qed

lemma waiting_step:
  assumes w: "waiting h dl rid s" and q: "quietFor rid ev" and b: "clock s + elapsed [ev] < dl"
  shows "waiting h dl rid (step s ev)"
proof (cases ev)
  case (Elapse d)
  then show ?thesis using waiting_elapse_before [OF w, of d] b by simp
next
  case (Response r)
  then show ?thesis using waiting_dispatch [OF w, of r] q by simp
next
  case (CallTool wr toolname args rid')
  then show ?thesis using waiting_call [OF w, of rid'] q by simp
next
  case (Spawn pid)
  then show ?thesis using w by (simp add: waiting_def spawnProcess_def consistent_flags)
next
  case Ready
  then show ?thesis using w
    by (simp add: waiting_def connectReady_def loadTools_def consistent_flags)
qed (use q in simp_all)

lemma timedOut_step:
  assumes w: "timedOut h rid s" and q: "quietFor rid ev"
  shows "timedOut h rid (step s ev)"
proof -
  from w have c: "consistent s"
    and o: "promises s h = Some (Rejected (Error ''MCP request timeout''))"
    and p: "map_of (pendingRequests s) rid = None"
    by (simp_all add: timedOut_def)
  have "map_of (pendingRequests (step s ev)) rid = None"
  proof (cases ev)
    case (Response r)
    have "map_of (pendingDelete v (pendingRequests s)) rid = None" for v
      using p by (cases v) (simp_all add: AList.delete_conv')
    then show ?thesis using p Response
      by (auto simp: dispatch_def handleResponse_def andThen_def
               split: sum.splits option.splits)
  next
    case (CallTool wr toolname args rid')
    then show ?thesis using p q
      by (auto simp: callToolSend_def waitForResponse_def Let_def AList.update_conv')
  next
    case (Elapse d)
    then show ?thesis using p by (simp add: elapse_fields map_of_filter_keys)
  qed (use p in \<open>simp_all add: spawnProcess_def connectReady_def loadTools_def onError_def
        onExit_def disconnect_def rejectPending_fields\<close>)
  then show ?thesis
    unfolding timedOut_def
    using consistent_step [OF c] step_keeps_outcome [OF o] by simp
qed


lemma elapsed_Cons: "elapsed (e # es) = elapsed [e] + elapsed es"
  by (cases e) simp_all

lemma step_clock: "clock (step s ev) = clock s + elapsed [ev]"
proof (cases ev)
  case (Response r)
  then show ?thesis
    by (auto simp: dispatch_def handleResponse_def andThen_def split: sum.splits option.splits)
next
  case (CallTool wr toolname args rid)
  then show ?thesis by (auto simp: callToolSend_def waitForResponse_def Let_def)
qed (simp_all add: spawnProcess_def connectReady_def loadTools_def onError_def onExit_def
       disconnect_def elapse_fields rejectPending_fields)

lemma timedOut_run:
  "timedOut h rid s \<Longrightarrow> \<forall>e \<in> set later. quietFor rid e \<Longrightarrow> timedOut h rid (run later s)"
proof (induction later arbitrary: s)
  case Nil
  then show ?case by (simp add: run_Nil)
next
  case (Cons e es)
  then show ?case using timedOut_step [of h rid s e] by (simp add: run_Cons)
qed

lemma waiting_run:
  assumes "waiting h dl rid s" and "\<forall>e \<in> set later. quietFor rid e"
  shows "(clock s + elapsed later < dl \<longrightarrow> waiting h dl rid (run later s)) \<and>
         (dl \<le> clock s + elapsed later \<longrightarrow> timedOut h rid (run later s))"
  using assms
proof (induction later arbitrary: s)
  case Nil
  then show ?case using waiting_clock [of h dl rid s] by (simp add: run_Nil)
next
  case (Cons e es)
  have q: "quietFor rid e" and qs: "\<forall>e \<in> set es. quietFor rid e" using Cons.prems by simp_all
  show ?case
  proof (cases "clock s + elapsed [e] < dl")
    case True
    have w': "waiting h dl rid (step s e)" using waiting_step [OF Cons.prems(1) q True] .
    from Cons.IH [OF w' qs] show ?thesis
      by (simp add: run_Cons step_clock elapsed_Cons [of e es] add.assoc)
  next
    case False
    then obtain d where e: "e = Elapse d"
      using waiting_clock [OF Cons.prems(1)] by (cases e) simp_all
    have "timedOut h rid (step s e)"
      using waiting_elapse_after [OF Cons.prems(1), of d] False e by simp
    from timedOut_run [OF this qs] show ?thesis
      using False by (simp add: run_Cons elapsed_Cons [of e es])
  qed
qed

lemma callToolSend_waiting:
  assumes c: "consistent s" and up: "connected s" "mcpProcess s \<noteq> None"
    and fresh: "\<forall>t \<in> set (timers s). snd (snd t) \<noteq> rid"
  shows "fst (callToolSend True toolname args rid s) = Awaits (nextHandle s) \<and>
         clock (snd (callToolSend True toolname args rid s)) = clock s \<and>
         waiting (nextHandle s) (clock s + 45000) rid (snd (callToolSend True toolname args rid s))"
proof -
  have "consistent (snd (callToolSend True toolname args rid s))"
    using c by (rule consistent_callToolSend)
  then show ?thesis
    using up fresh unfolding waiting_def
    by (auto simp: callToolSend_def waitForResponse_def Let_def AList.update_conv')
qed

text \<open>
  Claim C3. A connected client sends a \<^verbatim>\<open>callTool\<close> request whose id no outstanding
  request has. Whatever happens next other than a response with that id, the end of the
  process or connection, or a call taking the same id: while less than 45000 ms have
  passed the caller's promise is unsettled and the request is in the pending map; once
  45000 ms have passed the promise is rejected with "MCP request timeout" and the id is
  gone from the map. \<^verbatim>\<open>callTool\<close> turns that rejection into the Tool Result with
  \<^verbatim>\<open>success = false\<close> and the timeout message; it does not throw.
\<close>

theorem callTool_times_out:
  assumes s: "s = run evs (newClient t0)"
    and up: "connected s \<and> mcpProcess s \<noteq> None"
    and fresh: "\<forall>t \<in> set (timers s). snd (snd t) \<noteq> rid"
    and call: "callToolSend True toolname args rid s = (st, s1)"
    and quiet: "\<forall>e \<in> set later. quietFor rid e"
  shows "\<exists>h. st = Awaits h \<and>
      (elapsed later < 45000 \<longrightarrow>
         promises (run later s1) h = None \<and>
         map_of (pendingRequests (run later s1)) rid = Some h) \<and>
      (45000 \<le> elapsed later \<longrightarrow>
         promises (run later s1) h = Some (Rejected (Error ''MCP request timeout'')) \<and>
         map_of (pendingRequests (run later s1)) rid = None) \<and>
      callToolResult toolname (Rejected (Error ''MCP request timeout'')) =
        (toolResult False)\<lparr> error := JStr ''MCP request timeout'', toolName := JStr toolname \<rparr>"
proof -
  have c: "consistent s" using s consistent_run [OF consistent_new] by simp
  from callToolSend_waiting [OF c _ _ fresh, of toolname args] up call
  have st: "st = Awaits (nextHandle s)" and ck: "clock s1 = clock s"
    and w: "waiting (nextHandle s) (clock s + 45000) rid s1"
    by simp_all
  from waiting_run [OF w quiet] ck
  have before: "elapsed later < 45000 \<longrightarrow> waiting (nextHandle s) (clock s + 45000) rid (run later s1)"
    and after: "45000 \<le> elapsed later \<longrightarrow> timedOut (nextHandle s) rid (run later s1)"
    by simp_all
  have "callToolResult toolname (Rejected (Error ''MCP request timeout'')) =
        (toolResult False)\<lparr> error := JStr ''MCP request timeout'', toolName := JStr toolname \<rparr>"
    by (simp add: callToolResult_def caughtResult_def)
  then show ?thesis
    using st before after waiting_unsettled [of "nextHandle s" "clock s + 45000" rid "run later s1"]
    by (auto simp: waiting_def timedOut_def)
qed


theorem callTool_times_out_witness:
  "fst (callToolSend True ''remote_macos_get_screen'' (JObj []) 5 (run [Spawn 7, Ready] (newClient 1000)))
     = Awaits 0 \<and>
   promises (run [Response (JObj [(''id'', JNum 6)]), Elapse 44999]
      (snd (callToolSend True ''remote_macos_get_screen'' (JObj []) 5 (run [Spawn 7, Ready] (newClient 1000))))) 0
     = None \<and>
   map_of (pendingRequests (run [Response (JObj [(''id'', JNum 6)]), Elapse 44999]
      (snd (callToolSend True ''remote_macos_get_screen'' (JObj []) 5 (run [Spawn 7, Ready] (newClient 1000)))))) 5
     = Some 0 \<and>
   promises (run [Elapse 44999, Elapse 1]
      (snd (callToolSend True ''remote_macos_get_screen'' (JObj []) 5 (run [Spawn 7, Ready] (newClient 1000))))) 0
     = Some (Rejected (Error ''MCP request timeout'')) \<and>
   map_of (pendingRequests (run [Elapse 44999, Elapse 1]
      (snd (callToolSend True ''remote_macos_get_screen'' (JObj []) 5 (run [Spawn 7, Ready] (newClient 1000)))))) 5
     = None \<and>
   success (callToolResult ''remote_macos_get_screen'' (Rejected (Error ''MCP request timeout''))) = False"
proof -
  let ?s = "run [Spawn 7, Ready] (newClient 1000)"
  let ?c = "callToolSend True ''remote_macos_get_screen'' (JObj []) 5 ?s"
  have up: "connected ?s \<and> mcpProcess ?s \<noteq> None"
    by (simp add: client_defs)
  have fresh: "\<forall>t \<in> set (timers ?s). snd (snd t) \<noteq> 5"
    by (simp add: client_defs)
  have call: "?c = (fst ?c, snd ?c)" by simp
  have st: "fst ?c = Awaits 0"
    by (simp add: client_defs)
  have q1: "\<forall>e \<in> set [Response (JObj [(''id'', JNum 6)]), Elapse 44999]. quietFor 5 e"
    by simp
  have q2: "\<forall>e \<in> set [Elapse 44999, Elapse 1]. quietFor 5 e"
    by simp
  from callTool_times_out [OF refl up fresh call q1] callTool_times_out [OF refl up fresh call q2]
  show ?thesis
    by (simp add: st toolResult_def)
qed

section \<open>Protocol Client: responses are matched by id\<close>













section \<open>Protocol Client: connect, and the payload of Tool Results\<close>

lemma connect_fields:
  "stdinWritten (connect pid s) = stdinWritten s"
  "tools (connect pid s) = builtinTools"
  "connected (connect pid s)"
  by (simp_all add: connect_def connectReady_def loadTools_def elapse_fields spawnProcess_def)

text \<open>
  Claim C5 says that \<^verbatim>\<open>connect\<close> sends \<^verbatim>\<open>initialize\<close>, awaits the response,
  sends the \<^verbatim>\<open>initialized\<close> notification, then sends \<^verbatim>\<open>tools/list\<close> and takes the
  catalogue from its result. The code does not: on a new client, a \<^verbatim>\<open>connect\<close> that
  succeeds has written nothing to the subprocess, and the catalogue is the eight tools of
  the literal in \<^verbatim>\<open>loadTools\<close>, whatever the server would have listed.
\<close>

theorem connect_sends_no_handshake:
  "stdinWritten (connect 1 (newClient 0)) = [] \<and>
   isConnected (connect 1 (newClient 0)) \<and>
   map name (listTools (connect 1 (newClient 0))) =
     [''remote_macos_get_screen'', ''remote_macos_mouse_click'', ''remote_macos_mouse_double_click'',
      ''remote_macos_mouse_move'', ''remote_macos_mouse_scroll'', ''remote_macos_mouse_drag_n_drop'',
      ''remote_macos_send_keys'', ''remote_macos_open_application'']"
  by (simp add: connect_fields isConnected_def listTools_def builtinTools_def newClient_def)

lemma truthy_jsOr: "truthy b \<Longrightarrow> truthy (jsOr a b)"
  by (simp add: jsOr_def)

lemma getProp_message: "getProp v k = Inl e \<Longrightarrow> errorMessage e \<noteq> []"
  by (cases v) auto

lemma getIndex0_message: "getIndex0 v = Inl e \<Longrightarrow> errorMessage e \<noteq> []"
  by (cases v) (auto dest: getProp_message)

lemma translateResponse_throw:
  assumes "translateResponse toolname response = Inl e"
  shows "errorMessage e \<noteq> [] \<and> \<not> imageWithoutData response"
  using assms getProp_message getIndex0_message
  by (auto simp: translateResponse_def andThen_def imageWithoutData_def
           split: sum.splits if_splits)

lemma translateResponse_payload:
  assumes "translateResponse toolname response = Inr r"
  shows "(\<not> success r \<longrightarrow> populated (error r) \<and> \<not> populated (content r) \<and> \<not> populated (imageData r) \<and>
            \<not> imageWithoutData response) \<and>
         (success r \<longrightarrow> \<not> populated (error r) \<and>
            \<not> (populated (content r) \<and> populated (imageData r)) \<and>
            ((\<not> populated (content r) \<and> \<not> populated (imageData r)) \<longleftrightarrow> imageWithoutData response))"
  using assms
  by (auto simp: translateResponse_def andThen_def toolResult_def imageWithoutData_def
                 truthy_jsOr populated_def
           split: sum.splits if_splits)

lemma caughtResult_fields:
  "\<not> success (caughtResult toolname e)"
  "\<not> populated (content (caughtResult toolname e))"
  "\<not> populated (imageData (caughtResult toolname e))"
  "populated (error (caughtResult toolname e)) \<longleftrightarrow> errorMessage e \<noteq> []"
  by (simp_all add: caughtResult_def toolResult_def populated_def)

lemma callToolResult_payload:
  "(\<not> success (callToolResult toolname out) \<longrightarrow>
      \<not> populated (content (callToolResult toolname out)) \<and>
      \<not> populated (imageData (callToolResult toolname out)) \<and>
      (populated (error (callToolResult toolname out)) \<longleftrightarrow>
         \<not> (\<exists>e. out = Rejected e \<and> errorMessage e = []))) \<and>
   (success (callToolResult toolname out) \<longrightarrow>
      \<not> populated (error (callToolResult toolname out)) \<and>
      \<not> (populated (content (callToolResult toolname out)) \<and>
         populated (imageData (callToolResult toolname out))) \<and>
      ((\<not> populated (content (callToolResult toolname out)) \<and>
        \<not> populated (imageData (callToolResult toolname out))) \<longleftrightarrow>
       (\<exists>response. out = Resolved response \<and> imageWithoutData response)))"
proof (cases out)
  case (Rejected e)
  then have "callToolResult toolname out = caughtResult toolname e"
    by (simp add: callToolResult_def)
  then show ?thesis using Rejected caughtResult_fields [of toolname e] by simp
next
  case (Resolved response)
  show ?thesis
  proof (cases "translateResponse toolname response")
    case (Inl e)
    then have "callToolResult toolname out = caughtResult toolname e"
      using Resolved by (simp add: callToolResult_def)
    then show ?thesis
      using Resolved caughtResult_fields [of toolname e] translateResponse_throw [OF Inl] by simp
  next
    case (Inr r)
    then have "callToolResult toolname out = r" using Resolved by (simp add: callToolResult_def)
    then show ?thesis using translateResponse_payload [OF Inr] Resolved by auto
  qed
qed

lemma callToolResult_rule:
  "exactlyOnePayload (callToolResult toolname out) \<longleftrightarrow>
     \<not> (\<exists>e. out = Rejected e \<and> errorMessage e = []) \<and>
     \<not> (\<exists>response. out = Resolved response \<and> imageWithoutData response)"
proof (cases "success (callToolResult toolname out)")
  case True
  have "\<not> (\<exists>e. out = Rejected e \<and> errorMessage e = [])"
  proof
    assume "\<exists>e. out = Rejected e \<and> errorMessage e = []"
    then obtain e where "out = Rejected e" by blast
    then have "callToolResult toolname out = caughtResult toolname e"
      by (simp add: callToolResult_def)
    then show False using True caughtResult_fields(1) [of toolname e] by simp
  qed
  then show ?thesis
    using True callToolResult_payload [of toolname out]
    by (auto simp: exactlyOnePayload_def)
next
  case False
  have "\<not> (\<exists>response. out = Resolved response \<and> imageWithoutData response)"
  proof
    assume "\<exists>response. out = Resolved response \<and> imageWithoutData response"
    then obtain response where o: "out = Resolved response" and i: "imageWithoutData response"
      by blast
    show False
    proof (cases "translateResponse toolname response")
      case (Inl e)
      then show False using translateResponse_throw [OF Inl] i by simp
    next
      case (Inr r)
      then have "callToolResult toolname out = r" using o by (simp add: callToolResult_def)
      then show False using translateResponse_payload [OF Inr] i False by simp
    qed
  qed
  then show ?thesis
    using False callToolResult_payload [of toolname out]
    by (auto simp: exactlyOnePayload_def)
qed

lemma base64_empty: "base64 bytes = [] \<longleftrightarrow> bytes = []"
  by (induction bytes rule: base64.induct) (simp_all add: Let_def)

lemma takeScreenshot_payload:
  assumes "takeScreenshot numberText shotEnv = Inr r"
  shows "success r \<and> populated (content r) \<and> \<not> populated (error r) \<and>
         (populated (imageData r) \<longleftrightarrow> readFile shotEnv \<noteq> Inr [])"
  using assms
  by (auto simp: takeScreenshot_def andThen_def Let_def toolResult_def populated_def base64_empty
           split: sum.splits option.splits)

lemma mouseClick_payload:
  assumes "mouseClick render scaled env args = Inr r"
  shows "success r \<and> populated (content r) \<and> \<not> populated (error r) \<and> \<not> populated (imageData r)"
  using assms
  by (auto simp: mouseClick_def andThen_def Let_def toolResult_def populated_def
           split: sum.splits option.splits if_splits)

lemma sendKeys_payload:
  assumes "sendKeys render env args = Inr r"
  shows "success r \<and> populated (content r) \<and> \<not> populated (error r) \<and> \<not> populated (imageData r)"
  using assms
  by (auto simp: sendKeys_def andThen_def Let_def toolResult_def populated_def
           split: sum.splits option.splits if_splits jsval.splits)

lemma openApplication_payload:
  assumes "openApplication render env args = Inr r"
  shows "success r \<and> populated (content r) \<and> \<not> populated (error r) \<and> \<not> populated (imageData r)"
  using assms
  by (auto simp: openApplication_def andThen_def Let_def toolResult_def populated_def
           split: sum.splits option.splits if_splits)

lemma localCallTool_payload:
  assumes "localCallTool render scaled numberText shotEnv env clientConnected toolname args = Inr r"
  shows "(success r \<longrightarrow> populated (content r) \<and> \<not> populated (error r)) \<and>
         (\<not> success r \<longrightarrow>
            populated (error r) \<and> \<not> populated (content r) \<and> \<not> populated (imageData r)) \<and>
         (populated (imageData r) \<longleftrightarrow>
            success r \<and> toolname = ''remote_macos_get_screen'' \<and> readFile shotEnv \<noteq> Inr [])"
proof -
  let ?inner = "if toolname = ''remote_macos_get_screen'' then takeScreenshot numberText shotEnv
               else if toolname = ''remote_macos_mouse_click'' then mouseClick render scaled env args
               else if toolname = ''remote_macos_send_keys'' then sendKeys render env args
               else if toolname = ''remote_macos_open_application''
               then openApplication render env args
               else Inl (Error (''Unknown tool: '' @ toolname))"
  have c: clientConnected using assms by (auto simp: localCallTool_def split: if_splits)
  show ?thesis
  proof (cases ?inner)
    case (Inl e)
    then have "r = (toolResult False)
                   \<lparr> error := JStr (''Error executing '' @ toolname @ '': '' @ errorMessage e) \<rparr>"
      using assms c by (simp add: localCallTool_def)
    then show ?thesis by (simp add: toolResult_def populated_def)
  next
    case (Inr r0)
    then have r: "r = r0" using assms c by (simp add: localCallTool_def)
    show ?thesis
    proof (cases "toolname = ''remote_macos_get_screen''")
      case True
      then have "takeScreenshot numberText shotEnv = Inr r" using Inr r by simp
      from takeScreenshot_payload [OF this] True show ?thesis by simp
    next
      case False
      then have "success r \<and> populated (content r) \<and> \<not> populated (error r) \<and>
                 \<not> populated (imageData r)"
        using Inr r mouseClick_payload [of render scaled env args r]
          sendKeys_payload [of render env args r] openApplication_payload [of render env args r]
        by (auto split: if_splits)
      then show ?thesis using False by simp
    qed
  qed
qed


lemma localCallTool_rule:
  assumes "localCallTool render scaled numberText shotEnv env clientConnected toolname args = Inr r"
  shows "exactlyOnePayload r \<longleftrightarrow>
           \<not> (success r \<and> toolname = ''remote_macos_get_screen'' \<and> readFile shotEnv \<noteq> Inr [])"
  using localCallTool_payload [OF assms] by (auto simp: exactlyOnePayload_def)

lemma stdin_not_writable_payload:
  "callToolSend w toolname args rid s = (Returns r, s') \<Longrightarrow> exactlyOnePayload r"
  by (auto simp: callToolSend_def waitForResponse_def Let_def exactlyOnePayload_def
        caughtResult_def toolResult_def populated_def split: if_splits)

text \<open>
  Claim C6, as amended. A payload field counts as populated when its value is truthy.

  Subprocess-backed client: a result of \<^verbatim>\<open>callTool\<close> never carries two payloads. A
  failed result carries neither \<^verbatim>\<open>content\<close> nor \<^verbatim>\<open>imageData\<close>, and it carries
  \<^verbatim>\<open>error\<close> unless the request was rejected with an error whose message is empty. A
  successful result carries no \<^verbatim>\<open>error\<close>, and it carries exactly one of
  \<^verbatim>\<open>content\<close> and \<^verbatim>\<open>imageData\<close> unless the first content element of the response
  is image-typed with no truthy \<^verbatim>\<open>data\<close>, in which case it carries neither. So the
  rule of exactly one payload holds of a result exactly when neither exception applies.
  The result returned when \<^verbatim>\<open>stdin\<close> is not writable obeys the rule.

  In-process local client: every result of \<^verbatim>\<open>callTool\<close>, for any tool name and
  arguments, obeys the rule (a failed one carries \<^verbatim>\<open>error\<close> only, a successful one
  \<^verbatim>\<open>content\<close> and no \<^verbatim>\<open>error\<close>), except the successful screenshot of a non-empty
  image file, which carries \<^verbatim>\<open>imageData\<close> and \<^verbatim>\<open>content\<close> at once.
\<close>

theorem tool_result_payloads:
  "(\<not> success (callToolResult toolname out) \<longrightarrow>
      \<not> populated (content (callToolResult toolname out)) \<and>
      \<not> populated (imageData (callToolResult toolname out)) \<and>
      (populated (error (callToolResult toolname out)) \<longleftrightarrow>
         \<not> (\<exists>e. out = Rejected e \<and> errorMessage e = []))) \<and>
   (success (callToolResult toolname out) \<longrightarrow>
      \<not> populated (error (callToolResult toolname out)) \<and>
      \<not> (populated (content (callToolResult toolname out)) \<and>
         populated (imageData (callToolResult toolname out))) \<and>
      ((\<not> populated (content (callToolResult toolname out)) \<and>
        \<not> populated (imageData (callToolResult toolname out))) \<longleftrightarrow>
       (\<exists>response. out = Resolved response \<and> imageWithoutData response))) \<and>
   (exactlyOnePayload (callToolResult toolname out) \<longleftrightarrow>
      \<not> (\<exists>e. out = Rejected e \<and> errorMessage e = []) \<and>
      \<not> (\<exists>response. out = Resolved response \<and> imageWithoutData response)) \<and>
   (callToolSend w toolname args rid s = (Returns r, s') \<longrightarrow> exactlyOnePayload r) \<and>
   (localCallTool render scaled numberText shotEnv env clientConnected localName localArgs = Inr r' \<longrightarrow>
      (success r' \<longrightarrow> populated (content r') \<and> \<not> populated (error r')) \<and>
      (\<not> success r' \<longrightarrow>
         populated (error r') \<and> \<not> populated (content r') \<and> \<not> populated (imageData r')) \<and>
      (populated (imageData r') \<longleftrightarrow>
         success r' \<and> localName = ''remote_macos_get_screen'' \<and> readFile shotEnv \<noteq> Inr []) \<and>
      (exactlyOnePayload r' \<longleftrightarrow>
         \<not> (success r' \<and> localName = ''remote_macos_get_screen'' \<and> readFile shotEnv \<noteq> Inr [])))"
proof -
  have a: "(\<not> success (callToolResult toolname out) \<longrightarrow>
      \<not> populated (content (callToolResult toolname out)) \<and>
      \<not> populated (imageData (callToolResult toolname out)) \<and>
      (populated (error (callToolResult toolname out)) \<longleftrightarrow>
         \<not> (\<exists>e. out = Rejected e \<and> errorMessage e = [])))"
    and b: "(success (callToolResult toolname out) \<longrightarrow>
      \<not> populated (error (callToolResult toolname out)) \<and>
      \<not> (populated (content (callToolResult toolname out)) \<and>
         populated (imageData (callToolResult toolname out))) \<and>
      ((\<not> populated (content (callToolResult toolname out)) \<and>
        \<not> populated (imageData (callToolResult toolname out))) \<longleftrightarrow>
       (\<exists>response. out = Resolved response \<and> imageWithoutData response)))"
    using callToolResult_payload [of toolname out] by blast+
  note c = callToolResult_rule [of toolname out]
  have d: "callToolSend w toolname args rid s = (Returns r, s') \<longrightarrow> exactlyOnePayload r"
    using stdin_not_writable_payload by blast
  have e: "localCallTool render scaled numberText shotEnv env clientConnected localName localArgs = Inr r' \<longrightarrow>
      (success r' \<longrightarrow> populated (content r') \<and> \<not> populated (error r')) \<and>
      (\<not> success r' \<longrightarrow>
         populated (error r') \<and> \<not> populated (content r') \<and> \<not> populated (imageData r')) \<and>
      (populated (imageData r') \<longleftrightarrow>
         success r' \<and> localName = ''remote_macos_get_screen'' \<and> readFile shotEnv \<noteq> Inr []) \<and>
      (exactlyOnePayload r' \<longleftrightarrow>
         \<not> (success r' \<and> localName = ''remote_macos_get_screen'' \<and> readFile shotEnv \<noteq> Inr []))"
    using localCallTool_payload [of render scaled numberText shotEnv env clientConnected localName localArgs r']
      localCallTool_rule [of render scaled numberText shotEnv env clientConnected localName localArgs r']
    by blast
  from a b c d e show ?thesis by (intro conjI)
qed

lemma sample_screenshot_result:
  "localCallTool render scaled (\<lambda>d. d) sampleScreenshotEnv sampleActionEnv True
      ''remote_macos_get_screen'' (JObj []) =
     Inr \<lparr> success = True, data = JUndefined, error = JUndefined, imageData = JStr ''UE5H'',
           toolName = JUndefined,
           content = JStr ''Screenshot taken successfully. Screen resolution: 2560x1600'' \<rparr>"
  by (simp add: localCallTool_def takeScreenshot_def sampleScreenshotEnv_def andThen_def Let_def
        matchHere_def isDigit_def toolResult_def base64Digit_def)

lemma sample_open_result:
  "localCallTool (\<lambda>v. case v of JStr t \<Rightarrow> t | _ \<Rightarrow> []) scaled numberText sampleScreenshotEnv
      sampleActionEnv True ''remote_macos_open_application'' (JObj [(''identifier'', JStr ''Safari'')]) =
     Inr ((toolResult True)\<lparr> content := JStr ''Successfully opened application: Safari'' \<rparr>)"
  by (simp add: localCallTool_def openApplication_def sampleActionEnv_def andThen_def Let_def
        field_def)

lemma sample_unknown_result:
  "localCallTool render scaled numberText sampleScreenshotEnv sampleActionEnv True
      ''remote_macos_scroll'' (JObj []) =
     Inr ((toolResult False)
            \<lparr> error := JStr ''Error executing remote_macos_scroll: Unknown tool: remote_macos_scroll'' \<rparr>)"
  by (simp add: localCallTool_def)

lemma empty_image_result:
  "callToolResult ''remote_macos_get_screen'' (Resolved emptyImageResponse) =
     \<lparr> success = True,
       data = JObj [(''content'', JArr [JObj [(''type'', JStr ''image'')]])],
       error = JUndefined, imageData = JUndefined,
       toolName = JStr ''remote_macos_get_screen'', content = JUndefined \<rparr>"
  by (simp add: callToolResult_def translateResponse_def emptyImageResponse_def andThen_def
        toolResult_def)

text \<open>
  The amended claim at an image response and a timeout of the subprocess-backed client,
  at a call with \<^verbatim>\<open>stdin\<close> not writable, and at three calls of the local client: an
  application opened, an unknown tool, a screenshot.
\<close>

theorem tool_result_payloads_witness:
  "success (callToolResult ''remote_macos_get_screen'' (Resolved (JObj [(''id'', JNum 5),
        (''result'', JObj [(''content'', JArr [JObj [(''type'', JStr ''image''), (''data'', JStr ''UE5H'')]])])]))) \<and>
   exactlyOnePayload (callToolResult ''remote_macos_get_screen'' (Resolved (JObj [(''id'', JNum 5),
        (''result'', JObj [(''content'', JArr [JObj [(''type'', JStr ''image''), (''data'', JStr ''UE5H'')]])])]))) \<and>
   \<not> success (callToolResult ''remote_macos_get_screen'' (Rejected (Error ''MCP request timeout''))) \<and>
   populated (error (callToolResult ''remote_macos_get_screen'' (Rejected (Error ''MCP request timeout'')))) \<and>
   exactlyOnePayload (callToolResult ''remote_macos_get_screen'' (Rejected (Error ''MCP request timeout''))) \<and>
   exactlyOnePayload (caughtResult ''remote_macos_get_screen'' (Error ''MCP process stdin not writable'')) \<and>
   exactlyOnePayload ((toolResult True)\<lparr> content := JStr ''Successfully opened application: Safari'' \<rparr>) \<and>
   exactlyOnePayload ((toolResult False)\<lparr> error := JStr ''Error executing remote_macos_scroll: Unknown tool: remote_macos_scroll'' \<rparr>) \<and>
   populated (imageData \<lparr> success = True, data = JUndefined, error = JUndefined, imageData = JStr ''UE5H'',
           toolName = JUndefined,
           content = JStr ''Screenshot taken successfully. Screen resolution: 2560x1600'' \<rparr>) \<and>
   populated (content \<lparr> success = True, data = JUndefined, error = JUndefined, imageData = JStr ''UE5H'',
           toolName = JUndefined,
           content = JStr ''Screenshot taken successfully. Screen resolution: 2560x1600'' \<rparr>)"
proof -
  let ?img = "(Resolved (JObj [(''id'', JNum 5),
        (''result'', JObj [(''content'', JArr [JObj [(''type'', JStr ''image''), (''data'', JStr ''UE5H'')]])])]))"
  let ?shot = "\<lparr> success = True, data = JUndefined, error = JUndefined, imageData = JStr ''UE5H'',
           toolName = JUndefined,
           content = JStr ''Screenshot taken successfully. Screen resolution: 2560x1600'' \<rparr>"
  let ?render = "\<lambda>v. case v of JStr t \<Rightarrow> t | _ \<Rightarrow> []"
  let ?scaled = "\<lambda>(v::jsval) (src::jsval) (dim::string). dim"
  have h1: "success (callToolResult ''remote_macos_get_screen'' ?img)"
    by (simp add: callToolResult_def translateResponse_def andThen_def toolResult_def)
  have n1: "\<not> (\<exists>e. ?img = Rejected e \<and> errorMessage e = []) \<and>
            \<not> (\<exists>response. ?img = Resolved response \<and> imageWithoutData response)"
    by (simp add: imageWithoutData_def)
  have h2: "\<not> success (callToolResult ''remote_macos_get_screen'' (Rejected (Error ''MCP request timeout'')))"
    by (simp add: callToolResult_def caughtResult_def toolResult_def)
  have n2a: "\<not> (\<exists>e. (Rejected (Error ''MCP request timeout'')) = Rejected e \<and> errorMessage e = [])"
    by simp
  have n2: "\<not> (\<exists>e. (Rejected (Error ''MCP request timeout'')) = Rejected e \<and> errorMessage e = []) \<and>
            \<not> (\<exists>response. (Rejected (Error ''MCP request timeout'')) = Resolved response \<and> imageWithoutData response)"
    by simp
  have h3: "callToolSend False ''remote_macos_get_screen'' (JObj []) 5 (connect 1 (newClient 0)) =
      (Returns (caughtResult ''remote_macos_get_screen'' (Error ''MCP process stdin not writable'')),
       connect 1 (newClient 0))"
    by (simp add: callToolSend_def connect_def connectReady_def loadTools_def spawnProcess_def
          elapse_fields)
  note h4 = sample_open_result [of ?scaled "\<lambda>d. d"]
  note h5 = sample_unknown_result [of ?render ?scaled "\<lambda>d. d"]
  note h6 = sample_screenshot_result [of ?render ?scaled]
  note t1 = tool_result_payloads [where toolname = "''remote_macos_get_screen''" and out = ?img
      and w = False and args = "JObj []" and rid = 5 and s = "connect 1 (newClient 0)"
      and r = "caughtResult ''remote_macos_get_screen'' (Error ''MCP process stdin not writable'')"
      and s' = "connect 1 (newClient 0)"
      and render = ?render and scaled = ?scaled and numberText = "\<lambda>d. d"
      and shotEnv = sampleScreenshotEnv and env = sampleActionEnv and clientConnected = True
      and localName = "''remote_macos_open_application''"
      and localArgs = "JObj [(''identifier'', JStr ''Safari'')]" and r' = "((toolResult True)\<lparr> content := JStr ''Successfully opened application: Safari'' \<rparr>)"]
  note t2 = tool_result_payloads [where toolname = "''remote_macos_get_screen''" and out = "(Rejected (Error ''MCP request timeout''))"
      and render = ?render and scaled = ?scaled and numberText = "\<lambda>d. d"
      and shotEnv = sampleScreenshotEnv and env = sampleActionEnv and clientConnected = True
      and localName = "''remote_macos_scroll''" and localArgs = "JObj []" and r' = "((toolResult False)\<lparr> error := JStr ''Error executing remote_macos_scroll: Unknown tool: remote_macos_scroll'' \<rparr>)"]
  note t3 = tool_result_payloads [where render = ?render and scaled = ?scaled and numberText = "\<lambda>d. d"
      and shotEnv = sampleScreenshotEnv and env = sampleActionEnv and clientConnected = True
      and localName = "''remote_macos_get_screen''" and localArgs = "JObj []" and r' = ?shot]
  note c1 = t1 [THEN conjunct2, THEN conjunct2, THEN conjunct1, THEN iffD2, OF n1]
  note c2a = t2 [THEN conjunct1, THEN mp, OF h2, THEN conjunct2, THEN conjunct2, THEN iffD2, OF n2a]
  note c2b = t2 [THEN conjunct2, THEN conjunct2, THEN conjunct1, THEN iffD2, OF n2]
  note c3 = t1 [THEN conjunct2, THEN conjunct2, THEN conjunct2, THEN conjunct1, THEN mp, OF h3]
  have o: "\<not> (success ((toolResult True)\<lparr> content := JStr ''Successfully opened application: Safari'' \<rparr>) \<and>
      ''remote_macos_open_application'' = ''remote_macos_get_screen'' \<and>
      readFile sampleScreenshotEnv \<noteq> Inr [])" by simp
  note c4 = t1 [THEN conjunct2, THEN conjunct2, THEN conjunct2, THEN conjunct2, THEN mp, OF h4,
                THEN conjunct2, THEN conjunct2, THEN conjunct2, THEN iffD2, OF o]
  have u: "\<not> (success ((toolResult False)\<lparr> error := JStr ''Error executing remote_macos_scroll: Unknown tool: remote_macos_scroll'' \<rparr>) \<and> ''remote_macos_scroll'' = ''remote_macos_get_screen'' \<and>
      readFile sampleScreenshotEnv \<noteq> Inr [])" by (simp add: toolResult_def)
  note c5 = t2 [THEN conjunct2, THEN conjunct2, THEN conjunct2, THEN conjunct2, THEN mp, OF h5,
                THEN conjunct2, THEN conjunct2, THEN conjunct2, THEN iffD2, OF u]
  have succ: "success ?shot" by simp
  have sh: "success ?shot \<and> ''remote_macos_get_screen'' = ''remote_macos_get_screen'' \<and>
      readFile sampleScreenshotEnv \<noteq> Inr []"
    by (simp add: sampleScreenshotEnv_def)
  note l3 = t3 [THEN conjunct2, THEN conjunct2, THEN conjunct2, THEN conjunct2, THEN mp, OF h6]
  note c6a = l3 [THEN conjunct2, THEN conjunct2, THEN conjunct1, THEN iffD2, OF sh]
  note c6b = l3 [THEN conjunct1, THEN mp, OF succ, THEN conjunct1]
  from h1 c1 h2 c2a c2b c3 c4 c5 c6a c6b show ?thesis by (intro conjI)
qed

text \<open>
  Claim C6 as stated fails in three ways. The local client's screenshot, with every step
  succeeding, returns a successful result that carries \<^verbatim>\<open>imageData\<close> and
  \<^verbatim>\<open>content\<close> at once. The subprocess-backed client turns an image element that has
  no \<^verbatim>\<open>data\<close> into a successful result with no payload, and a rejection whose error
  has an empty message into a failed result with no payload.
\<close>

theorem results_without_exactly_one_payload:
  "localCallTool (\<lambda>v. []) (\<lambda>v src dim. dim) (\<lambda>d. d) sampleScreenshotEnv sampleActionEnv True
      ''remote_macos_get_screen'' (JObj []) =
     Inr \<lparr> success = True, data = JUndefined, error = JUndefined, imageData = JStr ''UE5H'',
           toolName = JUndefined,
           content = JStr ''Screenshot taken successfully. Screen resolution: 2560x1600'' \<rparr> \<and>
   \<not> exactlyOnePayload
       \<lparr> success = True, data = JUndefined, error = JUndefined, imageData = JStr ''UE5H'',
           toolName = JUndefined,
           content = JStr ''Screenshot taken successfully. Screen resolution: 2560x1600'' \<rparr> \<and>
   callToolResult ''remote_macos_get_screen'' (Resolved emptyImageResponse) =
     \<lparr> success = True,
       data = JObj [(''content'', JArr [JObj [(''type'', JStr ''image'')]])],
       error = JUndefined, imageData = JUndefined,
       toolName = JStr ''remote_macos_get_screen'', content = JUndefined \<rparr> \<and>
   \<not> exactlyOnePayload (callToolResult ''remote_macos_get_screen'' (Resolved emptyImageResponse)) \<and>
   callToolResult ''remote_macos_get_screen'' (Rejected (Error [])) =
     \<lparr> success = False, data = JUndefined, error = JStr [], imageData = JUndefined,
       toolName = JStr ''remote_macos_get_screen'', content = JUndefined \<rparr> \<and>
   \<not> exactlyOnePayload (callToolResult ''remote_macos_get_screen'' (Rejected (Error [])))"
proof -
  have a: "\<not> exactlyOnePayload \<lparr> success = True, data = JUndefined, error = JUndefined, imageData = JStr ''UE5H'',
           toolName = JUndefined,
           content = JStr ''Screenshot taken successfully. Screen resolution: 2560x1600'' \<rparr>"
    by (simp add: exactlyOnePayload_def populated_def)
  have b: "\<not> exactlyOnePayload (callToolResult ''remote_macos_get_screen'' (Resolved emptyImageResponse))"
    by (simp add: empty_image_result exactlyOnePayload_def populated_def)
  have c: "callToolResult ''remote_macos_get_screen'' (Rejected (Error [])) =
     \<lparr> success = False, data = JUndefined, error = JStr [], imageData = JUndefined,
       toolName = JStr ''remote_macos_get_screen'', content = JUndefined \<rparr>"
    by (simp add: callToolResult_def caughtResult_def toolResult_def)
  have d: "\<not> exactlyOnePayload (callToolResult ''remote_macos_get_screen'' (Rejected (Error [])))"
    by (simp add: c exactlyOnePayload_def populated_def)
  from sample_screenshot_result [of "\<lambda>v. []" "\<lambda>v src dim. dim"] a empty_image_result b c d
  show ?thesis by blast
qed

section \<open>Protocol Client: line framing\<close>

lemma handleProcessOutput_text:
  "handleProcessOutput parse bytes s = receiveText parse (toString bytes) s"
  by (simp add: handleProcessOutput_def receiveText_def)

lemma splitLines_nonempty [simp]: "splitLines s \<noteq> []"
  by (induction s) (auto split: list.splits)

lemma splitLines_append:
  "splitLines (x @ y) = butlast (splitLines x) @ splitLines (last (splitLines x) @ y)"
proof (induction x)
  case Nil
  then show ?case by simp
next
  case (Cons c x)
  show ?case
  proof (cases "c = CHR 0x0A")
    case True
    then show ?thesis using Cons by simp
  next
    case False
    obtain l ls where x: "splitLines x = l # ls" by (cases "splitLines x") simp_all
    show ?thesis
    proof (cases ls)
      case Nil
      with x False Cons show ?thesis by simp
    next
      case (Cons l' ls')
      with x False Cons.IH show ?thesis by simp
    qed
  qed
qed

lemma dispatch_buffer:
  "dispatch r (s\<lparr> responseBuffer := b \<rparr>) = (dispatch r s)\<lparr> responseBuffer := b \<rparr>"
  by (auto simp: dispatch_def handleResponse_def andThen_def settle_def clearTimeout_def
           split: sum.splits option.splits)

lemma processLine_buffer:
  "processLine parse l (s\<lparr> responseBuffer := b \<rparr>) = (processLine parse l s)\<lparr> responseBuffer := b \<rparr>"
  by (simp add: processLine_def dispatch_buffer split: option.splits)

lemma processLines_buffer:
  "foldl (\<lambda>s' line. processLine parse line s') (s\<lparr> responseBuffer := b \<rparr>) ls =
   (foldl (\<lambda>s' line. processLine parse line s') s ls)\<lparr> responseBuffer := b \<rparr>"
  by (induction ls arbitrary: s) (simp_all add: processLine_buffer)

lemma receiveText_append:
  "receiveText parse b (receiveText parse a s) = receiveText parse (a @ b) s"
proof -
  let ?P = "\<lambda>s ls. foldl (\<lambda>s' line. processLine parse line s') s ls"
  let ?p1 = "splitLines (responseBuffer s @ a)"
  let ?p2 = "splitLines (last ?p1 @ b)"
  have s1: "receiveText parse a s = (?P s (butlast ?p1))\<lparr> responseBuffer := last ?p1 \<rparr>"
    by (simp add: receiveText_def Let_def processLines_buffer)
  have all: "splitLines (responseBuffer s @ a @ b) = butlast ?p1 @ ?p2"
    using splitLines_append [of "responseBuffer s @ a" b] by simp
  have bl: "butlast (butlast ?p1 @ ?p2) = butlast ?p1 @ butlast ?p2"
    by (simp add: butlast_append)
  have la: "last (butlast ?p1 @ ?p2) = last ?p2" by simp
  have "receiveText parse b (receiveText parse a s) =
          (?P (?P s (butlast ?p1)) (butlast ?p2))\<lparr> responseBuffer := last ?p2 \<rparr>"
    by (simp add: s1 receiveText_def Let_def processLines_buffer)
  also have "\<dots> = receiveText parse (a @ b) s"
    by (simp add: receiveText_def Let_def all bl la processLines_buffer)
  finally show ?thesis .
qed

lemma splitLines_no_newline: "CHR 0x0A \<notin> set x \<Longrightarrow> splitLines x = [x]"
  by (induction x) auto

lemma last_splitLines_no_newline: "CHR 0x0A \<notin> set (last (splitLines x))"
proof (induction x)
  case Nil
  then show ?case by simp
next
  case (Cons c x)
  obtain l ls where x: "splitLines x = l # ls" by (cases "splitLines x") simp_all
  show ?case using Cons x by (cases ls) auto
qed

lemma processLines_keep_buffer:
  "responseBuffer (foldl (\<lambda>s' line. processLine parse line s') s ls) = responseBuffer s"
proof -
  have "foldl (\<lambda>s' line. processLine parse line s') (s\<lparr> responseBuffer := responseBuffer s \<rparr>) ls =
        (foldl (\<lambda>s' line. processLine parse line s') s ls)\<lparr> responseBuffer := responseBuffer s \<rparr>"
    by (rule processLines_buffer)
  then have "foldl (\<lambda>s' line. processLine parse line s') s ls =
        (foldl (\<lambda>s' line. processLine parse line s') s ls)\<lparr> responseBuffer := responseBuffer s \<rparr>"
    by simp
  then show ?thesis
    by (metis MCPClient.select_convs(4) MCPClient.surjective MCPClient.update_convs(4))
qed

lemma receiveText_buffer:
  "responseBuffer (receiveText parse txt s) = last (splitLines (responseBuffer s @ txt))"
  by (simp add: receiveText_def Let_def processLines_keep_buffer)

lemma receiveText_empty:
  "CHR 0x0A \<notin> set (responseBuffer s) \<Longrightarrow> receiveText parse [] s = s"
  by (simp add: receiveText_def splitLines_no_newline)

lemma feedChunks_text:
  "CHR 0x0A \<notin> set (responseBuffer s) \<Longrightarrow>
   feedChunks parse chunks s = receiveText parse (concat (map toString chunks)) s"
proof (induction chunks arbitrary: s)
  case Nil
  then show ?case by (simp add: feedChunks_def receiveText_empty)
next
  case (Cons c cs)
  let ?s1 = "handleProcessOutput parse c s"
  have nl: "CHR 0x0A \<notin> set (responseBuffer ?s1)"
    by (simp add: handleProcessOutput_text receiveText_buffer last_splitLines_no_newline)
  have "feedChunks parse (c # cs) s = feedChunks parse cs ?s1"
    by (simp add: feedChunks_def)
  also have "\<dots> = receiveText parse (concat (map toString cs)) ?s1"
    using Cons.IH [OF nl] .
  also have "\<dots> = receiveText parse (concat (map toString (c # cs))) s"
    by (simp add: handleProcessOutput_text receiveText_append)
  finally show ?case .
qed

lemma utf8Decode_ascii:
  "\<forall>c \<in> set x. (of_char c :: nat) < 0x80 \<Longrightarrow> utf8Decode None x = x"
  by (induction x) (simp_all add: classify_def)

lemma toString_ascii:
  "\<forall>c \<in> set x. (of_char c :: nat) < 0x80 \<Longrightarrow> toString x = x"
  by (simp add: toString_def utf8Decode_ascii)

text \<open>
  The line framing itself does not depend on where the chunks are cut: two chunk lists
  whose decoded texts concatenate to the same text leave the client in the same state,
  with the same promises resolved by the same responses. For a stream of ASCII bytes
  every cut is harmless.
\<close>

lemma chunking_invariant_decoded:
  assumes "CHR 0x0A \<notin> set (responseBuffer s)"
    and "concat (map toString cs) = concat (map toString ds)"
  shows "feedChunks parse cs s = feedChunks parse ds s"
  using assms by (simp add: feedChunks_text)

lemma chunking_invariant_ascii:
  assumes "CHR 0x0A \<notin> set (responseBuffer s)"
    and "concat cs = concat ds"
    and "\<forall>c \<in> set (concat cs). (of_char c :: nat) < 0x80"
  shows "feedChunks parse cs s = feedChunks parse ds s"
proof -
  have "map toString cs = cs" using assms(3) by (auto intro!: map_idI toString_ascii)
  moreover have "map toString ds = ds"
    using assms(2,3) by (auto intro!: map_idI toString_ascii)
  ultimately show ?thesis
    using chunking_invariant_decoded [OF assms(1), of cs ds parse] assms(2) by simp
qed

lemma unparsable_line_dropped:
  "parse (trim line) = None \<Longrightarrow> processLine parse line s = s"
  by (simp add: processLine_def)

lemma decode_chunk1: "toString splitChunk1 = ''{\"id\":5,\"result\":\"'' @ replacementChar"
  by (simp add: splitChunk1_def toString_def classify_def replacementChar_def)

lemma decode_chunk2: "toString splitChunk2 = replacementChar @ ''\"}'' @ [CHR 0x0A]"
  by (simp add: splitChunk2_def toString_def classify_def replacementChar_def)

lemma decode_whole: "toString (splitChunk1 @ splitChunk2) = sentLine @ [CHR 0x0A]"
  by (simp add: splitChunk1_def splitChunk2_def sentLine_def toString_def classify_def replacementChar_def)

lemma trim_sent: "trim sentLine = sentLine"
  by (simp add: trim_def sentLine_def leadingWhitespace_def trailingWhitespace_def jsWhitespace_def)

lemma trim_garbled: "trim garbledLine = garbledLine"
  by (simp add: trim_def garbledLine_def replacementChar_def leadingWhitespace_def
        trailingWhitespace_def jsWhitespace_def)


lemma oneWaiting_fields:
  "responseBuffer oneWaiting = []"
  "pendingRequests oneWaiting = [(5, 0)]"
  "promises oneWaiting 0 = None"
  by (simp_all add: oneWaiting_def connect_def client_defs elapse_def)

lemma split_lines_sent: "splitLines (sentLine @ [CHR 0x0A]) = [sentLine, []]"
  by (simp add: sentLine_def)

lemma split_lines_part1:
  "splitLines (toString splitChunk1) = [toString splitChunk1]"
  by (simp add: decode_chunk1 replacementChar_def)

lemma split_lines_part2:
  "splitLines (toString splitChunk1 @ toString splitChunk2) = [garbledLine, []]"
  by (simp add: decode_chunk1 decode_chunk2 garbledLine_def replacementChar_def)

lemma sampleParse_vals:
  "sampleParse sentLine = Some (JObj [(''id'', JNum 5), (''result'', JStr [CHR 0xC3, CHR 0xA9])])"
  "sampleParse garbledLine =
     Some (JObj [(''id'', JNum 5), (''result'', JStr (replacementChar @ replacementChar))])"
  by (simp_all add: sampleParse_def sentLine_def garbledLine_def replacementChar_def)

lemma sent_nonempty: "sentLine \<noteq> []" "garbledLine \<noteq> []"
  by (simp_all add: sentLine_def garbledLine_def)

text \<open>
  Claim C2 says that cutting the byte stream into chunks anywhere, even one byte per
  chunk, dispatches the same parsed responses as whole lines. The code decodes each chunk
  on its own, so a cut inside a multi-byte character does not: fed whole, the line
  resolves the waiting promise with the response holding U+00E9; fed in the two chunks
  cut between the bytes \<open>C3\<close> and \<open>A9\<close>, the first chunk leaves a buffer that already
  ends in U+FFFD, and the promise is resolved with a response holding U+FFFD U+FFFD.
\<close>

theorem split_character_garbles_response:
  "promises (feedChunks sampleParse [splitChunk1 @ splitChunk2] oneWaiting) 0 =
     Some (Resolved (JObj [(''id'', JNum 5), (''result'', JStr [CHR 0xC3, CHR 0xA9])])) \<and>
   promises (feedChunks sampleParse [splitChunk1, splitChunk2] oneWaiting) 0 =
     Some (Resolved (JObj [(''id'', JNum 5),
       (''result'', JStr [CHR 0xEF, CHR 0xBF, CHR 0xBD, CHR 0xEF, CHR 0xBF, CHR 0xBD])])) \<and>
   responseBuffer (handleProcessOutput sampleParse splitChunk1 oneWaiting) =
     toString splitChunk1 \<and>
   toString splitChunk1 @ toString splitChunk2 \<noteq> toString (splitChunk1 @ splitChunk2)"
proof -
  have whole: "promises (feedChunks sampleParse [splitChunk1 @ splitChunk2] oneWaiting) 0 =
     Some (Resolved (JObj [(''id'', JNum 5), (''result'', JStr [CHR 0xC3, CHR 0xA9])]))"
    by (simp add: feedChunks_def handleProcessOutput_def decode_whole oneWaiting_fields
          split_lines_sent processLine_def trim_sent sent_nonempty sampleParse_vals dispatch_def
          handleResponse_def andThen_def settle_def clearTimeout_def)
  have first: "handleProcessOutput sampleParse splitChunk1 oneWaiting =
                 oneWaiting\<lparr> responseBuffer := toString splitChunk1 \<rparr>"
    by (simp add: handleProcessOutput_def oneWaiting_fields split_lines_part1)
  have parts: "promises (feedChunks sampleParse [splitChunk1, splitChunk2] oneWaiting) 0 =
     Some (Resolved (JObj [(''id'', JNum 5),
       (''result'', JStr [CHR 0xEF, CHR 0xBF, CHR 0xBD, CHR 0xEF, CHR 0xBF, CHR 0xBD])]))"
    by (simp add: feedChunks_def first)
       (simp add: handleProcessOutput_def split_lines_part2 oneWaiting_fields
          processLine_def trim_garbled sent_nonempty sampleParse_vals dispatch_def
          handleResponse_def andThen_def settle_def clearTimeout_def replacementChar_def)
  have diff: "toString splitChunk1 @ toString splitChunk2 \<noteq> toString (splitChunk1 @ splitChunk2)"
    by (simp add: decode_chunk1 decode_chunk2 decode_whole sentLine_def replacementChar_def)
  from whole parts first diff show ?thesis by simp
qed

section \<open>Orchestrator: the answer to a batch of tool calls\<close>

subsection \<open>Screenshots answered directly\<close>

lemma executeBatch_char:
  "executeBatch env calls (rs, has, shot) asked =
     ((rs @ batchResults env calls asked,
       has \<or> (\<exists>p \<in> set (zip calls (batchResults env calls asked)). captured p),
       (if \<exists>p \<in> set (zip calls (batchResults env calls asked)). captured p
        then imageData (snd (last (filter captured (zip calls (batchResults env calls asked)))))
        else shot)),
      asked @ batchCalls calls)"
proof (induction calls arbitrary: rs has shot asked)
  case Nil
  then show ?case by (simp add: batchCalls_def)
next
  case (Cons c cs)
  let ?a = "asked @ [AskCallTool (call_name c) (arguments c)]"
  show ?case
  proof (cases "callToolAnswer env ?a")
    case (Inl e)
    then show ?thesis
      using Cons.IH [of "rs @ [failedCall (call_name c) e]" has shot ?a]
      by (auto simp: askCallTool_def batchCalls_def captured_def capturesScreenshot_def
                     failedCall_def toolResult_def)
  next
    case (Inr r)
    show ?thesis
    proof (cases "capturesScreenshot c r")
      case True
      then show ?thesis
        using Inr Cons.IH [of "rs @ [r]" True "imageData r" ?a]
        by (auto simp: askCallTool_def batchCalls_def captured_def filter_empty_conv)
    next
      case False
      then show ?thesis
        using Inr Cons.IH [of "rs @ [r]" has shot ?a]
        by (auto simp: askCallTool_def batchCalls_def captured_def)
    qed
  qed
qed


lemma last_filter_captured:
  "\<exists>p \<in> set ps. captured p \<Longrightarrow> captured (last (filter captured ps))"
proof -
  assume "\<exists>p \<in> set ps. captured p"
  then have ne: "filter captured ps \<noteq> []" by (simp add: filter_empty_conv)
  then have "last (filter captured ps) \<in> set (filter captured ps)" by (rule last_in_set)
  then show ?thesis by simp
qed

text \<open>
  Claim C7, as amended. The model asked for a batch of tool calls, and some call of the
  batch was the screenshot tool and returned a successful result with non-empty image
  data. If the lower-cased inbound message contains no multi-step indicator (so that the
  continuation branch cannot be taken), \<^verbatim>\<open>executeTools\<close> answers with the image-typed
  screenshot response carrying the image data of the last such call, and the only calls
  it makes to its surroundings are the tool calls of the batch: neither the tool listing
  nor the follow-up call of the model gateway is made. If the lower-cased message
  contains an indicator and the continuation branch is not taken, \<^verbatim>\<open>executeTools\<close>
  lists the tools and makes the follow-up call with the results of the batch: its answer
  is the text of the follow-up, and a throw of either call is thrown on.
\<close>

theorem screenshot_answered_directly:
  assumes calls: "toolCalls llmResponse = Some calls"
    and shot: "\<exists>p \<in> set (zip calls (batchResults env calls asked)). captured p"
  shows "(\<not> isMultiStepRequest originalMessage \<longrightarrow>
            executeTools env llmResponse originalMessage sessionId asked =
              (Inr (screenshotResponse env (batchResults env calls asked)
                      (imageData (snd (last (filter captured (zip calls (batchResults env calls asked))))))
                      sessionId (asked @ batchCalls calls)),
               asked @ batchCalls calls)) \<and>
         resp_type (screenshotResponse env (batchResults env calls asked)
                   (imageData (snd (last (filter captured (zip calls (batchResults env calls asked))))))
                   sessionId (asked @ batchCalls calls)) = ImageResponse \<and>
         resp_imageData (screenshotResponse env (batchResults env calls asked)
                   (imageData (snd (last (filter captured (zip calls (batchResults env calls asked))))))
                   sessionId (asked @ batchCalls calls)) =
           imageData (snd (last (filter captured (zip calls (batchResults env calls asked))))) \<and>
         captured (last (filter captured (zip calls (batchResults env calls asked)))) \<and>
         list_all isToolCall (batchCalls calls) \<and>
         (isMultiStepRequest originalMessage \<and>
          \<not> needsContinuation originalMessage (batchResults env calls asked) True \<longrightarrow>
            executeTools env llmResponse originalMessage sessionId asked =
              (case listToolsAnswer env (asked @ batchCalls calls @ [AskListTools]) of
                 Inl e \<Rightarrow> (Inl e, asked @ batchCalls calls @ [AskListTools])
               | Inr availableTools \<Rightarrow>
                   (case followUpAnswer env
                           (asked @ batchCalls calls @
                            [AskListTools,
                             AskFollowUp originalMessage (batchResults env calls asked)
                               availableTools sessionId]) of
                      Inl e \<Rightarrow>
                        (Inl e,
                         asked @ batchCalls calls @
                         [AskListTools,
                          AskFollowUp originalMessage (batchResults env calls asked)
                            availableTools sessionId])
                    | Inr followUpResponse \<Rightarrow>
                        (Inr (textResponse env (llm_content followUpResponse) sessionId
                                (asked @ batchCalls calls @
                                 [AskListTools,
                                  AskFollowUp originalMessage (batchResults env calls asked)
                                    availableTools sessionId])),
                         asked @ batchCalls calls @
                         [AskListTools,
                          AskFollowUp originalMessage (batchResults env calls asked)
                            availableTools sessionId]))))"
proof -
  let ?rs = "batchResults env calls asked"
  let ?data = "imageData (snd (last (filter captured (zip calls ?rs))))"
  have c: "captured (last (filter captured (zip calls ?rs)))"
    using last_filter_captured [OF shot] .
  then have t: "truthy ?data"
    by (simp add: captured_def capturesScreenshot_def)
  have direct: "\<not> isMultiStepRequest originalMessage \<longrightarrow>
      executeTools env llmResponse originalMessage sessionId asked =
           (Inr (screenshotResponse env ?rs ?data sessionId (asked @ batchCalls calls)),
            asked @ batchCalls calls)"
    using calls shot t
    by (simp add: executeTools_def executeBatch_char needsContinuation_def)
  have tools: "list_all isToolCall (batchCalls calls)"
    by (simp add: batchCalls_def list_all_iff)
  have followed: "isMultiStepRequest originalMessage \<and>
          \<not> needsContinuation originalMessage ?rs True \<longrightarrow>
            executeTools env llmResponse originalMessage sessionId asked =
              (case listToolsAnswer env (asked @ batchCalls calls @ [AskListTools]) of
                 Inl e \<Rightarrow> (Inl e, asked @ batchCalls calls @ [AskListTools])
               | Inr availableTools \<Rightarrow>
                   (case followUpAnswer env
                           (asked @ batchCalls calls @
                            [AskListTools,
                             AskFollowUp originalMessage ?rs availableTools sessionId]) of
                      Inl e \<Rightarrow>
                        (Inl e,
                         asked @ batchCalls calls @
                         [AskListTools, AskFollowUp originalMessage ?rs availableTools sessionId])
                    | Inr followUpResponse \<Rightarrow>
                        (Inr (textResponse env (llm_content followUpResponse) sessionId
                                (asked @ batchCalls calls @
                                 [AskListTools,
                                  AskFollowUp originalMessage ?rs availableTools sessionId])),
                         asked @ batchCalls calls @
                         [AskListTools, AskFollowUp originalMessage ?rs availableTools sessionId])))"
    using calls shot
    by (simp add: executeTools_def executeBatch_char askListTools_def askFollowUp_def
             split: sum.splits)
  have ty: "resp_type (screenshotResponse env ?rs ?data sessionId (asked @ batchCalls calls)) = ImageResponse"
    "resp_imageData (screenshotResponse env ?rs ?data sessionId (asked @ batchCalls calls)) = ?data"
    by (simp_all add: screenshotResponse_def)
  from direct ty c tools followed show ?thesis by blast
qed


lemma plain_message: "\<not> isMultiStepRequest ''Take a screenshot''"
  by (simp add: isMultiStepRequest_def multiStepIndicators_def toLowerCase_def lowerChar_def)

lemma multi_message: "isMultiStepRequest ''Take a screenshot, then click at 100,200''"
  by (simp add: isMultiStepRequest_def multiStepIndicators_def toLowerCase_def lowerChar_def)


lemmas orchestrator_defs = askListTools_def askProcessMessage_def askFollowUp_def askCallTool_def
  batchCalls_def captured_def capturesScreenshot_def screenshotTool_def failedCall_def
  toolResult_def screenshotCall_def clickCall_def imageResult_def textResult_def

text \<open>
  The amended claim at the message \<^verbatim>\<open>Take a screenshot\<close>, answered by one screenshot
  call, and at a message with an indicator, answered by a screenshot and a click.
\<close>

theorem screenshot_answered_directly_witness:
  "\<not> isMultiStepRequest ''Take a screenshot'' \<and>
   captured (screenshotCall, imageResult) \<and>
   executeTools plainShotSurroundings
      \<lparr> llm_content = ''Executing tools...'', toolCalls = Some [screenshotCall], requiresTools = True \<rparr>
      ''Take a screenshot'' ''s1'' [] =
     (Inr \<lparr> resp_content = cameraEmoji @ '' Here's a screenshot of your Mac desktop:'',
            resp_type = ImageResponse, resp_imageData = JStr ''UE5H'',
            resp_toolName = Some ''remote_macos_get_screen'', resp_sessionId = Some ''s1'',
            resp_timestamp = Some 0 \<rparr>,
      [AskCallTool ''remote_macos_get_screen'' (JObj [])]) \<and>
   isMultiStepRequest ''Take a screenshot, then click at 100,200'' \<and>
   \<not> needsContinuation ''Take a screenshot, then click at 100,200''
        [imageResult, textResult ''remote_macos_mouse_click''] True \<and>
   executeTools twoToolSurroundings
      \<lparr> llm_content = ''Executing tools...'', toolCalls = Some [screenshotCall, clickCall],
        requiresTools = True \<rparr>
      ''Take a screenshot, then click at 100,200'' ''s1'' [] =
     (Inr \<lparr> resp_content = ''Done'', resp_type = TextResponse, resp_imageData = JUndefined,
            resp_toolName = None, resp_sessionId = Some ''s1'', resp_timestamp = Some 0 \<rparr>,
      [AskCallTool ''remote_macos_get_screen'' (JObj []),
       AskCallTool ''remote_macos_mouse_click'' (JObj [(''x'', JNum 100), (''y'', JNum 200)]),
       AskListTools,
       AskFollowUp ''Take a screenshot, then click at 100,200''
         [imageResult, textResult ''remote_macos_mouse_click''] [] ''s1''])"
proof -
  let ?resp = "\<lparr> llm_content = ''Executing tools...'', toolCalls = Some [screenshotCall], requiresTools = True \<rparr>"
  let ?resp2 = "\<lparr> llm_content = ''Executing tools...'', toolCalls = Some [screenshotCall, clickCall],
        requiresTools = True \<rparr>"
  have calls: "toolCalls ?resp = Some [screenshotCall]" by simp
  have calls2: "toolCalls ?resp2 = Some [screenshotCall, clickCall]" by simp
  have res: "batchResults plainShotSurroundings [screenshotCall] [] = [imageResult]"
    by (simp add: plainShotSurroundings_def askCallTool_def)
  have res2: "batchResults twoToolSurroundings [screenshotCall, clickCall] [] =
      [imageResult, textResult ''remote_macos_mouse_click'']"
    by (simp add: twoToolSurroundings_def askCallTool_def screenshotCall_def clickCall_def)
  have cap: "captured (screenshotCall, imageResult)"
    by (simp add: orchestrator_defs)
  have shot: "\<exists>p \<in> set (zip [screenshotCall] (batchResults plainShotSurroundings [screenshotCall] [])). captured p"
    unfolding res using cap by simp
  have shot2: "\<exists>p \<in> set (zip [screenshotCall, clickCall]
      (batchResults twoToolSurroundings [screenshotCall, clickCall] [])). captured p"
    unfolding res2 using cap by simp
  have msg: "generateScreenshotMessage [imageResult] = cameraEmoji @ '' Here's a screenshot of your Mac desktop:''"
    by (simp add: generateScreenshotMessage_def imageResult_def toolResult_def)
  have img: "imageData imageResult = JStr ''UE5H''" by (simp add: imageResult_def)
  have now: "dateNow plainShotSurroundings [AskCallTool ''remote_macos_get_screen'' (JObj [])] = 0"
    by (simp add: plainShotSurroundings_def)
  have bc: "batchCalls [screenshotCall] = [AskCallTool ''remote_macos_get_screen'' (JObj [])]"
    by (simp add: batchCalls_def screenshotCall_def)
  have bc2: "batchCalls [screenshotCall, clickCall] =
      [AskCallTool ''remote_macos_get_screen'' (JObj []),
       AskCallTool ''remote_macos_mouse_click'' (JObj [(''x'', JNum 100), (''y'', JNum 200)])]"
    by (simp add: batchCalls_def screenshotCall_def clickCall_def)
  have nc: "\<not> needsContinuation ''Take a screenshot, then click at 100,200''
        [imageResult, textResult ''remote_macos_mouse_click''] True"
    by (simp add: needsContinuation_def)
  have "executeTools plainShotSurroundings ?resp ''Take a screenshot'' ''s1'' [] =
     (Inr (screenshotResponse plainShotSurroundings [imageResult] (JStr ''UE5H'') ''s1''
             [AskCallTool ''remote_macos_get_screen'' (JObj [])]),
      [AskCallTool ''remote_macos_get_screen'' (JObj [])])"
    using screenshot_answered_directly [OF calls shot, of "''Take a screenshot''" "''s1''"]
      plain_message cap
    unfolding res bc by (simp add: img)
  then have a: "executeTools plainShotSurroundings ?resp ''Take a screenshot'' ''s1'' [] =
     (Inr \<lparr> resp_content = cameraEmoji @ '' Here's a screenshot of your Mac desktop:'',
            resp_type = ImageResponse, resp_imageData = JStr ''UE5H'',
            resp_toolName = Some ''remote_macos_get_screen'', resp_sessionId = Some ''s1'',
            resp_timestamp = Some 0 \<rparr>,
      [AskCallTool ''remote_macos_get_screen'' (JObj [])])"
    by (simp add: screenshotResponse_def msg now)
  have b: "executeTools twoToolSurroundings ?resp2 ''Take a screenshot, then click at 100,200'' ''s1'' [] =
     (Inr \<lparr> resp_content = ''Done'', resp_type = TextResponse, resp_imageData = JUndefined,
            resp_toolName = None, resp_sessionId = Some ''s1'', resp_timestamp = Some 0 \<rparr>,
      [AskCallTool ''remote_macos_get_screen'' (JObj []),
       AskCallTool ''remote_macos_mouse_click'' (JObj [(''x'', JNum 100), (''y'', JNum 200)]),
       AskListTools,
       AskFollowUp ''Take a screenshot, then click at 100,200''
         [imageResult, textResult ''remote_macos_mouse_click''] [] ''s1''])"
    using screenshot_answered_directly [OF calls2 shot2,
            of "''Take a screenshot, then click at 100,200''" "''s1''"]
      multi_message nc
    unfolding res2 bc2 by (simp add: twoToolSurroundings_def textResponse_def)
  from plain_message cap a multi_message nc b show ?thesis by blast
qed

lemma two_tool_run:
  "processMessage twoToolSurroundings Map.empty ''Take a screenshot, then click at 100,200'' ''s1'' [] =
     (\<lparr> resp_content = ''Done'', resp_type = TextResponse, resp_imageData = JUndefined,
        resp_toolName = None, resp_sessionId = Some ''s1'', resp_timestamp = Some 0 \<rparr>,
      [AskListTools,
       AskProcessMessage ''Take a screenshot, then click at 100,200'' [] ''s1'',
       AskCallTool ''remote_macos_get_screen'' (JObj []),
       AskCallTool ''remote_macos_mouse_click'' (JObj [(''x'', JNum 100), (''y'', JNum 200)]),
       AskListTools,
       AskFollowUp ''Take a screenshot, then click at 100,200''
         [imageResult, textResult ''remote_macos_mouse_click''] [] ''s1''],
      updateSessionActivity Map.empty ''s1'' 0)"
  using multi_message
  by (simp add: processMessage_def processMessageBody_def executeTools_def twoToolSurroundings_def
        askListTools_def askProcessMessage_def askFollowUp_def askCallTool_def
        needsContinuation_def textResponse_def screenshotCall_def clickCall_def)

text \<open>
  Claim C7 as stated fails: the message below contains an indicator, two tools are
  executed (so the continuation branch is not taken), the screenshot call succeeds with
  image data, and yet the answer is the text of the follow-up call of the model gateway.
\<close>

theorem screenshot_with_indicator_gets_follow_up:
  "captured (screenshotCall, imageResult) \<and>
   \<not> needsContinuation ''Take a screenshot, then click at 100,200''
         [imageResult, textResult ''remote_macos_mouse_click''] True \<and>
   resp_type (fst (processMessage twoToolSurroundings Map.empty
       ''Take a screenshot, then click at 100,200'' ''s1'' [])) = TextResponse \<and>
   fst (snd (processMessage twoToolSurroundings Map.empty
       ''Take a screenshot, then click at 100,200'' ''s1'' [])) =
     [AskListTools,
      AskProcessMessage ''Take a screenshot, then click at 100,200'' [] ''s1'',
      AskCallTool ''remote_macos_get_screen'' (JObj []),
      AskCallTool ''remote_macos_mouse_click'' (JObj [(''x'', JNum 100), (''y'', JNum 200)]),
      AskListTools,
      AskFollowUp ''Take a screenshot, then click at 100,200''
        [imageResult, textResult ''remote_macos_mouse_click''] [] ''s1'']"
proof -
  have "captured (screenshotCall, imageResult)" by (simp add: orchestrator_defs)
  moreover have "\<not> needsContinuation ''Take a screenshot, then click at 100,200''
         [imageResult, textResult ''remote_macos_mouse_click''] True"
    by (simp add: needsContinuation_def)
  ultimately show ?thesis by (simp add: two_tool_run)
qed

subsection \<open>The continuation of a multi-step request\<close>

lemma batchResults_length: "length (batchResults env calls asked) = length calls"
  by (induction calls arbitrary: asked) (auto simp: askCallTool_def split: sum.splits)

lemma continuationBatch_log:
  "snd (executeContinuationBatch env calls rs asked) = asked @ batchCalls calls"
  by (induction calls arbitrary: rs asked)
     (auto simp: askCallTool_def batchCalls_def split: sum.splits)

lemma decision_batchCalls [simp]: "filter isDecisionCall (batchCalls calls) = []"
  by (simp add: batchCalls_def filter_empty_conv)

lemma continuation_log:
  "\<exists>new. snd (continueMultiStepWorkflow env originalMessage previousResults screenshotData sessionId asked)
            = asked @ new \<and> length (filter isDecisionCall new) \<le> 1"
proof (cases "listToolsAnswer env (asked @ [AskListTools])")
  case (Inl e)
  then have "snd (continueMultiStepWorkflow env originalMessage previousResults screenshotData sessionId asked)
        = asked @ [AskListTools]"
    by (simp add: continueMultiStepWorkflow_def askListTools_def)
  then show ?thesis by simp
next
  case (Inr availableTools)
  let ?a2 = "asked @ [AskListTools, AskProcessMessage (continuationPrompt originalMessage) availableTools sessionId]"
  show ?thesis
  proof (cases "processMessageAnswer env ?a2")
    case (Inl e)
    then have "snd (continueMultiStepWorkflow env originalMessage previousResults screenshotData sessionId asked)
        = asked @ [AskListTools, AskProcessMessage (continuationPrompt originalMessage) availableTools sessionId]"
      using Inr by (simp add: continueMultiStepWorkflow_def askListTools_def askProcessMessage_def)
    then show ?thesis by simp
  next
    case r: (Inr cr)
    show ?thesis
    proof (cases "if requiresTools cr then toolCalls cr else None")
      case None
      then have "snd (continueMultiStepWorkflow env originalMessage previousResults screenshotData sessionId asked)
        = asked @ [AskListTools, AskProcessMessage (continuationPrompt originalMessage) availableTools sessionId]"
        using Inr r by (simp add: continueMultiStepWorkflow_def askListTools_def askProcessMessage_def)
      then show ?thesis by simp
    next
      case (Some calls)
      have "snd (executeContinuationBatch env calls [] ?a2) = ?a2 @ batchCalls calls"
        by (rule continuationBatch_log)
      then have "snd (continueMultiStepWorkflow env originalMessage previousResults screenshotData sessionId asked)
        = asked @ ([AskListTools, AskProcessMessage (continuationPrompt originalMessage) availableTools sessionId]
                   @ batchCalls calls)"
        using Inr r Some
        by (auto simp: continueMultiStepWorkflow_def askListTools_def askProcessMessage_def
                 split: prod.splits)
      then show ?thesis
        by (intro exI [of _ "[AskListTools, AskProcessMessage (continuationPrompt originalMessage) availableTools sessionId]
                   @ batchCalls calls"]) simp
    qed
  qed
qed


lemma executeTools_log:
  assumes calls: "toolCalls llmResponse = Some calls"
  shows "\<exists>new. snd (executeTools env llmResponse originalMessage sessionId asked) = asked @ new \<and>
               length (filter isDecisionCall new) \<le> 1 \<and>
               (\<not> needsContinuation originalMessage (batchResults env calls asked)
                    (\<exists>p \<in> set (zip calls (batchResults env calls asked)). captured p)
                  \<longrightarrow> filter isDecisionCall new = [])"
proof -
  let ?rs = "batchResults env calls asked"
  let ?has = "\<exists>p \<in> set (zip calls ?rs). captured p"
  let ?shot = "if ?has then imageData (snd (last (filter captured (zip calls ?rs)))) else JNull"
  let ?a1 = "asked @ batchCalls calls"
  have batch: "executeBatch env calls ([], False, JNull) asked = ((?rs, ?has, ?shot), ?a1)"
    using executeBatch_char [of env calls "[]" False JNull asked] by simp
  show ?thesis
  proof (cases "needsContinuation originalMessage ?rs ?has")
    case True
    from continuation_log [of env originalMessage ?rs ?shot sessionId ?a1]
    obtain new where n: "snd (continueMultiStepWorkflow env originalMessage ?rs ?shot sessionId ?a1) = ?a1 @ new"
      and l: "length (filter isDecisionCall new) \<le> 1" by blast
    have "snd (executeTools env llmResponse originalMessage sessionId asked) = asked @ (batchCalls calls @ new)"
      using calls True n
      by (auto simp: executeTools_def executeBatch_char needsContinuation_def split: prod.splits)
    then show ?thesis using l True by (intro exI [of _ "batchCalls calls @ new"]) simp
  next
    case False
    show ?thesis
    proof (cases "?has \<and> truthy ?shot \<and> \<not> isMultiStepRequest originalMessage")
      case direct: True
      from direct have has: "?has" and nm: "\<not> isMultiStepRequest originalMessage" by blast+
      from direct have "truthy ?shot" by blast
      with has have t: "truthy (imageData (snd (last (filter captured (zip calls ?rs)))))"
        by (simp only: if_True)
      have "snd (executeTools env llmResponse originalMessage sessionId asked) = asked @ batchCalls calls"
        using calls False has nm t by (simp add: executeTools_def executeBatch_char)
      then show ?thesis by (intro exI [of _ "batchCalls calls"]) simp
    next
      case nodirect: False
      show ?thesis
      proof (cases "listToolsAnswer env (?a1 @ [AskListTools])")
        case (Inl e)
        have "snd (executeTools env llmResponse originalMessage sessionId asked)
                = asked @ (batchCalls calls @ [AskListTools])"
          using calls False nodirect Inl
          by (auto simp: executeTools_def executeBatch_char askListTools_def)
        then show ?thesis by (intro exI [of _ "batchCalls calls @ [AskListTools]"]) simp
      next
        case (Inr availableTools)
        have "snd (executeTools env llmResponse originalMessage sessionId asked)
                = asked @ (batchCalls calls @
                    [AskListTools, AskFollowUp originalMessage ?rs availableTools sessionId])"
          using calls False nodirect Inr
          by (auto simp: executeTools_def executeBatch_char askListTools_def askFollowUp_def
                   split: sum.splits)
        then show ?thesis
          by (intro exI [of _ "batchCalls calls @
                    [AskListTools, AskFollowUp originalMessage ?rs availableTools sessionId]"]) simp
      qed
    qed
  qed
qed


lemma single_batch:
  "(length (batchResults env calls asked) = 1 \<and>
      (\<exists>p \<in> set (zip calls (batchResults env calls asked)). captured p)) \<longleftrightarrow>
   (\<exists>c r. calls = [c] \<and> batchResults env calls asked = [r] \<and>
      call_name c = ''remote_macos_get_screen'' \<and> success r \<and> truthy (imageData r))"
proof
  assume l: "length (batchResults env calls asked) = 1 \<and>
      (\<exists>p \<in> set (zip calls (batchResults env calls asked)). captured p)"
  then have "length calls = 1" by (simp add: batchResults_length)
  then obtain c where c: "calls = [c]" by (cases calls) auto
  from l obtain r where r: "batchResults env calls asked = [r]"
    by (cases "batchResults env calls asked") auto
  have "zip calls (batchResults env calls asked) = [(c, r)]"
    by (subst r) (simp add: c)
  with l have "captured (c, r)" by (simp del: batchResults.simps)
  then show "\<exists>c r. calls = [c] \<and> batchResults env calls asked = [r] \<and>
      call_name c = ''remote_macos_get_screen'' \<and> success r \<and> truthy (imageData r)"
    using c r by (simp add: captured_def capturesScreenshot_def screenshotTool_def)
next
  assume "\<exists>c r. calls = [c] \<and> batchResults env calls asked = [r] \<and>
      call_name c = ''remote_macos_get_screen'' \<and> success r \<and> truthy (imageData r)"
  then obtain c r where c: "calls = [c]" and r: "batchResults env calls asked = [r]"
    and k: "call_name c = ''remote_macos_get_screen'' \<and> success r \<and> truthy (imageData r)"
    by blast
  have "captured (c, r)" using k by (simp add: captured_def capturesScreenshot_def screenshotTool_def)
  moreover have "zip calls (batchResults env calls asked) = [(c, r)]"
    by (subst r) (simp add: c)
  ultimately show "length (batchResults env calls asked) = 1 \<and>
      (\<exists>p \<in> set (zip calls (batchResults env calls asked)). captured p)"
    using r by (simp del: batchResults.simps)
qed

lemma processMessage_decisions:
  "length (filter isDecisionCall (fst (snd (processMessage env sessions message sessionId [])))) \<le> 2"
proof (cases "listToolsAnswer env [AskListTools]")
  case (Inl e)
  then show ?thesis
    by (simp add: processMessage_def processMessageBody_def askListTools_def)
next
  case (Inr availableTools)
  let ?a2 = "[AskListTools, AskProcessMessage message availableTools sessionId]"
  show ?thesis
  proof (cases "processMessageAnswer env ?a2")
    case (Inl e)
    then show ?thesis using Inr
      by (simp add: processMessage_def processMessageBody_def askListTools_def askProcessMessage_def)
  next
    case r: (Inr llmResponse)
    show ?thesis
    proof (cases "requiresTools llmResponse \<and> toolCalls llmResponse \<noteq> None")
      case False
      then show ?thesis using Inr r
        by (auto simp: processMessage_def processMessageBody_def askListTools_def askProcessMessage_def)
    next
      case True
      then obtain calls where calls: "toolCalls llmResponse = Some calls" by auto
      from executeTools_log [OF calls, of env message sessionId ?a2]
      obtain new where n: "snd (executeTools env llmResponse message sessionId ?a2) = ?a2 @ new"
        and l: "length (filter isDecisionCall new) \<le> 1" by blast
      have "fst (snd (processMessage env sessions message sessionId [])) =
              snd (executeTools env llmResponse message sessionId ?a2)"
        using Inr r True
        by (auto simp: processMessage_def processMessageBody_def askListTools_def askProcessMessage_def
                 Let_def split: prod.splits sum.splits)
      then show ?thesis using n l by simp
    qed
  qed
qed

text \<open>
  Claim C8, as amended. After the first batch, the continuation branch is taken if and only
  if the lower-cased message text contains one of the fixed indicators, exactly one tool was
  executed, it was the screenshot tool, it succeeded, and its result carries non-empty image
  data. When the branch is taken \<^verbatim>\<open>executeTools\<close> answers with the outcome of
  \<^verbatim>\<open>continueMultiStepWorkflow\<close>; when it is not, no further decision is asked of the
  model gateway. In either case \<^verbatim>\<open>executeTools\<close> adds at most one decision call, and
  a whole \<^verbatim>\<open>processMessage\<close> asks at most two decisions: the continuation is performed
  at most once and never recursively.
\<close>

theorem continuation_only_after_lone_screenshot:
  assumes calls: "toolCalls llmResponse = Some calls"
    and batch: "executeBatch env calls ([], False, JNull) asked = ((toolResults, hasScreenshot, screenshotData), a1)"
  shows "(needsContinuation originalMessage toolResults hasScreenshot \<longleftrightarrow>
            list_ex (\<lambda>indicator. stringIncludes (toLowerCase originalMessage) indicator) multiStepIndicators \<and>
            (\<exists>c r. calls = [c] \<and> toolResults = [r] \<and>
               call_name c = ''remote_macos_get_screen'' \<and> success r \<and> truthy (imageData r))) \<and>
         (needsContinuation originalMessage toolResults hasScreenshot \<longrightarrow>
            executeTools env llmResponse originalMessage sessionId asked =
              (Inr (fst (continueMultiStepWorkflow env originalMessage toolResults screenshotData sessionId a1)),
               snd (continueMultiStepWorkflow env originalMessage toolResults screenshotData sessionId a1))) \<and>
         (\<not> needsContinuation originalMessage toolResults hasScreenshot \<longrightarrow>
            filter isDecisionCall (snd (executeTools env llmResponse originalMessage sessionId asked)) =
              filter isDecisionCall asked) \<and>
         length (filter isDecisionCall (snd (executeTools env llmResponse originalMessage sessionId asked)))
           \<le> Suc (length (filter isDecisionCall asked)) \<and>
         length (filter isDecisionCall (fst (snd (processMessage env sessions originalMessage sessionId []))))
           \<le> 2"
proof -
  let ?rs = "batchResults env calls asked"
  let ?has = "\<exists>p \<in> set (zip calls ?rs). captured p"
  let ?shot = "if ?has then imageData (snd (last (filter captured (zip calls ?rs)))) else JNull"
  have b2: "executeBatch env calls ([], False, JNull) asked = ((?rs, ?has, ?shot), asked @ batchCalls calls)"
    using executeBatch_char [of env calls "[]" False JNull asked] by simp
  have "((toolResults, hasScreenshot, screenshotData), a1) = ((?rs, ?has, ?shot), asked @ batchCalls calls)"
    using trans [OF batch [symmetric] b2] .
  then have rs: "toolResults = ?rs" and has: "hasScreenshot = ?has"
    by (simp_all only: prod.inject)
  have iff: "needsContinuation originalMessage toolResults hasScreenshot \<longleftrightarrow>
            list_ex (\<lambda>indicator. stringIncludes (toLowerCase originalMessage) indicator) multiStepIndicators \<and>
            (\<exists>c r. calls = [c] \<and> toolResults = [r] \<and>
               call_name c = ''remote_macos_get_screen'' \<and> success r \<and> truthy (imageData r))"
    unfolding rs has needsContinuation_def isMultiStepRequest_def
    using single_batch [of env calls asked] by simp
  have taken: "needsContinuation originalMessage toolResults hasScreenshot \<longrightarrow>
            executeTools env llmResponse originalMessage sessionId asked =
              (Inr (fst (continueMultiStepWorkflow env originalMessage toolResults screenshotData sessionId a1)),
               snd (continueMultiStepWorkflow env originalMessage toolResults screenshotData sessionId a1))"
    using calls batch by (simp add: executeTools_def split: prod.splits)
  from executeTools_log [OF calls, of env originalMessage sessionId asked]
  obtain new where n: "snd (executeTools env llmResponse originalMessage sessionId asked) = asked @ new"
    and l: "length (filter isDecisionCall new) \<le> 1"
    and z: "\<not> needsContinuation originalMessage ?rs ?has \<longrightarrow> filter isDecisionCall new = []"
    by blast
  have nottaken: "\<not> needsContinuation originalMessage toolResults hasScreenshot \<longrightarrow>
            filter isDecisionCall (snd (executeTools env llmResponse originalMessage sessionId asked)) =
              filter isDecisionCall asked"
    using n z by (simp add: rs has)
  have bound: "length (filter isDecisionCall (snd (executeTools env llmResponse originalMessage sessionId asked)))
           \<le> Suc (length (filter isDecisionCall asked))"
    using n l by simp
  from iff taken nottaken bound processMessage_decisions [of env sessions originalMessage sessionId]
  show ?thesis by blast
qed


lemma chained_message: "isMultiStepRequest ''Take a screenshot, then open Safari''"
  by (simp add: isMultiStepRequest_def multiStepIndicators_def toLowerCase_def lowerChar_def)

lemma two_step_batch:
  "executeBatch twoStepSurroundings [screenshotCall] ([], False, JNull)
      [AskListTools, AskProcessMessage ''Take a screenshot, then open Safari'' [] ''s1''] =
     (([imageResult], True, JStr ''UE5H''),
      [AskListTools, AskProcessMessage ''Take a screenshot, then open Safari'' [] ''s1'',
       AskCallTool ''remote_macos_get_screen'' (JObj [])])"
  by (simp add: twoStepSurroundings_def orchestrator_defs)

lemma two_step_run:
  "processMessage twoStepSurroundings Map.empty ''Take a screenshot, then open Safari'' ''s1'' [] =
     (textResponse twoStepSurroundings
        (workflowProgressText (\<lambda>n. [])
           [imageResult, textResult ''remote_macos_open_application''])
        ''s1''
        [AskListTools,
         AskProcessMessage ''Take a screenshot, then open Safari'' [] ''s1'',
         AskCallTool ''remote_macos_get_screen'' (JObj []),
         AskListTools,
         AskProcessMessage (continuationPrompt ''Take a screenshot, then open Safari'') [] ''s1'',
         AskCallTool ''remote_macos_open_application'' (JObj [(''application_name'', JStr ''Safari'')])],
      [AskListTools,
       AskProcessMessage ''Take a screenshot, then open Safari'' [] ''s1'',
       AskCallTool ''remote_macos_get_screen'' (JObj []),
       AskListTools,
       AskProcessMessage (continuationPrompt ''Take a screenshot, then open Safari'') [] ''s1'',
       AskCallTool ''remote_macos_open_application'' (JObj [(''application_name'', JStr ''Safari'')])],
      updateSessionActivity Map.empty ''s1'' 0)"
  using chained_message
  by (simp add: processMessage_def processMessageBody_def executeTools_def twoStepSurroundings_def
        continueMultiStepWorkflow_def needsContinuation_def
        askListTools_def askProcessMessage_def askFollowUp_def askCallTool_def
        capturesScreenshot_def screenshotTool_def toolResult_def
        screenshotCall_def openCall_def imageResult_def textResult_def)


text \<open>
  The amended claim at a two-step message: the screenshot is taken, the continuation asks
  one more decision and opens the application.
\<close>

theorem continuation_only_after_lone_screenshot_witness:
  "isMultiStepRequest ''Take a screenshot, then open Safari'' \<and>
   needsContinuation ''Take a screenshot, then open Safari'' [imageResult] True \<and>
   executeTools twoStepSurroundings
      \<lparr> llm_content = ''Executing tools...'', toolCalls = Some [screenshotCall], requiresTools = True \<rparr>
      ''Take a screenshot, then open Safari'' ''s1''
      [AskListTools, AskProcessMessage ''Take a screenshot, then open Safari'' [] ''s1''] =
     (Inr (fst (continueMultiStepWorkflow twoStepSurroundings ''Take a screenshot, then open Safari''
                  [imageResult] (JStr ''UE5H'') ''s1''
                  [AskListTools, AskProcessMessage ''Take a screenshot, then open Safari'' [] ''s1'',
                   AskCallTool ''remote_macos_get_screen'' (JObj [])])),
      snd (continueMultiStepWorkflow twoStepSurroundings ''Take a screenshot, then open Safari''
                  [imageResult] (JStr ''UE5H'') ''s1''
                  [AskListTools, AskProcessMessage ''Take a screenshot, then open Safari'' [] ''s1'',
                   AskCallTool ''remote_macos_get_screen'' (JObj [])])) \<and>
   filter isDecisionCall (fst (snd (processMessage twoStepSurroundings Map.empty
       ''Take a screenshot, then open Safari'' ''s1'' []))) =
     [AskProcessMessage ''Take a screenshot, then open Safari'' [] ''s1'',
      AskProcessMessage (continuationPrompt ''Take a screenshot, then open Safari'') [] ''s1''] \<and>
   resp_type (fst (processMessage twoStepSurroundings Map.empty
       ''Take a screenshot, then open Safari'' ''s1'' [])) = TextResponse"
proof -
  let ?resp = "\<lparr> llm_content = ''Executing tools...'', toolCalls = Some [screenshotCall], requiresTools = True \<rparr>"
  have calls: "toolCalls ?resp = Some [screenshotCall]" by simp
  have shot: "\<exists>c r. [screenshotCall] = [c] \<and> [imageResult] = [r] \<and>
      call_name c = ''remote_macos_get_screen'' \<and> success r \<and> truthy (imageData r)"
    by (simp add: screenshotCall_def imageResult_def toolResult_def)
  have ind: "list_ex (\<lambda>indicator. stringIncludes (toLowerCase ''Take a screenshot, then open Safari'') indicator)
               multiStepIndicators"
    using chained_message by (simp only: isMultiStepRequest_def)
  note t = continuation_only_after_lone_screenshot [OF calls two_step_batch,
             of "''Take a screenshot, then open Safari''" "''s1''" Map.empty]
  from t ind shot
  have need: "needsContinuation ''Take a screenshot, then open Safari'' [imageResult] True"
    by blast
  with t have ex: "executeTools twoStepSurroundings ?resp
      ''Take a screenshot, then open Safari'' ''s1''
      [AskListTools, AskProcessMessage ''Take a screenshot, then open Safari'' [] ''s1''] =
     (Inr (fst (continueMultiStepWorkflow twoStepSurroundings ''Take a screenshot, then open Safari''
                  [imageResult] (JStr ''UE5H'') ''s1''
                  [AskListTools, AskProcessMessage ''Take a screenshot, then open Safari'' [] ''s1'',
                   AskCallTool ''remote_macos_get_screen'' (JObj [])])),
      snd (continueMultiStepWorkflow twoStepSurroundings ''Take a screenshot, then open Safari''
                  [imageResult] (JStr ''UE5H'') ''s1''
                  [AskListTools, AskProcessMessage ''Take a screenshot, then open Safari'' [] ''s1'',
                   AskCallTool ''remote_macos_get_screen'' (JObj [])]))"
    by blast
  have run: "filter isDecisionCall (fst (snd (processMessage twoStepSurroundings Map.empty
       ''Take a screenshot, then open Safari'' ''s1'' []))) =
     [AskProcessMessage ''Take a screenshot, then open Safari'' [] ''s1'',
      AskProcessMessage (continuationPrompt ''Take a screenshot, then open Safari'') [] ''s1''] \<and>
   resp_type (fst (processMessage twoStepSurroundings Map.empty
       ''Take a screenshot, then open Safari'' ''s1'' [])) = TextResponse"
    by (simp add: two_step_run textResponse_def)
  from chained_message need ex run show ?thesis by blast
qed

lemma text_shot_run:
  "processMessage textShotSurroundings Map.empty ''Take a screenshot, then open Safari'' ''s1'' [] =
     (\<lparr> resp_content = ''Done'', resp_type = TextResponse, resp_imageData = JUndefined,
        resp_toolName = None, resp_sessionId = Some ''s1'', resp_timestamp = Some 0 \<rparr>,
      [AskListTools,
       AskProcessMessage ''Take a screenshot, then open Safari'' [] ''s1'',
       AskCallTool ''remote_macos_get_screen'' (JObj []),
       AskListTools,
       AskFollowUp ''Take a screenshot, then open Safari'' [textResult ''remote_macos_get_screen''] [] ''s1''],
      updateSessionActivity Map.empty ''s1'' 0)"
  using chained_message
  by (simp add: processMessage_def processMessageBody_def executeTools_def textShotSurroundings_def
        needsContinuation_def textResponse_def
        askListTools_def askProcessMessage_def askFollowUp_def askCallTool_def
        capturesScreenshot_def screenshotTool_def toolResult_def
        screenshotCall_def textResult_def)

text \<open>
  Claim C8 as stated fails: the message contains the indicator \<^verbatim>\<open>then\<close>, exactly one
  tool is executed, it is the screenshot tool and it succeeds, but its result carries text
  and no image data; the continuation branch is not taken and the follow-up call is made.
\<close>

theorem lone_screenshot_without_image_not_continued:
  "stringIncludes ''Take a screenshot, then open Safari'' ''then'' \<and>
   batchResults textShotSurroundings [screenshotCall]
      [AskListTools, AskProcessMessage ''Take a screenshot, then open Safari'' [] ''s1'']
     = [textResult ''remote_macos_get_screen''] \<and>
   call_name screenshotCall = ''remote_macos_get_screen'' \<and>
   success (textResult ''remote_macos_get_screen'') \<and>
   \<not> needsContinuation ''Take a screenshot, then open Safari'' [textResult ''remote_macos_get_screen''] False \<and>
   fst (snd (processMessage textShotSurroundings Map.empty ''Take a screenshot, then open Safari'' ''s1'' [])) =
     [AskListTools,
      AskProcessMessage ''Take a screenshot, then open Safari'' [] ''s1'',
      AskCallTool ''remote_macos_get_screen'' (JObj []),
      AskListTools,
      AskFollowUp ''Take a screenshot, then open Safari'' [textResult ''remote_macos_get_screen''] [] ''s1'']"
proof -
  have "stringIncludes ''Take a screenshot, then open Safari'' ''then''" by simp
  moreover have "batchResults textShotSurroundings [screenshotCall]
      [AskListTools, AskProcessMessage ''Take a screenshot, then open Safari'' [] ''s1'']
     = [textResult ''remote_macos_get_screen'']"
    by (simp add: textShotSurroundings_def askCallTool_def)
  moreover have "call_name screenshotCall = ''remote_macos_get_screen''"
    by (simp add: screenshotCall_def)
  moreover have "success (textResult ''remote_macos_get_screen'')"
    by (simp add: textResult_def toolResult_def)
  moreover have "\<not> needsContinuation ''Take a screenshot, then open Safari'' [textResult ''remote_macos_get_screen''] False"
    by (simp add: needsContinuation_def)
  ultimately show ?thesis by (simp only: text_shot_run fst_conv snd_conv simp_thms)
qed

subsection \<open>Throws and the apology\<close>






lemma batchCalls_take_Suc:
  "batchCalls (take (Suc k) (c # cs)) = AskCallTool (call_name c) (arguments c) # batchCalls (take k cs)"
  by (simp add: batchCalls_def)


















end
